(* ===== verification/Prelude.thy ===== *)
theory Prelude
  imports Main
begin

text \<open>
  What the components share: results with the two ways the program leaves a function without a
  value (a fatal message, undefined behaviour), the decimal printing and reading of C++ streams,
  and generic lemmas on lists and association lists.
\<close>

named_theorems codec "equations that evaluate what the writer emits and the reader looks up"

subsection \<open>Results\<close>

text \<open>
  \<open>Fatal\<close> is the macro \<open>XEV_FATAL\<close> of \<open>src/common.hpp\<close>: the message is printed and the process
  exits with status 1. \<open>Undef\<close> is undefined behaviour of C++ (an uninitialised read, a call through
  a null pointer); the model makes it a value so that it is never silently ignored.
\<close>

datatype err = Fatal string | Undef string

type_synonym 'a res = "err + 'a"

definition bind_res :: "'a res \<Rightarrow> ('a \<Rightarrow> 'b res) \<Rightarrow> 'b res" where
  "bind_res m k = (case m of Inl e \<Rightarrow> Inl e | Inr x \<Rightarrow> k x)"

lemma bind_res_simps [simp, codec]:
  "bind_res (Inl e) k = Inl e"
  "bind_res (Inr x) k = k x"
  by (simp_all add: bind_res_def)

lemma bind_res_eq_Inr: "bind_res m k = Inr y \<longleftrightarrow> (\<exists>x. m = Inr x \<and> k x = Inr y)"
  by (cases m) auto

lemma bind_res_cong [fundef_cong]:
  "m = m' \<Longrightarrow> (\<And>x. m' = Inr x \<Longrightarrow> k x = k' x) \<Longrightarrow> bind_res m k = bind_res m' k'"
  by (cases m') auto

text \<open>A missing child node (\<open>XEV_MISSING_NODE\<close>): a null pointer ends the process.\<close>

definition need :: "string \<Rightarrow> 'a option \<Rightarrow> ('a \<Rightarrow> 'b res) \<Rightarrow> 'b res" where
  "need msg v k = (case v of None \<Rightarrow> Inl (Fatal msg) | Some x \<Rightarrow> k x)"

lemma need_simps [simp, codec]:
  "need msg None k = Inl (Fatal msg)"
  "need msg (Some x) k = k x"
  by (simp_all add: need_def)

lemma need_eq_Inr: "need msg v k = Inr y \<longleftrightarrow> (\<exists>x. v = Some x \<and> k x = Inr y)"
  by (cases v) auto

text \<open>A loop over a list that stops at the first error, with and without a state.\<close>

fun mapR :: "('a \<Rightarrow> 'b res) \<Rightarrow> 'a list \<Rightarrow> 'b list res" where
  "mapR f [] = Inr []"
| "mapR f (x # xs) = bind_res (f x) (\<lambda>y. bind_res (mapR f xs) (\<lambda>ys. Inr (y # ys)))"

fun mapS :: "('a \<Rightarrow> 's \<Rightarrow> ('b \<times> 's) res) \<Rightarrow> 'a list \<Rightarrow> 's \<Rightarrow> ('b list \<times> 's) res" where
  "mapS f [] s = Inr ([], s)"
| "mapS f (x # xs) s =
     bind_res (f x s) (\<lambda>(y, s'). bind_res (mapS f xs s') (\<lambda>(ys, s''). Inr (y # ys, s'')))"

lemma mapR_cong [fundef_cong]:
  "xs = ys \<Longrightarrow> (\<And>x. x \<in> set ys \<Longrightarrow> f x = g x) \<Longrightarrow> mapR f xs = mapR g ys"
  by (induction xs arbitrary: ys) auto

lemma mapS_cong [fundef_cong]:
  "xs = ys \<Longrightarrow> s = t \<Longrightarrow> (\<And>x u. x \<in> set ys \<Longrightarrow> f x u = g x u) \<Longrightarrow> mapS f xs s = mapS g ys t"
proof (induction xs arbitrary: ys s t)
  case Nil
  then show ?case by auto
next
  case (Cons x xs)
  then show ?case
    by (cases ys) (auto simp: bind_res_def split: sum.splits)
qed

lemma mapR_Inr: "(\<And>x. x \<in> set xs \<Longrightarrow> f x = Inr (g x)) \<Longrightarrow> mapR f xs = Inr (map g xs)"
  by (induction xs) auto

lemma mapS_append:
  "mapS f (xs @ ys) s =
     bind_res (mapS f xs s) (\<lambda>(us, s'). bind_res (mapS f ys s') (\<lambda>(vs, s''). Inr (us @ vs, s'')))"
  by (induction xs arbitrary: s) (auto simp: bind_res_def split: sum.splits prod.splits)

text \<open>A pass that keeps its state unobserved: each element yields its value from any state.\<close>

lemma mapS_total:
  assumes "\<And>x s. x \<in> set xs \<Longrightarrow> \<exists>s'. f x s = Inr (g x, s')"
  shows "\<exists>s'. mapS f xs s = Inr (map g xs, s')"
  using assms
proof (induction xs arbitrary: s)
  case Nil
  then show ?case by simp
next
  case (Cons x xs)
  obtain s1 where "f x s = Inr (g x, s1)" using Cons.prems by fastforce
  moreover obtain s2 where "mapS f xs s1 = Inr (map g xs, s2)" using Cons by fastforce
  ultimately show ?case by simp
qed

subsection \<open>Characters and decimal numbers\<close>

text \<open>The six characters \<open>isspace\<close> accepts in the C locale.\<close>

definition isspace :: "char \<Rightarrow> bool" where
  "isspace c \<longleftrightarrow> c \<in> {CHR 0x20, CHR 0x09, CHR 0x0A, CHR 0x0B, CHR 0x0C, CHR 0x0D}"

definition digit :: "nat \<Rightarrow> char" where
  "digit d = ''0123456789'' ! d"

definition is_digit :: "char \<Rightarrow> bool" where
  "is_digit c \<longleftrightarrow> 48 \<le> (of_char c :: nat) \<and> (of_char c :: nat) \<le> 57"

definition digit_val :: "char \<Rightarrow> nat" where
  "digit_val c = of_char c - 48"

text \<open>What \<open>operator<<\<close> prints for an integer in the default (decimal) format.\<close>

fun show_nat :: "nat \<Rightarrow> string" where
  "show_nat n = (if n < 10 then [digit n] else show_nat (n div 10) @ [digit (n mod 10)])"

declare show_nat.simps [simp del]

definition show_int :: "int \<Rightarrow> string" where
  "show_int i = (if i < 0 then CHR ''-'' # show_nat (nat (- i)) else show_nat (nat i))"

definition show_bool :: "bool \<Rightarrow> string" where
  "show_bool b = (if b then ''1'' else ''0'')"

text \<open>The value of a run of digits, most significant first.\<close>

definition digits_val :: "string \<Rightarrow> nat" where
  "digits_val ds = foldl (\<lambda>a c. 10 * a + digit_val c) 0 ds"

lemma digits_val_append [simp]: "digits_val (ds @ [c]) = 10 * digits_val ds + digit_val c"
  by (simp add: digits_val_def)

lemma digit_cases: "d < 10 \<Longrightarrow> d \<in> {0, 1, 2, 3, 4, 5, 6, 7, 8, 9}" for d :: nat
  by auto

lemma digit_props [simp]:
  assumes "d < 10"
  shows "is_digit (digit d)" "digit_val (digit d) = d" "\<not> isspace (digit d)"
    "digit d \<noteq> CHR ''-''" "digit d \<noteq> CHR ''+''" "digit d \<noteq> CHR ''&''"
  using digit_cases [OF assms]
  by (auto simp: is_digit_def digit_def digit_val_def isspace_def)

lemma show_nat_digits: "\<forall>c \<in> set (show_nat n). \<exists>d < 10. c = digit d"
proof (induction n rule: show_nat.induct)
  case (1 n)
  have "n mod 10 < 10" by simp
  then have "\<exists>d < 10. digit (n mod 10) = digit d" by blast
  then show ?case using 1 by (subst show_nat.simps) auto
qed

lemma show_nat_nonempty [simp]: "show_nat n \<noteq> []"
  by (subst show_nat.simps) simp

lemma show_nat_all_digits: "list_all is_digit (show_nat n)"
  using show_nat_digits [of n] by (auto simp: list_all_iff)

lemma digits_val_show_nat [simp]: "digits_val (show_nat n) = n"
proof (induction n rule: show_nat.induct)
  case (1 n)
  show ?case
  proof (cases "n < 10")
    case True
    then show ?thesis by (subst show_nat.simps) (simp add: digits_val_def)
  next
    case False
    with "1.IH" show ?thesis by (subst show_nat.simps) simp
  qed
qed

subsection \<open>Reading numbers from a stream\<close>

text \<open>
  \<open>std::istream::operator>>\<close> on an integer: leading white space is skipped, then an optional sign
  and the longest run of digits are taken. When the text is used up by the white space the
  extraction does not start and the variable keeps its old value (\<open>None\<close>); with no digit the
  variable is set to zero; a value outside the type is set to the nearest bound. An unsigned type
  accepts a minus sign and negates in its own arithmetic.
\<close>

definition sign_of :: "string \<Rightarrow> bool \<times> string" where
  "sign_of s = (case s of [] \<Rightarrow> (False, [])
     | c # cs \<Rightarrow> if c = CHR ''-'' then (True, cs) else if c = CHR ''+'' then (False, cs) else (False, s))"

definition scan_int :: "int \<Rightarrow> int \<Rightarrow> string \<Rightarrow> int option" where
  "scan_int lo hi s =
     (let t = dropWhile isspace s in
      if t = [] then None
      else let (neg, u) = sign_of t; ds = takeWhile is_digit u;
               v = (if neg then - int (digits_val ds) else int (digits_val ds))
           in Some (max lo (min hi v)))"

definition scan_unsigned :: "nat \<Rightarrow> string \<Rightarrow> int option" where
  "scan_unsigned w s =
     (let t = dropWhile isspace s in
      if t = [] then None
      else let (neg, u) = sign_of t; ds = takeWhile is_digit u; v = int (digits_val ds)
           in Some (if 2 ^ w \<le> v then 2 ^ w - 1 else if neg then (- v) mod 2 ^ w else v))"

definition int32 :: "int \<Rightarrow> bool" where
  "int32 v \<longleftrightarrow> - (2 ^ 31) \<le> v \<and> v < 2 ^ 31"

definition scan_int32 :: "string \<Rightarrow> int option" where
  "scan_int32 = scan_int (- (2 ^ 31)) (2 ^ 31 - 1)"

lemma show_nat_no_space [simp]: "dropWhile isspace (show_nat n) = show_nat n"
proof -
  have "show_nat n = hd (show_nat n) # tl (show_nat n)" by simp
  moreover have "\<not> isspace (hd (show_nat n))"
    using show_nat_digits [of n] by (metis digit_props(3) hd_in_set show_nat_nonempty)
  ultimately show ?thesis by (metis dropWhile.simps(2))
qed

lemma sign_of_show_nat [simp]: "sign_of (show_nat n) = (False, show_nat n)"
proof -
  obtain c cs where c: "show_nat n = c # cs" by (cases "show_nat n") auto
  then have "\<exists>d < 10. c = digit d" using show_nat_digits [of n] by auto
  then show ?thesis using c by (auto simp: sign_of_def)
qed

lemma takeWhile_show_nat [simp]: "takeWhile is_digit (show_nat n) = show_nat n"
  using show_nat_digits [of n] by (auto simp: takeWhile_eq_all_conv)

lemma dropWhile_show_int [simp]: "dropWhile isspace (show_int v) = show_int v"
  by (simp add: show_int_def isspace_def)

lemma sign_of_show_int: "sign_of (show_int v) = (v < 0, show_nat (nat \<bar>v\<bar>))"
proof (cases "v < 0")
  case True
  then show ?thesis by (simp add: show_int_def sign_of_def)
next
  case False
  then show ?thesis by (simp add: show_int_def)
qed

lemma show_int_nonempty [simp]: "show_int v \<noteq> []"
  by (simp add: show_int_def)

lemma show_int_scan: "lo \<le> v \<Longrightarrow> v \<le> hi \<Longrightarrow> scan_int lo hi (show_int v) = Some v"
  by (simp add: scan_int_def sign_of_show_int Let_def)

lemma scan_int32_show_int [simp, codec]: "int32 v \<Longrightarrow> scan_int32 (show_int v) = Some v"
  by (simp add: scan_int32_def int32_def show_int_scan)

lemma scan_int32_show_bool [simp, codec]: "scan_int32 (show_bool b) = Some (of_bool b)"
  by (auto simp: scan_int32_def scan_int_def show_bool_def sign_of_def isspace_def is_digit_def
      digits_val_def digit_val_def)

lemma scan_unsigned_show [simp]:
  "0 \<le> v \<Longrightarrow> v < 2 ^ w \<Longrightarrow> scan_unsigned w (show_int v) = Some v"
  by (simp add: scan_unsigned_def sign_of_show_int Let_def)

lemma scan_int_bounds:
  "lo \<le> hi \<Longrightarrow> scan_int lo hi s = Some v \<Longrightarrow> lo \<le> v \<and> v \<le> hi"
  by (auto simp: scan_int_def Let_def split: if_splits prod.splits)

lemma int32_scan: "scan_int32 s = Some v \<Longrightarrow> int32 v"
  using scan_int_bounds [of "- (2 ^ 31)" "2 ^ 31 - 1" s v] by (auto simp: scan_int32_def int32_def)

lemma show_int_chars: "c \<in> set (show_int v) \<Longrightarrow> c = CHR ''-'' \<or> is_digit c"
  using show_nat_all_digits by (auto simp: show_int_def list_all_iff split: if_splits)

subsection \<open>Lists\<close>

text \<open>
  The two ways the reader fills its variables from the children of an element, in document order.
  \<open>first_of p\<close> is \<open>if(x==0) x = isSgP(child)\<close>; \<open>fill ps\<close> is the chain
  \<open>if(a==0) a = isSgA(child); else if(b==0) b = isSgB(child); ...\<close>: each child is offered to the
  first variable that is still null, and dropped when it is not of that kind.
\<close>

definition first_of :: "('a \<Rightarrow> bool) \<Rightarrow> 'a list \<Rightarrow> 'a option" where
  "first_of p xs = List.find p xs"

fun offer :: "('a \<Rightarrow> bool) list \<Rightarrow> 'a option list \<Rightarrow> 'a \<Rightarrow> 'a option list" where
  "offer (p # ps) (None # vs) x = (if p x then Some x # vs else None # vs)"
| "offer (p # ps) (Some v # vs) x = Some v # offer ps vs x"
| "offer _ vs x = vs"

definition fill :: "('a \<Rightarrow> bool) list \<Rightarrow> 'a list \<Rightarrow> 'a option list" where
  "fill ps xs = foldl (offer ps) (replicate (length ps) None) xs"

lemma first_of_simps [simp]:
  "first_of p [] = None"
  "first_of p (x # xs) = (if p x then Some x else first_of p xs)"
  by (simp_all add: first_of_def)

lemma first_of_append: "first_of p (xs @ ys) = (case first_of p xs of None \<Rightarrow> first_of p ys | r \<Rightarrow> r)"
  by (induction xs) auto

lemma first_of_None: "first_of p xs = None \<longleftrightarrow> (\<forall>x \<in> set xs. \<not> p x)"
  by (induction xs) auto

lemma first_of_Some: "first_of p xs = Some x \<Longrightarrow> x \<in> set xs \<and> p x"
  by (induction xs) (auto split: if_splits)

lemma length_offer [simp]: "length (offer ps vs x) = length vs"
  by (induction ps vs x rule: offer.induct) auto

lemma length_fill [simp]: "length (fill ps xs) = length ps"
proof -
  have "length (foldl (offer ps) vs xs) = length vs" for vs
    by (induction xs arbitrary: vs) auto
  then show ?thesis by (simp add: fill_def)
qed

text \<open>What a chain has picked: only children, each of the kind its variable asks for.\<close>

definition holds_for :: "'a set \<Rightarrow> ('a \<Rightarrow> bool) \<Rightarrow> 'a option \<Rightarrow> bool" where
  "holds_for A p v \<longleftrightarrow> (\<forall>y. v = Some y \<longrightarrow> p y \<and> y \<in> A)"

lemma offer_sound:
  "list_all2 (holds_for A) ps vs \<Longrightarrow> x \<in> A \<Longrightarrow> list_all2 (holds_for A) ps (offer ps vs x)"
  by (induction ps vs x rule: offer.induct) (auto simp: holds_for_def)

lemma foldl_offer_sound:
  "list_all2 (holds_for A) ps vs \<Longrightarrow> set xs \<subseteq> A \<Longrightarrow>
     list_all2 (holds_for A) ps (foldl (offer ps) vs xs)"
  by (induction xs arbitrary: vs) (auto intro: offer_sound)

lemma fill_sound: "list_all2 (holds_for (set xs)) ps (fill ps xs)"
  unfolding fill_def
  by (rule foldl_offer_sound) (auto simp: list_all2_conv_all_nth holds_for_def)

lemma map_of_Some_unique:
  "distinct (map fst xs) \<Longrightarrow> (k, v) \<in> set xs \<Longrightarrow> map_of xs k = Some v"
  by simp

end
