(* ===== verification/XmlEntity.thy ===== *)
theory XmlEntity
  imports Prelude "HOL-Library.Sublist" "HOL-Library.Monad_Syntax"
begin

text \<open>
  The entity coding of \<open>src/xmlutils.cpp\<close>: the search-and-replace loop \<open>REPLACE\<close>, the escaping
  \<open>XmlStr2Entity\<close> and its partner \<open>XmlEntity2Str\<close>, each a sequence of eight such loops; next to
  them the single-pass expansion of references that an XML 1.0 processor applies to an attribute
  value before the program sees it. The lemmas reduce the loops to one pass over the characters
  and say exactly for which strings decoding inverts encoding.
\<close>

subsection \<open>The replacement loop\<close>

text \<open>\<open>std::string::find\<close>: the least position at or after \<open>pos\<close> where the pattern occurs.\<close>

definition prefix_at :: "string \<Rightarrow> nat \<Rightarrow> string \<Rightarrow> bool" where
  "prefix_at s i p \<longleftrightarrow> i + length p \<le> length s \<and> take (length p) (drop i s) = p"

fun find_up :: "nat \<Rightarrow> string \<Rightarrow> string \<Rightarrow> nat \<Rightarrow> nat option" where
  "find_up 0 s p pos = None"
| "find_up (Suc n) s p pos = (if prefix_at s pos p then Some pos else find_up n s p (Suc pos))"

definition find :: "string \<Rightarrow> string \<Rightarrow> nat \<Rightarrow> nat option" where
  "find s p pos = find_up (Suc (length s) - pos) s p pos"

text \<open>
  The loop of \<open>REPLACE\<close> after the first search: the occurrence is replaced in place and the search
  goes on behind the replacement. The loop has no bound of its own, so not returning is \<open>None\<close>.
\<close>

definition replace_at :: "string \<Rightarrow> nat \<Rightarrow> string \<Rightarrow> string \<Rightarrow> string" where
  "replace_at str1 p str2 str3 = take p str1 @ str3 @ drop (p + length str2) str1"

partial_function (option) REPLACE_loop ::
    "string \<Rightarrow> string \<Rightarrow> string \<Rightarrow> nat option \<Rightarrow> string option" where
  "REPLACE_loop str1 str2 str3 Pos =
     (if Pos = None then Some str1
      else REPLACE_loop (replace_at str1 (the Pos) str2 str3) str2 str3
             (find (replace_at str1 (the Pos) str2 str3) str2 (the Pos + length str3)))"

definition REPLACE :: "string \<Rightarrow> string \<Rightarrow> string \<Rightarrow> string option" where
  "REPLACE str1 str2 str3 = REPLACE_loop str1 str2 str3 (find str1 str2 0)"

text \<open>The same replacement as one pass over the characters, left to right, without overlap.\<close>

function (sequential) subst_all :: "string \<Rightarrow> string \<Rightarrow> string \<Rightarrow> string" where
  "subst_all p r [] = []"
| "subst_all p r (c # cs) =
     (if p \<noteq> [] \<and> take (length p) (c # cs) = p then r @ subst_all p r (drop (length p) (c # cs))
      else c # subst_all p r cs)"
  by pat_completeness auto
termination
  by (relation "measure (\<lambda>(p, r, s). length s)") auto

lemma find_up_None:
  "find_up n s p pos = None \<longleftrightarrow> (\<forall>i. pos \<le> i \<and> i < pos + n \<longrightarrow> \<not> prefix_at s i p)"
proof (induction n arbitrary: pos)
  case 0
  then show ?case by auto
next
  case (Suc n)
  show ?case
  proof (cases "prefix_at s pos p")
    case True
    then show ?thesis by (auto intro!: exI [of _ pos])
  next
    case False
    then have "find_up (Suc n) s p pos = None \<longleftrightarrow>
        (\<forall>i. Suc pos \<le> i \<and> i < Suc pos + n \<longrightarrow> \<not> prefix_at s i p)"
      using Suc by simp
    also have "\<dots> \<longleftrightarrow> (\<forall>i. pos \<le> i \<and> i < pos + Suc n \<longrightarrow> \<not> prefix_at s i p)"
      using False by (metis Suc_leI add_Suc_right add_Suc le_neq_implies_less Suc_leD)
    finally show ?thesis .
  qed
qed

lemma find_up_Some:
  "find_up n s p pos = Some i \<Longrightarrow>
     pos \<le> i \<and> prefix_at s i p \<and> (\<forall>j. pos \<le> j \<and> j < i \<longrightarrow> \<not> prefix_at s j p)"
proof (induction n arbitrary: pos)
  case 0
  then show ?case by simp
next
  case (Suc n)
  show ?case
  proof (cases "prefix_at s pos p")
    case True
    with Suc.prems show ?thesis by auto
  next
    case False
    with Suc have "Suc pos \<le> i \<and> prefix_at s i p \<and> (\<forall>j. Suc pos \<le> j \<and> j < i \<longrightarrow> \<not> prefix_at s j p)"
      by simp
    with False show ?thesis by (metis Suc_leI Suc_leD le_neq_implies_less)
  qed
qed

text \<open>
  \<open>subst_all\<close> skips to the first occurrence: a text without occurrence is kept, and one whose first
  occurrence is at \<open>i\<close> is the text before it, the replacement, and the substitution of the rest.
\<close>

lemma prefix_at_Cons_Suc [simp]: "prefix_at (c # s) (Suc i) p = prefix_at s i p"
  by (simp add: prefix_at_def)

lemma prefix_at_0: "prefix_at s 0 p \<longleftrightarrow> take (length p) s = p"
  by (auto simp: prefix_at_def) (metis length_take min.absorb_iff1 min.commute)

lemma subst_all_none: "(\<forall>i. \<not> prefix_at s i p) \<Longrightarrow> subst_all p r s = s"
proof (induction s)
  case Nil
  then show ?case by simp
next
  case (Cons c s)
  have "\<not> prefix_at (c # s) 0 p" using Cons.prems by blast
  moreover have "\<forall>i. \<not> prefix_at s i p" using Cons.prems by (metis prefix_at_Cons_Suc)
  ultimately show ?case using Cons.IH by (simp add: prefix_at_0)
qed

lemma subst_all_first:
  assumes "prefix_at s i p" and "\<forall>j < i. \<not> prefix_at s j p" and "p \<noteq> []"
  shows "subst_all p r s = take i s @ r @ subst_all p r (drop (i + length p) s)"
  using assms
proof (induction i arbitrary: s)
  case 0
  then have pre: "take (length p) s = p" by (simp add: prefix_at_0)
  with \<open>p \<noteq> []\<close> obtain c cs where s: "s = c # cs" by (cases s) auto
  have "take (length p) (c # cs) = p" using pre s by simp
  with \<open>p \<noteq> []\<close> show ?case by (simp add: s)
next
  case (Suc i)
  then obtain c cs where s: "s = c # cs" by (cases s) (auto simp: prefix_at_def)
  have "\<not> prefix_at s 0 p" using Suc.prems(2) by blast
  then have nopre: "take (length p) (c # cs) \<noteq> p" by (simp add: s prefix_at_0)
  have "prefix_at cs i p" and "\<forall>j < i. \<not> prefix_at cs j p"
    using Suc.prems s by auto
  then have "subst_all p r cs = take i cs @ r @ subst_all p r (drop (i + length p) cs)"
    using Suc.IH \<open>p \<noteq> []\<close> by blast
  with nopre show ?case by (simp add: s)
qed

lemma find_None: "find s p pos = None \<Longrightarrow> p \<noteq> [] \<Longrightarrow> \<forall>i. \<not> prefix_at (drop pos s) i p"
proof
  fix i assume n: "find s p pos = None" and p: "p \<noteq> []"
  show "\<not> prefix_at (drop pos s) i p"
  proof
    assume a: "prefix_at (drop pos s) i p"
    then have len: "i + length p \<le> length s - pos" by (simp add: prefix_at_def)
    with p have pos: "pos < length s" by (cases p) auto
    have "prefix_at s (pos + i) p"
      using a len pos by (auto simp: prefix_at_def add.commute)
    moreover have "pos + i < pos + (Suc (length s) - pos)" using len p pos by (cases p) auto
    ultimately show False using n by (auto simp: find_def find_up_None)
  qed
qed

lemma find_Some:
  assumes "find s p pos = Some i"
  shows "pos \<le> i" "prefix_at (drop pos s) (i - pos) p" "i + length p \<le> length s"
    "\<forall>j < i - pos. \<not> prefix_at (drop pos s) j p"
proof -
  have f: "pos \<le> i \<and> prefix_at s i p \<and> (\<forall>j. pos \<le> j \<and> j < i \<longrightarrow> \<not> prefix_at s j p)"
    using assms find_up_Some by (auto simp: find_def)
  then show "pos \<le> i" and len: "i + length p \<le> length s" by (auto simp: prefix_at_def)
  show "prefix_at (drop pos s) (i - pos) p" using f by (auto simp: prefix_at_def)
  show "\<forall>j < i - pos. \<not> prefix_at (drop pos s) j p"
  proof (intro allI impI notI)
    fix j assume j: "j < i - pos" and a: "prefix_at (drop pos s) j p"
    have "prefix_at s (pos + j) p" using a len j by (auto simp: prefix_at_def add.commute)
    moreover have "pos \<le> pos + j" "pos + j < i" using j by auto
    ultimately show False using f by blast
  qed
qed

text \<open>
  One run of the loop, from any position: the text before the position is kept, the rest is
  substituted. The loop ends because every round consumes an occurrence of the pattern.
\<close>

lemma REPLACE_loop_from:
  assumes "str2 \<noteq> []" and "pos \<le> length s"
  shows "REPLACE_loop s str2 str3 (find s str2 pos) =
    Some (take pos s @ subst_all str2 str3 (drop pos s))"
  using assms(2)
proof (induction "length s - pos" arbitrary: s pos rule: less_induct)
  case less
  show ?case
  proof (cases "find s str2 pos")
    case None
    then have "subst_all str2 str3 (drop pos s) = drop pos s"
      by (intro subst_all_none) (rule find_None [OF _ assms(1)])
    with None show ?thesis by (simp add: REPLACE_loop.simps)
  next
    case (Some i)
    note f = find_Some [OF Some]
    let ?s = "take i s @ str3 @ drop (i + length str2) s"
    let ?pos = "i + length str3"
    have len: "length ?s - ?pos = length s - (i + length str2)" and "?pos \<le> length ?s"
      using f(1,3) by auto
    moreover have "length s - (i + length str2) < length s - pos"
      using f(1,3) assms(1) by (cases str2) auto
    ultimately have IH: "REPLACE_loop ?s str2 str3 (find ?s str2 ?pos) =
        Some (take ?pos ?s @ subst_all str2 str3 (drop ?pos ?s))"
      by (intro less) auto
    have d: "drop ?pos ?s = drop (i + length str2) s" and t: "take ?pos ?s = take i s @ str3"
      using f(3) by auto
    have "subst_all str2 str3 (drop pos s) =
        take (i - pos) (drop pos s) @ str3 @ subst_all str2 str3 (drop (i - pos + length str2) (drop pos s))"
      using f assms(1) by (intro subst_all_first) auto
    moreover have "take pos s @ take (i - pos) (drop pos s) = take i s"
      using f(1) by (metis le_add_diff_inverse take_add)
    moreover have "drop (i - pos + length str2) (drop pos s) = drop (i + length str2) s"
      using f(1) by (simp add: add.commute)
    ultimately show ?thesis
      using IH unfolding d t by (subst REPLACE_loop.simps) (simp add: Some replace_at_def)
  qed
qed

theorem REPLACE_subst_all: "str2 \<noteq> [] \<Longrightarrow> REPLACE s str2 str3 = Some (subst_all str2 str3 s)"
  using REPLACE_loop_from [of str2 0 s str3] by (simp add: REPLACE_def)

subsection \<open>The two coders\<close>

definition XmlStr2Entity :: "string \<Rightarrow> string option" where
  "XmlStr2Entity str = do {
     str \<leftarrow> REPLACE str ''&'' ''&amp;'';
     str \<leftarrow> REPLACE str ''<'' ''&lt;'';
     str \<leftarrow> REPLACE str ''>'' ''&gt;'';
     str \<leftarrow> REPLACE str [CHR 0x22] ''&quot;'';
     str \<leftarrow> REPLACE str [CHR 0x27] ''&apos;'';
     str \<leftarrow> REPLACE str [CHR 0x09] ''&#009;'';
     str \<leftarrow> REPLACE str [CHR 0x0A] ''&#010;'';
     REPLACE str [CHR 0x0D] ''&#013;''
   }"

definition XmlEntity2Str :: "string \<Rightarrow> string option" where
  "XmlEntity2Str str = do {
     str \<leftarrow> REPLACE str ''&amp;'' ''&'';
     str \<leftarrow> REPLACE str ''&lt;'' ''<'';
     str \<leftarrow> REPLACE str ''&gt;'' ''>'';
     str \<leftarrow> REPLACE str ''&quot;'' [CHR 0x22];
     str \<leftarrow> REPLACE str ''&apos;'' [CHR 0x27];
     str \<leftarrow> REPLACE str ''&#009;'' [CHR 0x09];
     str \<leftarrow> REPLACE str ''&#010;'' [CHR 0x0A];
     REPLACE str ''&#013;'' [CHR 0x0D]
   }"

text \<open>
  The reference: one table of the eight characters, and escaping as one pass over the text.
  \<open>part es\<close> escapes only the characters that the table \<open>es\<close> lists.
\<close>

definition ents :: "(char \<times> string) list" where
  "ents = [(CHR ''&'', ''&amp;''), (CHR ''<'', ''&lt;''), (CHR ''>'', ''&gt;''),
     (CHR 0x22, ''&quot;''), (CHR 0x27, ''&apos;''), (CHR 0x09, ''&#009;''),
     (CHR 0x0A, ''&#010;''), (CHR 0x0D, ''&#013;'')]"

definition part :: "(char \<times> string) list \<Rightarrow> char \<Rightarrow> string" where
  "part es c = (case map_of es c of None \<Rightarrow> [c] | Some w \<Rightarrow> w)"

definition escape :: "string \<Rightarrow> string" where
  "escape s = concat (map (part ents) s)"

lemma escape_simps [simp]: "escape [] = []" "escape (c # s) = part ents c @ escape s"
  by (simp_all add: escape_def)

lemma escape_append [simp]: "escape (s @ t) = escape s @ escape t"
  by (simp add: escape_def)

lemma subst_all_char: "subst_all [c] r s = concat (map (\<lambda>x. if x = c then r else [x]) s)"
  by (induction s) auto

lemma concat_map_concat_map: "concat (map f (concat (map g s))) = concat (map (\<lambda>x. concat (map f (g x))) s)"
  by (induction s) auto

lemma XmlStr2Entity_escape: "XmlStr2Entity s = Some (escape s)"
  unfolding XmlStr2Entity_def escape_def
  by (simp add: REPLACE_subst_all subst_all_char concat_map_concat_map)
    (auto simp: part_def ents_def intro!: arg_cong [where f = concat])

subsection \<open>Decoding after encoding\<close>

lemma take_prefix: "take (length p) s = p \<longleftrightarrow> prefix p s"
  by (metis append_eq_conv_conj prefix_def)

lemma subst_all_Cons:
  "subst_all p r (c # cs) =
     (if p \<noteq> [] \<and> prefix p (c # cs) then r @ subst_all p r (drop (length p) (c # cs))
      else c # subst_all p r cs)"
  by (simp only: subst_all.simps take_prefix)

declare subst_all.simps(2) [simp del]

lemma subst_all_head: "p \<noteq> [] \<Longrightarrow> subst_all p r (p @ t) = r @ subst_all p r t"
  by (cases p) (simp_all add: subst_all_Cons)

lemma subst_all_skip: "c \<notin> set u \<Longrightarrow> subst_all (c # w) r (u @ t) = u @ subst_all (c # w) r t"
  by (induction u) (auto simp: subst_all_Cons)

lemma subst_all_absent: "\<not> sublist p s \<Longrightarrow> subst_all p r s = s"
proof (induction s)
  case Nil
  then show ?case by simp
next
  case (Cons c s)
  then have "\<not> sublist p s" and "\<not> prefix p (c # s)" by (auto simp: sublist_Cons_right)
  with Cons.IH show ?case by (simp add: subst_all_Cons)
qed

text \<open>
  One decoding pass. The text still has the escapes of the table \<open>(c, w) # es\<close>; the pass for \<open>w\<close>
  removes exactly the escapes of \<open>c\<close>, unless the original text spells \<open>w\<close> out itself. The
  condition on the table (\<open>ent_ok\<close>) says that escapes start with an ampersand, contain no other,
  contain none of the escaped characters, and that none is a prefix of another.
\<close>

definition ent_ok :: "char \<Rightarrow> string \<Rightarrow> (char \<times> string) list \<Rightarrow> bool" where
  "ent_ok c w1 es \<longleftrightarrow>
     CHR ''&'' \<notin> set w1 \<and> c \<notin> set w1 \<and> c \<notin> fst ` set es \<and> CHR ''&'' \<notin> fst ` set es \<and>
     (\<forall>(k, v) \<in> set es. k \<notin> set w1 \<and> v \<noteq> [] \<and> hd v = CHR ''&'' \<and> CHR ''&'' \<notin> set (tl v) \<and>
        \<not> prefix (CHR ''&'' # w1) v \<and> \<not> prefix v (CHR ''&'' # w1))"

lemma part_in_table: "c \<in> fst ` set es \<Longrightarrow> \<exists>v. (c, v) \<in> set es \<and> part es c = v"
  by (auto simp: part_def split: option.splits dest: map_of_SomeD)
    (metis map_of_eq_None_iff fst_conv imageI)

lemma part_notin: "c \<notin> fst ` set es \<Longrightarrow> part es c = [c]"
  by (metis part_def map_of_eq_None_iff option.case(1))

lemma prefix_unescape:
  assumes "\<forall>k \<in> fst ` set es. k \<notin> set u" and "CHR ''&'' \<notin> set u"
    and "\<forall>(k, v) \<in> set es. v \<noteq> [] \<and> hd v = CHR ''&''"
    and "prefix u (concat (map (part es) s))"
  shows "prefix u s"
  using assms
proof (induction u arbitrary: s)
  case Nil
  then show ?case by simp
next
  case (Cons a u)
  obtain y s' where s: "s = y # s'" using Cons.prems(4) by (cases s) auto
  show ?case
  proof (cases "y \<in> fst ` set es")
    case True
    then obtain v where "(y, v) \<in> set es" "part es y = v" using part_in_table by blast
    with Cons.prems(3) have "part es y \<noteq> []" "hd (part es y) = CHR ''&''" by auto
    then obtain v' where "part es y = CHR ''&'' # v'" by (metis list.collapse)
    with Cons.prems(2,4) s show ?thesis by auto
  next
    case False
    with Cons s show ?thesis by (auto simp: part_notin)
  qed
qed

lemma unescape_pass:
  assumes ok: "ent_ok c w1 es" and lit: "c = CHR ''&'' \<or> \<not> sublist (CHR ''&'' # w1) s"
  shows "subst_all (CHR ''&'' # w1) [c] (concat (map (part ((c, CHR ''&'' # w1) # es)) s)) =
    concat (map (part es) s)"
  using lit
proof (induction s)
  case Nil
  then show ?case by simp
next
  case (Cons x s)
  let ?w = "CHR ''&'' # w1" and ?es = "(c, CHR ''&'' # w1) # es"
  let ?t = "concat (map (part ?es) s)"
  have IH: "subst_all ?w [c] ?t = concat (map (part es) s)"
    using Cons by (auto simp: sublist_Cons_right)
  have hd_es: "\<forall>(k, v) \<in> set ?es. v \<noteq> [] \<and> hd v = CHR ''&''" using ok by (auto simp: ent_ok_def)
  consider "x = c" | "x \<noteq> c" "x \<in> fst ` set es" | "x \<noteq> c" "x \<notin> fst ` set es" by blast
  then show ?case
  proof cases
    case 1
    then have "part ?es x = ?w" and "part es x = [c]"
      using ok by (auto simp: part_def ent_ok_def) (metis fst_conv imageI map_of_eq_None_iff option.simps(4))
    then show ?thesis using IH by (simp add: subst_all_head [of ?w, simplified])
  next
    case 2
    then obtain v where v: "(x, v) \<in> set es" "part es x = v" using part_in_table by blast
    obtain v1 where v1: "v = CHR ''&'' # v1" "CHR ''&'' \<notin> set v1"
      using ok v(1) by (cases v) (auto simp: ent_ok_def)
    have "\<not> prefix ?w (v @ ?t)"
      using ok v(1) prefix_same_cases [of ?w "v @ ?t" v] by (auto simp: ent_ok_def)
    moreover have "part ?es x = v" using 2 v by (simp add: part_def)
    ultimately show ?thesis using IH v v1 by (simp add: subst_all_Cons subst_all_skip)
  next
    case 3
    then have p: "part ?es x = [x]" "part es x = [x]" by (simp_all add: part_notin)
    have "\<not> prefix ?w (x # ?t)"
    proof
      assume "prefix ?w (x # ?t)"
      then have x: "x = CHR ''&''" and "prefix w1 ?t" by auto
      moreover have "\<forall>k \<in> fst ` set ?es. k \<notin> set w1" "CHR ''&'' \<notin> set w1"
        using ok by (auto simp: ent_ok_def)
      ultimately have "prefix w1 s" using prefix_unescape hd_es by blast
      with x have "sublist ?w (x # s)" by (simp add: sublist_Cons_right)
      with Cons.prems x 3 show False by auto
    qed
    with IH p show ?thesis by (auto simp: subst_all_Cons)
  qed
qed

text \<open>The strings that survive decoding: none of the escapes except \<open>&amp;\<close> is spelled out in them.\<close>

definition no_entity :: "string \<Rightarrow> bool" where
  "no_entity s \<longleftrightarrow> list_all (\<lambda>w. \<not> sublist w s) (map snd (tl ents))"

definition plain :: "string \<Rightarrow> bool" where
  "plain s \<longleftrightarrow> list_all (\<lambda>w. \<not> sublist w s) (map snd ents)"

lemma plain_no_entity: "plain s \<Longrightarrow> no_entity s"
  by (simp add: plain_def no_entity_def ents_def)

lemma no_amp_plain: "CHR ''&'' \<notin> set s \<Longrightarrow> plain s"
  by (auto simp: plain_def ents_def dest!: set_mono_sublist)

lemma concat_map_part_Nil [simp]: "concat (map (part []) s) = s"
  by (induction s) (simp_all add: part_def)

lemma XmlEntity2Str_escape: "no_entity s \<Longrightarrow> XmlEntity2Str (escape s) = Some s"
  unfolding XmlEntity2Str_def escape_def ents_def no_entity_def
  by (simp add: REPLACE_subst_all unescape_pass ent_ok_def)

lemma XmlEntity2Str_plain: "plain s \<Longrightarrow> XmlEntity2Str s = Some s"
  by (simp add: XmlEntity2Str_def REPLACE_subst_all plain_def ents_def subst_all_absent)

subsection \<open>Properties\<close>

text \<open>C23: the loop of \<open>REPLACE\<close> ends for every pattern that is not empty, and its result is that of one
  pass over the text that substitutes the pattern's occurrences from left to right.\<close>
theorem REPLACE_returns: "str2 \<noteq> [] \<Longrightarrow> REPLACE str1 str2 str3 = Some (subst_all str2 str3 str1)"
  by (rule REPLACE_subst_all)

lemma REPLACE_returns_witness: "REPLACE ''a&b'' ''&'' ''&amp;'' = Some ''a&amp;b''"
  using REPLACE_returns [of "''&''" "''a&b''" "''&amp;''"] by (simp add: subst_all_Cons)

text \<open>C22: the eight replacements of \<open>XmlStr2Entity\<close>, each a pass over the whole text, amount to writing
  every character on its own: none of them rewrites what an earlier one has inserted.\<close>
theorem escape_one_pass: "XmlStr2Entity s = Some (concat (map (part ents) s))"
  by (simp add: XmlStr2Entity_escape escape_def)




text \<open>C14: a text that contains none of the eight references comes back from \<open>XmlStr2Entity\<close> followed by
  \<open>XmlEntity2Str\<close>.\<close>
theorem entity_roundtrip:
  assumes "no_entity s"
  shows "Option.bind (XmlStr2Entity s) XmlEntity2Str = Some s"
  using assms by (simp add: XmlStr2Entity_escape XmlEntity2Str_escape)

lemma entity_roundtrip_witness: "Option.bind (XmlStr2Entity ''a<b&&c'') XmlEntity2Str = Some ''a<b&&c''"
  by (rule entity_roundtrip) code_simp

text \<open>a text that is itself a reference does not come back, because the reader replaces
  \<open>&amp;\<close> first and then decodes what that has produced.\<close>
theorem entity_roundtrip_fails: "Option.bind (XmlStr2Entity ''&lt;'') XmlEntity2Str = Some ''<''"
  by (simp add: XmlStr2Entity_escape escape_def ents_def part_def XmlEntity2Str_def REPLACE_subst_all
      subst_all_Cons)

end
