(* ===== verification/XmlDom.thy ===== *)
theory XmlDom
  imports XmlEntity
begin

text \<open>
  The XML document on both sides of the conversion. The writer's side is the stream of
  \<open>XevSageVisitor\<close>: elements with their attributes in the order and spacing in which they are
  printed, and literal text (\<open>xitem\<close>, with \<open>render\<close> giving the characters). The reader's side is the
  DOM of the XML processor (\<open>dom\<close>). \<open>dom_of\<close> is the document an XML 1.0 processor builds from
  the printed one: references are expanded once, adjacent character data is one text node. The
  attribute access of \<open>include/xmlutils.hpp\<close> (\<open>XmlGetAttributeValue\<close>) closes the theory.
\<close>

subsection \<open>The document as printed\<close>

text \<open>
  An attribute is printed as a blank, its name, an equals sign, the quoted value, and what follows
  the closing quote (a blank, or nothing).
\<close>

type_synonym chunk = "string \<times> string \<times> string"

datatype xitem = XElem string "chunk list" "xitem list option" | XText string

definition render_chunk :: "chunk \<Rightarrow> string" where
  "render_chunk a = (case a of (n, v, t) \<Rightarrow> '' '' @ n @ ''='' @ [CHR 0x22] @ v @ [CHR 0x22] @ t)"

fun render :: "xitem \<Rightarrow> string" and render_all :: "xitem list \<Rightarrow> string" where
  "render (XText s) = s"
| "render (XElem nm cs None) = ''<'' @ nm @ concat (map render_chunk cs) @ ''/>''"
| "render (XElem nm cs (Some xs)) =
     ''<'' @ nm @ concat (map render_chunk cs) @ ''>'' @ render_all xs @ ''</'' @ nm @ ''>''"
| "render_all [] = []"
| "render_all (x # xs) = render x @ render_all xs"

definition newline :: string where
  "newline = [CHR 0x0A]"

definition indent :: "nat \<Rightarrow> string" where
  "indent d = replicate d (CHR '' '')"

subsection \<open>The document as read\<close>

datatype dom =
    Element string "(string \<times> string) list" "dom list"
  | TextNode string
  | OtherNode
  | Document "dom list"

text \<open>
  Expansion of references in one pass. The eight references are those the program prints; a text
  with another ampersand is not well-formed and is left alone here.
\<close>

definition ref_at :: "string \<Rightarrow> (char \<times> string) option" where
  "ref_at s = List.find (\<lambda>(c, w). prefix w s) ents"

function (sequential) xml_refs :: "string \<Rightarrow> string" where
  "xml_refs [] = []"
| "xml_refs (c # s) =
     (case ref_at (c # s) of
        None \<Rightarrow> c # xml_refs s
      | Some (k, w) \<Rightarrow> k # xml_refs (drop (length w - 1) s))"
  by pat_completeness auto
termination
  by (relation "measure length") auto

fun add_text :: "string \<Rightarrow> dom list \<Rightarrow> dom list" where
  "add_text s (TextNode t # ys) = TextNode (s @ t) # ys"
| "add_text s ys = (if s = [] then ys else TextNode s # ys)"

fun merge_text :: "dom list \<Rightarrow> dom list" where
  "merge_text [] = []"
| "merge_text (TextNode s # xs) = add_text s (merge_text xs)"
| "merge_text (x # xs) = x # merge_text xs"

fun dom_of :: "xitem \<Rightarrow> dom" and dom_of_all :: "xitem list \<Rightarrow> dom list" where
  "dom_of (XText s) = TextNode (xml_refs s)"
| "dom_of (XElem nm cs body) =
     Element nm (map (\<lambda>(n, v, t). (n, xml_refs v)) cs)
       (case body of None \<Rightarrow> [] | Some xs \<Rightarrow> merge_text (dom_of_all xs))"
| "dom_of_all [] = []"
| "dom_of_all (x # xs) = dom_of x # dom_of_all xs"

lemma dom_of_all_map: "dom_of_all xs = map dom_of xs"
  by (induction xs) auto

lemma xml_refs_escape_append: "xml_refs (escape s @ t) = s @ xml_refs t"
proof (induction s)
  case Nil
  then show ?case by simp
next
  case (Cons c s)
  have "xml_refs (part ents c @ u) = c # xml_refs u" if "c \<in> fst ` set ents" for u
    using that by (auto simp: ents_def part_def ref_at_def)
  moreover have "xml_refs (c # u) = c # xml_refs u" if "c \<notin> fst ` set ents" for u
    using that by (auto simp: ents_def ref_at_def)
  ultimately show ?case
    using Cons by (cases "c \<in> fst ` set ents") (auto simp: part_notin)
qed

lemma xml_refs_escape [simp, codec]: "xml_refs (escape s) = s"
  using xml_refs_escape_append [of s "[]"] by simp

text \<open>Text without an ampersand is read as it is printed.\<close>

lemma ref_at_no_amp: "c \<noteq> CHR ''&'' \<Longrightarrow> ref_at (c # s) = None"
  by (simp add: ref_at_def ents_def)

lemma xml_refs_no_amp: "CHR ''&'' \<notin> set s \<Longrightarrow> xml_refs s = s"
  by (induction s) (auto simp: ref_at_no_amp)

lemma xml_refs_show_int [simp, codec]: "xml_refs (show_int v) = show_int v"
  using show_int_chars [of "CHR ''&''" v] by (intro xml_refs_no_amp) (auto simp: is_digit_def)

lemma xml_refs_show_bool [simp, codec]: "xml_refs (show_bool b) = show_bool b"
  by (rule xml_refs_no_amp) (simp add: show_bool_def)

declare xml_refs.simps(2) [simp del]

subsection \<open>Attribute access\<close>

text \<open>
  \<open>XmlGetAttributeValue(node, name, &v)\<close>: the value of the attribute, read through a string stream
  when \<open>v\<close> is a number; \<open>v\<close> keeps its value when there is no such attribute. When the attribute is
  blank, the stream extracts nothing and the variable is set from an uninitialised one.
\<close>

type_synonym attrs = "(string \<times> string) list"

definition hasAttr :: "attrs \<Rightarrow> string \<Rightarrow> bool" where
  "hasAttr A nm \<longleftrightarrow> map_of A nm \<noteq> None"

definition getStr :: "attrs \<Rightarrow> string \<Rightarrow> string \<Rightarrow> string" where
  "getStr A nm v = (case map_of A nm of None \<Rightarrow> v | Some s \<Rightarrow> s)"

definition getNum :: "(string \<Rightarrow> int option) \<Rightarrow> attrs \<Rightarrow> string \<Rightarrow> int \<Rightarrow> int res" where
  "getNum scan A nm v = (case map_of A nm of
      None \<Rightarrow> Inr v
    | Some s \<Rightarrow> (case scan s of None \<Rightarrow> Inl (Undef ''uninitialised value read'') | Some i \<Rightarrow> Inr i))"

abbreviation getInt :: "attrs \<Rightarrow> string \<Rightarrow> int \<Rightarrow> int res" where
  "getInt \<equiv> getNum scan_int32"

abbreviation getULong :: "attrs \<Rightarrow> string \<Rightarrow> int \<Rightarrow> int res" where
  "getULong \<equiv> getNum (scan_unsigned 64)"

text \<open>A flag printed as a number and read into an \<open>int\<close> that is then used as a \<open>bool\<close>.\<close>

definition getFlag :: "attrs \<Rightarrow> string \<Rightarrow> bool \<Rightarrow> bool res" where
  "getFlag A nm b = bind_res (getInt A nm (of_bool b)) (\<lambda>i. Inr (i \<noteq> 0))"

definition decode_attrs :: "chunk list \<Rightarrow> attrs" where
  "decode_attrs cs = map (\<lambda>(n, v, t). (n, xml_refs v)) cs"

lemma decode_attrs_simps [simp, codec]:
  "decode_attrs [] = []"
  "decode_attrs ((n, v, t) # cs) = (n, xml_refs v) # decode_attrs cs"
  by (simp_all add: decode_attrs_def)

lemma decode_attrs_append: "decode_attrs (cs @ ds) = decode_attrs cs @ decode_attrs ds"
  by (simp add: decode_attrs_def)

lemma dom_of_XElem [simp]:
  "dom_of (XElem nm cs body) =
     Element nm (decode_attrs cs) (case body of None \<Rightarrow> [] | Some xs \<Rightarrow> merge_text (map dom_of xs))"
  by (simp add: decode_attrs_def dom_of_all_map split: option.splits)

declare dom_of.simps(2) [simp del]

lemmas attr_defs = hasAttr_def getStr_def getNum_def getFlag_def

subsection \<open>Children of an element\<close>

fun is_element :: "dom \<Rightarrow> bool" where
  "is_element (Element nm A ks) = True"
| "is_element d = False"

definition blank :: "string \<Rightarrow> bool" where
  "blank s \<longleftrightarrow> list_all isspace s"

text \<open>
  Merging character data keeps the elements and their order; when all of it is white space, so is
  every text node of the result.
\<close>

lemma filter_element_add [simp]: "filter is_element (add_text s xs) = filter is_element xs"
  by (induction s xs rule: add_text.induct) simp_all

lemma filter_element_merge [simp]: "filter is_element (merge_text xs) = filter is_element xs"
  by (induction xs rule: merge_text.induct) simp_all

definition blank_texts :: "dom list \<Rightarrow> bool" where
  "blank_texts xs \<longleftrightarrow> (\<forall>s. TextNode s \<in> set xs \<longrightarrow> blank s)"

lemma blank_texts_add: "blank s \<Longrightarrow> blank_texts xs \<Longrightarrow> blank_texts (add_text s xs)"
  by (induction s xs rule: add_text.induct) (auto simp: blank_texts_def blank_def)

lemma blank_texts_merge: "blank_texts xs \<Longrightarrow> blank_texts (merge_text xs)"
proof (induction xs rule: merge_text.induct)
  case (2 s xs)
  then have "blank s" and "blank_texts xs" by (auto simp: blank_texts_def)
  with 2 show ?case by (simp add: blank_texts_add)
qed (auto simp: blank_texts_def)

lemma blank_indent [simp]: "blank (indent d)"
  by (simp add: blank_def indent_def isspace_def list_all_iff)

lemma blank_newline [simp]: "blank newline"
  by (simp add: blank_def newline_def isspace_def)

lemma amp_no_space: "\<not> isspace CHR ''&''"
  by (simp add: isspace_def)

lemma xml_refs_blank: "blank s \<Longrightarrow> xml_refs s = s"
  using amp_no_space by (intro xml_refs_no_amp) (auto simp: blank_def list_all_iff)

lemma xml_refs_layout [simp]: "xml_refs (indent d) = indent d" "xml_refs newline = newline"
  by (simp_all add: xml_refs_blank)

end
