(* ===== verification/SageTree.thy ===== *)
theory SageTree
  imports XmlDom
begin

text \<open>
  The Sage III tree that both visitors work on. ROSE is third-party code; what the converter uses
  of it is a node with a class, scalar fields, the traversal successors (a list of slots, some of
  them null) and slots that are only reached through accessors (types, original expression trees).
  A parent pointer is containment. \<open>rose\<close> collects what the program asks ROSE for.
\<close>

subsection \<open>Node classes\<close>

text \<open>The classes of \<open>include/sgnode.hpp\<close>, grouped as there; each carries its scalar fields.\<close>

datatype bop = AddOp | AndAssignOp | AndOp | ArrowExp | AssignOp | BitAndOp | BitOrOp | BitXorOp
  | CommaOpExp | ConcatenationOp | DivAssignOp | DivideOp | DotExp | EqualityOp | ExponentiationOp
  | GreaterOrEqualOp | GreaterThanOp | IorAssignOp | LessOrEqualOp | LessThanOp | LshiftAssignOp
  | LshiftOp | MinusAssignOp | ModAssignOp | ModOp | MultAssignOp | MultiplyOp | NotEqualOp | OrOp
  | PlusAssignOp | PointerAssignOp | PntrArrRefExp | RshiftAssignOp | RshiftOp | SubtractOp
  | XorAssignOp

datatype uop = AddressOfOp | BitComplementOp | MinusMinusOp | MinusOp | NotOp | PlusPlusOp
  | UnaryAddOp

datatype valkind = BoolValExp | CharVal | DoubleVal | FloatVal | IntVal | LongDoubleVal
  | LongIntVal | LongLongIntVal | ShortVal | UnsignedCharVal | UnsignedIntVal
  | UnsignedLongLongIntVal | UnsignedLongVal | UnsignedShortVal | WcharVal

datatype exprcls =
    BinaryOp bop
  | UserDefinedBinaryOp string                  \<comment> \<open>operator name\<close>
  | UserDefinedUnaryOp string
  | UnaryOp uop int                             \<comment> \<open>mode: 0 prefix, 1 postfix\<close>
  | ValueExp valkind int string                 \<comment> \<open>value, value string\<close>
  | EnumVal int string "string option"          \<comment> \<open>value, name, name of the declaration\<close>
  | ComplexVal
  | StringVal string bool bool bool bool        \<comment> \<open>single quotes, wchar, 16 bit, 32 bit\<close>
  | ActualArgumentExpression string
  | AggregateInitializer bool                   \<comment> \<open>explicit braces\<close>
  | AsmOp int string int bool string bool       \<comment> \<open>constraint, its string, modifiers, record, name, output\<close>
  | AssignInitializer bool                      \<comment> \<open>explicit cast\<close>
  | AsteriskShapeExp
  | CastExp int                                 \<comment> \<open>cast type\<close>
  | ColonShapeExp
  | CompoundLiteralExp string                   \<comment> \<open>symbol\<close>
  | ConditionalExp
  | ConstructorInitializer bool bool bool bool
  | DesignatedInitializer
  | ExprListExp
  | FunctionCallExp
  | FunctionRefExp string "int option"          \<comment> \<open>name, subprogram kind of a procedure header\<close>
  | ImpliedDo
  | LabelRefExp int int "(bool \<times> bool) list option"
      \<comment> \<open>type, number; for an alternate return the parameters of the enclosing function:
         is it of label type, is it the parameter meant\<close>
  | NullExpression
  | PointerDerefExp
  | SizeOfOp
  | StatementExpression
  | SubscriptExpression
  | VarArgCopyOp
  | VarArgEndOp
  | VarArgOp
  | VarArgStartOp
  | VarRefExp string

datatype iokind = Backspace | Close | Endfile | Flush | Inquire | Open | Print | Read | Rewind
  | Wait | Write

text \<open>The declarations, of which every one is a statement.\<close>

datatype declcls =
    AsmStmt string bool "int list"              \<comment> \<open>code, extended format, clobbered registers\<close>
  | AttributeSpecificationStatement int int nat nat "string list"
      \<comment> \<open>kind, intent, how many of the inner nodes are parameters and bindings, names\<close>
  | ClassDeclaration string int bool bool       \<comment> \<open>name, class type, unnamed, autonomous\<close>
  | CommonBlock
  | ContainsStatement
  | DerivedTypeStatement string int bool bool   \<comment> \<open>as a class declaration\<close>
  | EnumDeclaration string bool                 \<comment> \<open>name, unnamed\<close>
  | EquivalenceStatement
  | FormatStatement
  | FortranIncludeLine string
  | FunctionDeclaration string bool bool int string
      \<comment> \<open>name, old style, prototype without parameters, visibility, alias\<close>
  | FunctionParameterList
  | ImplicitStatement bool                      \<comment> \<open>implicit none\<close>
  | ImportStatement
  | InterfaceStatement string int               \<comment> \<open>name, generic specification\<close>
  | NamelistStatement
  | PragmaDeclaration
  | TypedefDeclaration string bool              \<comment> \<open>name, part of a list\<close>
  | UseStatement string bool                    \<comment> \<open>module, only\<close>
  | VariableDeclaration int int string string   \<comment> \<open>visibility, declaration attribute, section, alias\<close>

datatype stmtcls =
    AllocateStatement
  | ArithmeticIfStatement
  | AssociateStatement
  | BasicBlock
  | BreakStmt string
  | CaseOptionStmt string
  | ClassDefinition bool bool bool              \<comment> \<open>sequence, private, abstract\<close>
  | ComputedGotoStatement
  | ContinueStmt string
  | DeallocateStatement
  | Declaration declcls
  | DefaultOptionStmt string
  | DoWhileStmt
  | ElseWhereStatement
  | ExprStatement
  | ForAllStatement
  | ForInitStatement
  | ForStatement
  | FortranDo bool bool "int option" string     \<comment> \<open>old style, end statement, end label, name\<close>
  | FunctionDefinition
  | Global
  | GotoStatement "string option" "int option"  \<comment> \<open>label, numeric label\<close>
  | IfStmt bool bool "int option" "int option" string
      \<comment> \<open>end statement, then keyword, end label, else label, name\<close>
  | IOStatement iokind
  | LabelStatement string
  | NullStatement
  | NullifyStatement
  | ReturnStmt
  | StopOrPauseStatement int
  | SwitchStatement "int option" string
  | WhereStatement bool string "int option"
  | WhileStmt bool "int option" string

datatype tykind = TypeBool | TypeChar | TypeCrayPointer | TypeDouble | TypeFloat | TypeLong
  | TypeLongDouble | TypeLongLong | TypeShort | TypeSignedChar | TypeSignedInt | TypeSignedLong
  | TypeSignedLongLong | TypeSignedShort | TypeUnsignedChar | TypeUnsignedInt | TypeUnsignedLong
  | TypeUnsignedLongLong | TypeUnsignedShort | TypeVoid
  \<comment> \<open>known to ROSE, not in \<open>sgnode.hpp\<close>:\<close>
  | TypeWchar | TypeSigned128bitInteger | TypeUnsigned128bitInteger | TypeUnknown

datatype typecls =
    SimpleType tykind
  | ArrayType int                               \<comment> \<open>rank\<close>
  | ClassType string int bool                   \<comment> \<open>name, class type, unnamed; without its definition\<close>
  | EnumType string
  | FunctionType
  | ModifierType "bool list" int                \<comment> \<open>bit vector, const or volatile\<close>
  | PointerType
  | TypeComplex
  | TypeDefault
  | TypeEllipse
  | TypeImaginary
  | TypeInt
  | TypeLabel string
  | TypeOfType
  | TypeString
  | TypedefType string

datatype suppcls =
    DataStatementGroup nat                      \<comment> \<open>how many of the inner nodes are objects\<close>
  | DataStatementObject
  | DataStatementValue int
  | FormatItem bool int                         \<comment> \<open>data in double quotes, repeat specification\<close>
  | FunctionParameterTypeList
  | NameGroup string "string list"
  | Pragma string
  | SourceFile string int int                   \<comment> \<open>file, language, output format\<close>
  | TypedefSeq

datatype lsuppcls =
    CommonBlockObject string
  | InitializedName string "string option" int bool int "bool list"
      \<comment> \<open>name, previous item of a Cray pointer, storage, empty brackets, alignment, attributes\<close>
  | InterfaceBody "string option"               \<comment> \<open>the function name when it is used\<close>
  | RenamePair string string

datatype sgcls = SgExpr exprcls | SgStmt stmtcls | SgType typecls | SgSupp suppcls
  | SgLSup lsuppcls

subsection \<open>Nodes\<close>

text \<open>
  \<open>Sg_File_Info\<close> as far as the converter looks at it, relative to the file being written:
  \<open>fi_same\<close> is \<open>isSameFile(file)\<close>, \<open>fi_cpp\<close> the test of \<open>isInCppFile\<close> on the two file names.
\<close>

record finfo =
  fi_frontend :: bool
  fi_compgen :: bool
  fi_transf :: bool
  fi_output :: bool
  fi_same :: bool
  fi_cpp :: bool

text \<open>Attached preprocessing information: position, type of the directive, text.\<close>

record ppinfo =
  pp_pos :: int
  pp_type :: int
  pp_text :: string

text \<open>
  \<open>SgDeclarationModifier\<close> of a declaration with its type, storage and access modifiers, its labels,
  and what \<open>checkDeclStmt\<close> sets of a function: modifiers, name in the end statement, name for the
  assembler, number of register parameters.
\<close>

record declmods =
  dm_vec :: "bool list"
  dm_type :: "bool list"
  dm_cv :: int
  dm_align :: int
  dm_access :: int
  dm_storage :: int
  dm_tls :: bool
  dm_visibility :: int
  dm_bind :: string
  dm_link :: string
  dm_fun :: "bool list"
  dm_end :: bool
  dm_asm :: string
  dm_regparm :: int

text \<open>The modifiers of a declaration are absent where it has those that ROSE gives to a new one.\<close>

record hdr =
  h_file :: "finfo option"
  h_ppi :: "ppinfo list"
  h_paren :: bool
  h_label :: "int option"
  h_mods :: "declmods option"

datatype sgnode =
  Node (hd_of: hdr) (cls: sgcls) (succ: "sgnode option list") (inner: "sgnode option list")

text \<open>The non-null slots in order.\<close>

definition the_list :: "'a option list \<Rightarrow> 'a list" where
  "the_list xs = map the (filter (\<lambda>x. x \<noteq> None) xs)"

lemma the_list_simps [simp]:
  "the_list [] = []"
  "the_list (None # xs) = the_list xs"
  "the_list (Some x # xs) = x # the_list xs"
  "the_list (xs @ ys) = the_list xs @ the_list ys"
  "the_list (map Some zs) = zs"
  by (simp_all add: the_list_def comp_def)

lemma the_list_map: "the_list (map (map_option f) xs) = map f (the_list xs)"
proof (induction xs)
  case (Cons x xs)
  then show ?case by (cases x) simp_all
qed simp

lemma set_the_list: "set (the_list xs) = {x. Some x \<in> set xs}"
proof (induction xs)
  case (Cons x xs)
  then show ?case by (cases x) auto
qed simp

lemma the_list_all_Some: "None \<notin> set xs \<Longrightarrow> map Some (the_list xs) = xs"
proof (induction xs)
  case (Cons x xs)
  then show ?case by (cases x) auto
qed simp

lemma map_Some_the_list:
  "None \<notin> set xs \<Longrightarrow> map Some (map f (the_list xs)) = map (map_option f) xs"
proof (induction xs)
  case (Cons x xs)
  then show ?case by (cases x) auto
qed simp

lemma length_the_list: "None \<notin> set xs \<Longrightarrow> length (the_list xs) = length xs"
  by (metis length_map the_list_all_Some)

definition slot :: "nat \<Rightarrow> 'a option list \<Rightarrow> 'a option" where
  "slot i xs = (if i < length xs then xs ! i else None)"

lemma slot_simps [simp]:
  "slot i [] = None"
  "slot 0 (x # xs) = x"
  "slot (Suc i) (x # xs) = slot i xs"
  by (simp_all add: slot_def)

lemma slot_numeral [simp]: "slot (numeral k) (x # xs) = slot (pred_numeral k) xs"
  by (simp add: numeral_eq_Suc)

lemma slot_1 [simp]: "slot 1 (x # xs) = slot 0 xs"
  by (simp add: One_nat_def)

lemma slot_mem: "slot i xs = Some x \<Longrightarrow> Some x \<in> set xs"
  by (metis nth_mem option.distinct(1) slot_def)

lemma slot_map: "slot i (map (map_option f) xs) = map_option f (slot i xs)"
  by (simp add: slot_def)

abbreviation oexp :: "sgnode \<Rightarrow> sgnode option" where
  "oexp n \<equiv> slot 0 (inner n)"

lemma size_slots:
  "Some x \<in> set xs \<Longrightarrow> size x < size_list (size_option size) xs"
  by (induction xs) auto

lemma size_succ: "Some x \<in> set (succ n) \<Longrightarrow> size x < size n"
  by (cases n) (auto dest: size_slots)

lemma size_inner: "Some x \<in> set (inner n) \<Longrightarrow> size x < size n"
  by (cases n) (auto dest: size_slots)

subsection \<open>Class tests\<close>

text \<open>The casts \<open>isSgX\<close> as tests; on null they are null.\<close>

fun isSgExpression :: "sgnode \<Rightarrow> bool" where
  "isSgExpression (Node h (SgExpr e) ss ns) = True"
| "isSgExpression n = False"

fun isSgStatement :: "sgnode \<Rightarrow> bool" where
  "isSgStatement (Node h (SgStmt s) ss ns) = True"
| "isSgStatement n = False"

fun isSgType :: "sgnode \<Rightarrow> bool" where
  "isSgType (Node h (SgType t) ss ns) = True"
| "isSgType n = False"

fun isSgSupport :: "sgnode \<Rightarrow> bool" where
  "isSgSupport (Node h (SgSupp s) ss ns) = True"
| "isSgSupport n = False"

fun located :: "sgcls \<Rightarrow> bool" where
  "located (SgExpr e) = True"
| "located (SgStmt s) = True"
| "located (SgLSup s) = True"
| "located c = False"

abbreviation isSgLocatedNode :: "sgnode \<Rightarrow> bool" where
  "isSgLocatedNode n \<equiv> located (cls n)"

definition is_cls :: "sgcls \<Rightarrow> sgnode \<Rightarrow> bool" where
  "is_cls c n \<longleftrightarrow> cls n = c"

lemma is_cls_Node [simp]: "is_cls c (Node h c' ss ns) \<longleftrightarrow> c' = c"
  by (auto simp: is_cls_def)

abbreviation "isSgExprListExp \<equiv> is_cls (SgExpr ExprListExp)"
abbreviation "isSgBasicBlock \<equiv> is_cls (SgStmt BasicBlock)"
abbreviation "isSgGlobal \<equiv> is_cls (SgStmt Global)"
abbreviation "isSgExprStatement \<equiv> is_cls (SgStmt ExprStatement)"
abbreviation "isSgForInitStatement \<equiv> is_cls (SgStmt ForInitStatement)"
abbreviation "isSgElseWhereStatement \<equiv> is_cls (SgStmt ElseWhereStatement)"
abbreviation "isSgFunctionParameterTypeList \<equiv> is_cls (SgSupp FunctionParameterTypeList)"
abbreviation "isSgDataStatementObject \<equiv> is_cls (SgSupp DataStatementObject)"

fun isSgDataStatementValue :: "sgnode \<Rightarrow> bool" where
  "isSgDataStatementValue (Node h (SgSupp (DataStatementValue f)) ss ns) = True"
| "isSgDataStatementValue n = False"

fun isSgPragma :: "sgnode \<Rightarrow> bool" where
  "isSgPragma (Node h (SgSupp (Pragma p)) ss ns) = True"
| "isSgPragma n = False"

fun isSgSourceFile :: "sgnode \<Rightarrow> bool" where
  "isSgSourceFile (Node h (SgSupp (SourceFile f l o')) ss ns) = True"
| "isSgSourceFile n = False"

fun isSgActualArgumentExpression :: "sgnode \<Rightarrow> bool" where
  "isSgActualArgumentExpression (Node h (SgExpr (ActualArgumentExpression a)) ss ns) = True"
| "isSgActualArgumentExpression n = False"

fun isSgLabelRefExp :: "sgnode \<Rightarrow> bool" where
  "isSgLabelRefExp (Node h (SgExpr (LabelRefExp t i a)) ss ns) = True"
| "isSgLabelRefExp n = False"

fun isSgVarRefExp :: "sgnode \<Rightarrow> bool" where
  "isSgVarRefExp (Node h (SgExpr (VarRefExp x)) ss ns) = True"
| "isSgVarRefExp n = False"

fun isSgAggregateInitializer :: "sgnode \<Rightarrow> bool" where
  "isSgAggregateInitializer (Node h (SgExpr (AggregateInitializer b)) ss ns) = True"
| "isSgAggregateInitializer n = False"

fun isSgInitializer :: "sgnode \<Rightarrow> bool" where
  "isSgInitializer (Node h (SgExpr (AggregateInitializer b)) ss ns) = True"
| "isSgInitializer (Node h (SgExpr (AssignInitializer b)) ss ns) = True"
| "isSgInitializer (Node h (SgExpr (ConstructorInitializer a b c d)) ss ns) = True"
| "isSgInitializer (Node h (SgExpr DesignatedInitializer) ss ns) = True"
| "isSgInitializer n = False"

fun isSgValueExp :: "sgnode \<Rightarrow> bool" where
  "isSgValueExp (Node h (SgExpr (ValueExp k v s)) ss ns) = True"
| "isSgValueExp (Node h (SgExpr (EnumVal v m d)) ss ns) = True"
| "isSgValueExp (Node h (SgExpr ComplexVal) ss ns) = True"
| "isSgValueExp (Node h (SgExpr (StringVal s a b c d)) ss ns) = True"
| "isSgValueExp n = False"

text \<open>The tests that only declarations and their parts need, on the class.\<close>

fun c_Declaration :: "sgcls \<Rightarrow> bool" where
  "c_Declaration (SgStmt (Declaration d)) = True"
| "c_Declaration c = False"

fun c_Function :: "sgcls \<Rightarrow> bool" where
  "c_Function (SgStmt (Declaration (FunctionDeclaration nm b p v a))) = True"
| "c_Function c = False"

fun c_Class :: "sgcls \<Rightarrow> bool" where
  "c_Class (SgStmt (Declaration (ClassDeclaration nm t u a))) = True"
| "c_Class (SgStmt (Declaration (DerivedTypeStatement nm t u a))) = True"
| "c_Class c = False"

fun c_Variable :: "sgcls \<Rightarrow> bool" where
  "c_Variable (SgStmt (Declaration (VariableDeclaration v d s a))) = True"
| "c_Variable c = False"

fun c_ClassDefinition :: "sgcls \<Rightarrow> bool" where
  "c_ClassDefinition (SgStmt (ClassDefinition s p a)) = True"
| "c_ClassDefinition c = False"

fun c_Name :: "sgcls \<Rightarrow> bool" where
  "c_Name (SgLSup (InitializedName nm p s e a g)) = True"
| "c_Name c = False"

fun c_InterfaceBody :: "sgcls \<Rightarrow> bool" where
  "c_InterfaceBody (SgLSup (InterfaceBody nm)) = True"
| "c_InterfaceBody c = False"

fun c_RenamePair :: "sgcls \<Rightarrow> bool" where
  "c_RenamePair (SgLSup (RenamePair l u)) = True"
| "c_RenamePair c = False"

fun c_BlockObject :: "sgcls \<Rightarrow> bool" where
  "c_BlockObject (SgLSup (CommonBlockObject nm)) = True"
| "c_BlockObject c = False"

fun c_FormatItem :: "sgcls \<Rightarrow> bool" where
  "c_FormatItem (SgSupp (FormatItem d r)) = True"
| "c_FormatItem c = False"

fun c_NameGroup :: "sgcls \<Rightarrow> bool" where
  "c_NameGroup (SgSupp (NameGroup g nl)) = True"
| "c_NameGroup c = False"

fun c_DataGroup :: "sgcls \<Rightarrow> bool" where
  "c_DataGroup (SgSupp (DataStatementGroup k)) = True"
| "c_DataGroup c = False"

text \<open>The value of a string literal, which is also the test for one.\<close>

fun string_value :: "sgcls \<Rightarrow> string option" where
  "string_value (SgExpr (StringVal s a b c d)) = Some s"
| "string_value c = None"

abbreviation "isSgDeclarationStatement n \<equiv> c_Declaration (cls n)"
abbreviation "isSgFunctionDeclaration n \<equiv> c_Function (cls n)"
abbreviation "isSgClassDeclaration n \<equiv> c_Class (cls n)"
abbreviation "isSgVariableDeclaration n \<equiv> c_Variable (cls n)"
abbreviation "isSgClassDefinition n \<equiv> c_ClassDefinition (cls n)"
abbreviation "isSgInitializedName n \<equiv> c_Name (cls n)"
abbreviation "isSgInterfaceBody n \<equiv> c_InterfaceBody (cls n)"
abbreviation "isSgRenamePair n \<equiv> c_RenamePair (cls n)"
abbreviation "isSgCommonBlockObject n \<equiv> c_BlockObject (cls n)"
abbreviation "isSgFormatItem n \<equiv> c_FormatItem (cls n)"
abbreviation "isSgNameGroup n \<equiv> c_NameGroup (cls n)"
abbreviation "isSgDataStatementGroup n \<equiv> c_DataGroup (cls n)"
abbreviation "isSgFunctionParameterList \<equiv> is_cls (SgStmt (Declaration FunctionParameterList))"
abbreviation "isSgFunctionDefinition \<equiv> is_cls (SgStmt FunctionDefinition)"

fun isIO :: "sgcls \<Rightarrow> bool" where
  "isIO (SgStmt (IOStatement k)) = True"
| "isIO c = False"

subsection \<open>What the program asks ROSE for\<close>

text \<open>What an attribute specification statement has as children, by its kind.\<close>

datatype attrkind = AttrParameters | AttrBind | AttrDimension | AttrData | AttrNames
  | AttrProtected | AttrUnknown

text \<open>
  \<open>'s\<close> is the state of \<open>SageBuilder\<close>: the scope stack and the symbol tables.

  \<^item> \<open>r_fortran\<close>: \<open>SageInterface::is_Fortran_language()\<close>; \<open>r_skip\<close>: the option
    \<open>getSkipCompilerGeneratedFlag()\<close> of the writer
  \<^item> \<open>r_type\<close>: \<open>SgExpression::get_type()\<close> where ROSE computes it from the expression
  \<^item> \<open>r_internal\<close>: \<open>SgType::containsInternalTypes()\<close>
  \<^item> \<open>r_removed\<close>: an include directive positioned within the construct it is attached to
  \<^item> \<open>r_fmt\<close>, \<open>r_scan\<close>: the stream's printing and reading of floating point values
  \<^item> \<open>r_function_kind\<close>, \<open>r_alt_return\<close>, \<open>r_cv_default\<close>, \<open>r_cv_const\<close>, \<open>r_cv_volatile\<close>: the enumerators
    \<open>e_function_subprogram_kind\<close>, \<open>e_alternative_return_type\<close> and those of the const-volatile
    modifier; \<open>r_restrict\<close>: \<open>SgTypeModifier::isRestrict()\<close> on the modifier vector
  \<^item> \<open>r_push\<close>, \<open>r_pop\<close>: \<open>pushScopeStack\<close> with the node being built for an element, \<open>popScopeStack\<close>
  \<^item> \<open>r_class_scope\<close>: the state after pushing the class definition of an expression's type, if
    it has one
  \<^item> \<open>r_built\<close>: the effect of building a node on the symbol tables
  \<^item> \<open>r_find_fun\<close>: \<open>lookupFunctionSymbolInParentScopes\<close>, with the subprogram kind when the
    declaration found is a procedure header
  \<^item> \<open>r_find_enum\<close>: \<open>lookupEnumSymbolInParentScopes\<close> finds a symbol
  \<^item> \<open>r_alias_clash\<close>: the name is an alias symbol of something that is not a variable
  \<^item> \<open>r_find_class\<close>: of the class symbol found, the class type, the unnamed flag and whether it has
    a definition
  \<^item> \<open>r_alt_params\<close>: the parameters of the function enclosing the top scope: is the type a label
    type; the symbol found for it, with type and number when it is a label symbol
  \<^item> \<open>r_before\<close>, \<open>r_after\<close>, \<open>r_inside\<close>, \<open>r_linemarker\<close>: enumerators of \<open>PreprocessingInfo\<close>, positions
    and the directive type \<open>CpreprocessorCompilerGeneratedLinemarker\<close>
  \<^item> \<open>r_modifier_bits\<close>: the length of the modifier vector of a new \<open>SgModifierType\<close>
  \<^item> \<open>r_default_lang\<close>, \<open>r_default_format\<close>: output language and format of a new \<open>SgSourceFile\<close>
  \<^item> \<open>r_version\<close>, \<open>r_xml_format\<close>: \<open>XEVXML_PROGRAM_VERSION\<close> and \<open>XEVXML_FORMAT_VERSION\<close> of the
    configuration header
  \<^item> \<open>r_modifiers\<close>: \<open>SgType::get_modifiers()\<close> is not null; \<open>r_autonomous\<close>: of a class type,
    \<open>get_autonomous_declaration()\<close>
  \<^item> \<open>r_clang\<close>: \<open>SageInterface::is_C_language()\<close>
  \<^item> \<open>r_mods\<close>: the modifiers of a new declaration; \<open>r_type_default\<close>: the type modifiers after
    \<open>setDefault()\<close>; \<open>r_storage_default\<close>, \<open>r_visibility\<close>, \<open>r_gnu_visibility\<close>, \<open>r_gnu_declaration\<close>: the
    enumerators for the default storage and for three kinds of unspecified attributes
  \<^item> \<open>r_in_module\<close>: \<open>TransformationSupport::getModuleStatement\<close> finds a module around a declaration
  \<^item> \<open>r_declare\<close>: what the handler of a declaration does to the symbol tables before it visits its
    children (for a function: the children of its body), with the nodes already there
  \<^item> \<open>r_defined_class\<close>: of the class symbol of a name that has a defining declaration, the definition
  \<^item> \<open>r_struct\<close>: \<open>SgClassDeclaration::e_struct\<close>
  \<^item> \<open>r_enum_self\<close>: the symbol of a new enumeration is that of the declaration itself
  \<^item> \<open>r_attr_kind\<close>: the enumerators of \<open>SgAttributeSpecificationStatement\<close>
  \<^item> \<open>r_dimension\<close>: whether the name in an expression of a dimension statement has no parent or is a
    parameter, none when a parameter is not in a procedure
  \<^item> \<open>r_find_var\<close>: \<open>lookupVariableSymbolInParentScopes\<close>; of the symbol found, whether it has a
    declaration
  \<^item> \<open>r_find_module\<close>: of the class symbol found, whether it is a module, whether there is a defining
    declaration and that has a definition
  \<^item> \<open>r_name_align\<close>, \<open>r_name_attribs\<close>: alignment and attribute vector of a new \<open>SgInitializedName\<close>
\<close>

record 's rose =
  r_fortran :: bool
  r_skip :: bool
  r_type :: "sgnode \<Rightarrow> sgnode option"
  r_internal :: "typecls \<Rightarrow> bool"
  r_removed :: "finfo option \<Rightarrow> ppinfo \<Rightarrow> bool"
  r_fmt :: "valkind \<Rightarrow> int \<Rightarrow> string"
  r_scan :: "valkind \<Rightarrow> string \<Rightarrow> int option"
  r_function_kind :: int
  r_alt_return :: int
  r_cv_default :: int
  r_cv_const :: int
  r_cv_volatile :: int
  r_restrict :: "bool list \<Rightarrow> bool"
  r_push :: "string \<Rightarrow> (string \<times> string) list \<Rightarrow> 's \<Rightarrow> 's"
  r_pop :: "'s \<Rightarrow> 's"
  r_class_scope :: "sgnode \<Rightarrow> 's \<Rightarrow> 's option"
  r_built :: "sgnode \<Rightarrow> 's \<Rightarrow> 's"
  r_find_fun :: "'s \<Rightarrow> string \<Rightarrow> int option option"
  r_find_enum :: "'s \<Rightarrow> string \<Rightarrow> bool"
  r_alias_clash :: "'s \<Rightarrow> string \<Rightarrow> bool"
  r_find_class :: "'s \<Rightarrow> string \<Rightarrow> (int \<times> bool \<times> bool) option"
  r_alt_params :: "'s \<Rightarrow> (bool \<times> (int \<times> int) option option) list option"
  r_before :: int
  r_after :: int
  r_inside :: int
  r_linemarker :: int
  r_modifier_bits :: nat
  r_default_lang :: int
  r_default_format :: int
  r_version :: string
  r_xml_format :: string
  r_modifiers :: "typecls \<Rightarrow> bool"
  r_autonomous :: "typecls \<Rightarrow> bool"
  r_clang :: bool
  r_mods :: declmods
  r_type_default :: "bool list"
  r_storage_default :: int
  r_visibility :: int
  r_gnu_visibility :: int
  r_gnu_declaration :: int
  r_in_module :: "sgnode \<Rightarrow> bool"
  r_declare :: "string \<Rightarrow> (string \<times> string) list \<Rightarrow> sgnode list \<Rightarrow> 's \<Rightarrow> 's"
  r_defined_class :: "'s \<Rightarrow> string \<Rightarrow> sgnode option option"
  r_struct :: int
  r_enum_self :: bool
  r_attr_kind :: "int \<Rightarrow> attrkind"
  r_dimension :: "'s \<Rightarrow> sgnode \<Rightarrow> bool option"
  r_find_var :: "'s \<Rightarrow> string \<Rightarrow> bool option"
  r_find_module :: "'s \<Rightarrow> string \<Rightarrow> (bool \<times> bool option) option"
  r_name_align :: int
  r_name_attribs :: "bool list"

end
