(* ===== verification/Codec.thy ===== *)
theory Codec
  imports SageTree
begin

text \<open>
  What the class handlers of both visitors share: the pieces in which the writer prints attributes,
  the children an element handler of the reader sees, and the macros of \<open>src/common.hpp\<close> that loop
  over them.
\<close>

subsection \<open>Attributes as written\<close>

definition entity :: "string \<Rightarrow> string" where
  "entity s = the (XmlStr2Entity s)"

definition unentity :: "string \<Rightarrow> string" where
  "unentity s = the (XmlEntity2Str s)"

lemma entity_escape [simp, codec]: "entity s = escape s"
  by (simp add: entity_def XmlStr2Entity_escape)

lemma unentity_plain [simp]: "plain s \<Longrightarrow> unentity s = s"
  by (simp add: unentity_def XmlEntity2Str_plain)

abbreviation sp :: string where "sp \<equiv> '' ''"

definition num :: "string \<Rightarrow> int \<Rightarrow> string \<Rightarrow> chunk" where
  "num nm v t = (nm, show_int v, t)"

definition flag :: "string \<Rightarrow> bool \<Rightarrow> string \<Rightarrow> chunk" where
  "flag nm b t = (nm, show_bool b, t)"

definition esc :: "string \<Rightarrow> string \<Rightarrow> string \<Rightarrow> chunk" where
  "esc nm s t = (nm, entity s, t)"

text \<open>A string printed as it is; an \<open>SgName\<close> is printed by ROSE between double quotes.\<close>

definition raw :: "string \<Rightarrow> string \<Rightarrow> string \<Rightarrow> chunk" where
  "raw nm s t = (nm, s, t)"

definition only :: "bool \<Rightarrow> 'a list \<Rightarrow> 'a list" where
  "only b xs = (if b then xs else [])"

definition opt :: "'a option \<Rightarrow> ('a \<Rightarrow> 'b list) \<Rightarrow> 'b list" where
  "opt v f = (case v of None \<Rightarrow> [] | Some x \<Rightarrow> f x)"

lemma only_simps [simp, codec]: "only True xs = xs" "only False xs = []"
  by (simp_all add: only_def)

lemma opt_simps [simp, codec]: "opt None f = []" "opt (Some x) f = f x"
  by (simp_all add: opt_def)

text \<open>Text that is the same before and after the expansion of references.\<close>

definition safe :: "string \<Rightarrow> bool" where
  "safe s \<longleftrightarrow> list_all (\<lambda>c. c \<notin> {CHR ''&'', CHR ''<'', CHR 0x22, CHR 0x09, CHR 0x0A, CHR 0x0D}) s"

lemma xml_refs_safe [simp, codec]: "safe s \<Longrightarrow> xml_refs s = s"
  by (rule xml_refs_no_amp) (auto simp: safe_def list_all_iff)

lemma safe_Nil [simp]: "safe []"
  by (simp add: safe_def)

lemma safe_append [simp]: "safe (s @ t) \<longleftrightarrow> safe s \<and> safe t"
  by (simp add: safe_def)

text \<open>Reading an attribute back: the first chunk of that name decides.\<close>

definition look :: "chunk list \<Rightarrow> string \<Rightarrow> string option" where
  "look cs nm = map_of (decode_attrs cs) nm"

lemma look_simps [simp, codec]:
  "look [] nm = None"
  "look (num k v t # cs) nm = (if k = nm then Some (show_int v) else look cs nm)"
  "look (flag k b t # cs) nm = (if k = nm then Some (show_bool b) else look cs nm)"
  "look (esc k s t # cs) nm = (if k = nm then Some s else look cs nm)"
  "look (raw k s t # cs) nm = (if k = nm then Some (xml_refs s) else look cs nm)"
  "look (cs @ ds) nm = (case look cs nm of None \<Rightarrow> look ds nm | Some v \<Rightarrow> Some v)"
  "look (only b cs) nm = (if b then look cs nm else None)"
  by (simp_all add: look_def num_def flag_def esc_def raw_def map_add_def only_def decode_attrs_append split: option.splits)

lemma look_opt [simp, codec]:
  "look (opt v f) nm = (case v of None \<Rightarrow> None | Some x \<Rightarrow> look (f x) nm)"
  by (cases v) (simp_all add: look_def)

lemma map_of_decode [simp, codec]: "map_of (decode_attrs cs) nm = look cs nm"
  by (simp add: look_def)

text \<open>The three accesses on what was written.\<close>

lemma getStr_look: "getStr (decode_attrs cs) nm v = (case look cs nm of None \<Rightarrow> v | Some s \<Rightarrow> s)"
  by (simp add: getStr_def)

lemma hasAttr_look: "hasAttr (decode_attrs cs) nm \<longleftrightarrow> look cs nm \<noteq> None"
  by (simp add: hasAttr_def)

lemma getNum_look: "getNum scan (decode_attrs cs) nm v = (case look cs nm of
    None \<Rightarrow> Inr v
  | Some s \<Rightarrow> (case scan s of None \<Rightarrow> Inl (Undef ''uninitialised value read'') | Some i \<Rightarrow> Inr i))"
  by (simp add: getNum_def)

lemma getFlag_look: "getFlag (decode_attrs cs) nm b = (case look cs nm of
    None \<Rightarrow> Inr b
  | Some s \<Rightarrow> (case scan_int32 s of None \<Rightarrow> Inl (Undef ''uninitialised value read'') | Some i \<Rightarrow> Inr (i \<noteq> 0)))"
  by (simp add: getFlag_def getNum_def split: option.splits)

lemmas look_access = getStr_look hasAttr_look getNum_look getFlag_look

subsection \<open>Children as read\<close>

text \<open>
  What a handler sees of the children of its element: the node an element was read into, nothing
  for an element that yields none (\<open>PreprocessingInfo\<close>), and character data. Comments and the like
  are not seen.
\<close>

datatype kid = KNode sgnode | KNull | KText string

fun nodes :: "kid list \<Rightarrow> sgnode list" where
  "nodes [] = []"
| "nodes (KNode n # ks) = n # nodes ks"
| "nodes (k # ks) = nodes ks"

lemma nodes_append [simp]: "nodes (ks @ ls) = nodes ks @ nodes ls"
  by (induction ks rule: nodes.induct) simp_all

type_synonym 's handler = "'s rose \<Rightarrow> 's \<Rightarrow> attrs \<Rightarrow> kid list \<Rightarrow> sgnode res"

text \<open>A node fresh from its builder; position, label and the rest come with \<open>finish\<close>.\<close>

definition hdr0 :: hdr where
  "hdr0 = \<lparr>h_file = None, h_ppi = [], h_paren = False, h_label = None, h_mods = None\<rparr>"

abbreviation built :: "sgcls \<Rightarrow> sgnode option list \<Rightarrow> sgnode option list \<Rightarrow> sgnode" where
  "built \<equiv> Node hdr0"

text \<open>The file info of a node that ROSE makes for a transformation.\<close>

definition transformation :: finfo where
  "transformation = \<lparr>fi_frontend = False, fi_compgen = False, fi_transf = True, fi_output = True,
     fi_same = False, fi_cpp = False\<rparr>"

text \<open>\<open>SgExpression::get_type()\<close>: stored in some classes, computed by ROSE in the others.\<close>

definition get_type :: "'s rose \<Rightarrow> sgnode \<Rightarrow> sgnode option" where
  "get_type E n = (case cls n of
     SgExpr e \<Rightarrow> (case e of
        AggregateInitializer b \<Rightarrow> slot 1 (inner n)
      | CastExp ct \<Rightarrow> slot 1 (inner n)
      | ConstructorInitializer a b c d \<Rightarrow> slot 1 (inner n)
      | PointerDerefExp \<Rightarrow> slot 1 (inner n)
      | _ \<Rightarrow> r_type E n)
   | _ \<Rightarrow> None)"

lemma same_cls:
  assumes "cls m = cls n"
  shows "isSgExpression m = isSgExpression n" "isSgStatement m = isSgStatement n"
    "isSgType m = isSgType n" "isSgSupport m = isSgSupport n"
    "isSgActualArgumentExpression m = isSgActualArgumentExpression n"
    "isSgLabelRefExp m = isSgLabelRefExp n" "isSgVarRefExp m = isSgVarRefExp n"
    "isSgAggregateInitializer m = isSgAggregateInitializer n"
    "isSgInitializer m = isSgInitializer n" "isSgValueExp m = isSgValueExp n"
    "isSgDataStatementValue m = isSgDataStatementValue n" "isSgPragma m = isSgPragma n"
    "isSgSourceFile m = isSgSourceFile n"
proof -
  obtain h c ss ns h' ss' ns' where e: "m = Node h' c ss' ns'" "n = Node h c ss ns"
    using assms by (metis sgnode.exhaust_sel)
  show "isSgExpression m = isSgExpression n" "isSgStatement m = isSgStatement n"
    "isSgType m = isSgType n" "isSgSupport m = isSgSupport n"
    unfolding e by (cases c; simp)+
  show "isSgActualArgumentExpression m = isSgActualArgumentExpression n"
    unfolding e by (induction "Node h c ss ns" rule: isSgActualArgumentExpression.induct) auto
  show "isSgLabelRefExp m = isSgLabelRefExp n"
    unfolding e by (induction "Node h c ss ns" rule: isSgLabelRefExp.induct) auto
  show "isSgVarRefExp m = isSgVarRefExp n"
    unfolding e by (induction "Node h c ss ns" rule: isSgVarRefExp.induct) auto
  show "isSgAggregateInitializer m = isSgAggregateInitializer n"
    unfolding e by (induction "Node h c ss ns" rule: isSgAggregateInitializer.induct) auto
  show "isSgInitializer m = isSgInitializer n"
    unfolding e by (induction "Node h c ss ns" rule: isSgInitializer.induct) auto
  show "isSgValueExp m = isSgValueExp n"
    unfolding e by (induction "Node h c ss ns" rule: isSgValueExp.induct) auto
  show "isSgDataStatementValue m = isSgDataStatementValue n"
    unfolding e by (induction "Node h c ss ns" rule: isSgDataStatementValue.induct) auto
  show "isSgPragma m = isSgPragma n"
    unfolding e by (induction "Node h c ss ns" rule: isSgPragma.induct) auto
  show "isSgSourceFile m = isSgSourceFile n"
    unfolding e by (induction "Node h c ss ns" rule: isSgSourceFile.induct) auto
qed

text \<open>A function that keeps classes does not change what a handler picks.\<close>

definition keeps :: "(sgnode \<Rightarrow> sgnode) \<Rightarrow> bool" where
  "keeps f \<longleftrightarrow> (\<forall>n. cls (f n) = cls n \<and> length (succ (f n)) = length (succ n))"

lemma keeps_succ [simp]: "keeps f \<Longrightarrow> succ (f n) = [] \<longleftrightarrow> succ n = []"
  unfolding keeps_def by (metis length_0_conv)

lemma keeps_tests [simp]:
  assumes "keeps f"
  shows "cls (f n) = cls n" "is_cls c (f n) = is_cls c n"
    "isSgExpression (f n) = isSgExpression n" "isSgStatement (f n) = isSgStatement n"
    "isSgType (f n) = isSgType n" "isSgSupport (f n) = isSgSupport n"
    "isSgActualArgumentExpression (f n) = isSgActualArgumentExpression n"
    "isSgLabelRefExp (f n) = isSgLabelRefExp n" "isSgVarRefExp (f n) = isSgVarRefExp n"
    "isSgAggregateInitializer (f n) = isSgAggregateInitializer n"
    "isSgInitializer (f n) = isSgInitializer n" "isSgValueExp (f n) = isSgValueExp n"
    "isSgDataStatementValue (f n) = isSgDataStatementValue n" "isSgPragma (f n) = isSgPragma n"
    "isSgSourceFile (f n) = isSgSourceFile n"
proof -
  have *: "cls (f n) = cls n" using assms by (simp add: keeps_def)
  show "cls (f n) = cls n" "is_cls c (f n) = is_cls c n" using * by (simp_all add: is_cls_def)
  show "isSgExpression (f n) = isSgExpression n" "isSgStatement (f n) = isSgStatement n"
    "isSgType (f n) = isSgType n" "isSgSupport (f n) = isSgSupport n"
    "isSgActualArgumentExpression (f n) = isSgActualArgumentExpression n"
    "isSgLabelRefExp (f n) = isSgLabelRefExp n" "isSgVarRefExp (f n) = isSgVarRefExp n"
    "isSgAggregateInitializer (f n) = isSgAggregateInitializer n"
    "isSgInitializer (f n) = isSgInitializer n" "isSgValueExp (f n) = isSgValueExp n"
    "isSgDataStatementValue (f n) = isSgDataStatementValue n" "isSgPragma (f n) = isSgPragma n"
    "isSgSourceFile (f n) = isSgSourceFile n"
    using * by (rule same_cls)+
qed

subsection \<open>Shapes\<close>

text \<open>What the slots of a node hold: a node of a kind, possibly such a node, nothing.\<close>

fun req :: "(sgnode \<Rightarrow> bool) \<Rightarrow> sgnode option \<Rightarrow> bool" where
  "req p None = False"
| "req p (Some n) = p n"

fun may :: "(sgnode \<Rightarrow> bool) \<Rightarrow> sgnode option \<Rightarrow> bool" where
  "may p None = True"
| "may p (Some n) = p n"

abbreviation "reqE \<equiv> req isSgExpression"
abbreviation "reqS \<equiv> req isSgStatement"

definition none :: "sgnode option \<Rightarrow> bool" where
  "none x \<longleftrightarrow> x = None"

fun slots :: "(sgnode option \<Rightarrow> bool) list \<Rightarrow> sgnode option list \<Rightarrow> bool" where
  "slots [] [] = True"
| "slots (p # ps) (x # xs) = (p x \<and> slots ps xs)"
| "slots ps xs = False"

lemma slots_iff [simp]:
  "slots [] xs \<longleftrightarrow> xs = []"
  "slots (p # ps) xs \<longleftrightarrow> (\<exists>y ys. xs = y # ys \<and> p y \<and> slots ps ys)"
  by (cases xs; simp)+

lemma req_iff [simp]: "req p x \<longleftrightarrow> (\<exists>n. x = Some n \<and> p n)"
  by (cases x) auto

lemma none_iff [simp]: "none x \<longleftrightarrow> x = None"
  by (simp add: none_def)

text \<open>A test that holds determines the class, which decides every other test.\<close>

lemma is_clsE: "is_cls c n \<Longrightarrow> (\<And>h ss ns. n = Node h c ss ns \<Longrightarrow> P) \<Longrightarrow> P"
  by (cases n) auto

lemmas test_elims = is_clsE isSgExpression.elims(2) isSgStatement.elims(2) isSgType.elims(2)
  isSgInitializer.elims(2) isSgValueExp.elims(2) isSgAggregateInitializer.elims(2)
  isSgLabelRefExp.elims(2) isSgActualArgumentExpression.elims(2) isSgDataStatementValue.elims(2)

lemma test_cls:
  "isSgExpression n \<longleftrightarrow> (\<exists>e. cls n = SgExpr e)"
  "isSgStatement n \<longleftrightarrow> (\<exists>s. cls n = SgStmt s)"
  "isSgType n \<longleftrightarrow> (\<exists>t. cls n = SgType t)"
  "isSgSupport n \<longleftrightarrow> (\<exists>s. cls n = SgSupp s)"
  by (cases n; cases "cls n"; simp)+

lemma fill_simps [simp]:
  "fill ps [] = replicate (length ps) None"
  by (simp add: fill_def)

lemma filter_map_Some: "list_all (req p) xs \<Longrightarrow> map Some (filter p (the_list xs)) = xs"
proof (induction xs)
  case (Cons x xs)
  then show ?case by (cases x) auto
qed simp

text \<open>Attributes that every expression may have do not hide those of a class.\<close>

definition generic :: "chunk list \<Rightarrow> bool" where
  "generic cs \<longleftrightarrow> (\<forall>nm. nm \<notin> {''type'', ''paren'', ''cast''} \<longrightarrow> look cs nm = None)"

lemma look_generic [simp]: "generic cs \<Longrightarrow> nm \<notin> {''type'', ''paren'', ''cast''} \<Longrightarrow> look cs nm = None"
  by (simp add: generic_def)

lemma may_first [simp]:
  "keeps f \<Longrightarrow> may isSgExpression y \<Longrightarrow> first_of isSgExpression (map f (the_list [y])) = map_option f y"
  by (cases y) simp_all

lemma filter_req:
  "list_all (req p) ss \<Longrightarrow> (\<And>n. p (f n) = p n) \<Longrightarrow>
    map Some (filter p (map f (the_list ss))) = map (map_option f) ss"
proof (induction ss)
  case (Cons x xs)
  then show ?case by (cases x) auto
qed simp

subsection \<open>Labels and numbers\<close>

text \<open>\<open>attribSgStatement\<close>: the numeric label, which \<open>checkStatement\<close> reads back.\<close>

definition attribSgStatement :: "hdr \<Rightarrow> chunk list" where
  "attribSgStatement h = opt (h_label h) (\<lambda>l. [num ''label'' l sp])"

lemma look_attribSgStatement [simp]:
  "look (attribSgStatement h) nm = (if nm = ''label'' then map_option show_int (h_label h) else None)"
  by (auto simp: attribSgStatement_def split: option.splits)

text \<open>\<open>atoi\<close>, of which a value outside \<open>int\<close> is undefined.\<close>

definition atoi :: "string \<Rightarrow> int res" where
  "atoi s = (case scan_int (- (2 ^ 63)) (2 ^ 63 - 1) s of
      None \<Rightarrow> Inr 0
    | Some v \<Rightarrow> if int32 v then Inr v else Inl (Undef ''atoi out of range''))"

lemma atoi_show_int [simp]: "int32 v \<Longrightarrow> atoi (show_int v) = Inr v"
  by (simp add: atoi_def show_int_scan int32_def)

lemma atoi_Nil [simp]: "atoi [] = Inr 0"
  by (simp add: atoi_def scan_int_def)

text \<open>An attribute that a stream reads into a \<open>bool\<close>.\<close>

definition scan_long :: "string \<Rightarrow> int option" where
  "scan_long = scan_int (- (2 ^ 63)) (2 ^ 63 - 1)"

definition getBool :: "attrs \<Rightarrow> string \<Rightarrow> bool \<Rightarrow> bool res" where
  "getBool A nm b =
     bind_res (getNum scan_long A nm (of_bool b)) (\<lambda>i. Inr (i \<noteq> 0))"

lemma scan_long_show_bool [simp]: "scan_long (show_bool b) = Some (of_bool b)"
  by (auto simp: scan_long_def scan_int_def show_bool_def sign_of_def isspace_def is_digit_def
      digits_val_def digit_val_def)

lemma getBool_look: "getBool (decode_attrs cs) nm b = (case look cs nm of
    None \<Rightarrow> Inr b
  | Some s \<Rightarrow> (case scan_long s of
        None \<Rightarrow> Inl (Undef ''uninitialised value read'')
      | Some i \<Rightarrow> Inr (i \<noteq> 0)))"
  by (simp add: getBool_def getNum_def split: option.splits)

end
