(* ===== verification/Bits.thy ===== *)
theory Bits
  imports "HOL-Library.Word"
begin

text \<open>
  Bit vectors printed as one number: the loops over \<open>SgBitVector\<close> of the modifier attributes. The
  number is an \<open>unsigned long\<close> of 64 bits, so vectors of at most 64 flags come back.
\<close>

unbundle bit_operations_syntax

text \<open>\<open>mod |= ((unsigned long)vec[i]) << i\<close> for every index, from the least.\<close>

fun pack_from :: "nat \<Rightarrow> bool list \<Rightarrow> 64 word \<Rightarrow> 64 word" where
  "pack_from i [] m = m"
| "pack_from i (b # bs) m = pack_from (Suc i) bs (m OR push_bit i (of_bool b))"

definition pack_bits :: "bool list \<Rightarrow> 64 word" where
  "pack_bits v = pack_from 0 v 0"

text \<open>\<open>vec[i] = (mod & 1); mod >>= 1\<close> for every index of a vector of length \<open>n\<close>.\<close>

fun unpack_bits :: "nat \<Rightarrow> 64 word \<Rightarrow> bool list" where
  "unpack_bits 0 m = []"
| "unpack_bits (Suc n) m = (m AND 1 \<noteq> 0) # unpack_bits n (drop_bit 1 m)"

lemma bit_pack_from:
  "bit (pack_from i v m) n \<longleftrightarrow> bit m n \<or> (i \<le> n \<and> n < i + length v \<and> n < 64 \<and> v ! (n - i))"
proof (induction v arbitrary: i m)
  case Nil
  then show ?case by auto
next
  case (Cons b v)
  have "bit (m OR push_bit i (of_bool b)) n \<longleftrightarrow> bit m n \<or> (n = i \<and> n < 64 \<and> b)"
    by (auto simp: bit_simps)
  then show ?case
    unfolding pack_from.simps Cons
    by (cases "n = i") (auto simp: nth_Cons' Suc_le_eq)
qed

lemma bit_pack_bits: "bit (pack_bits v) n \<longleftrightarrow> n < length v \<and> n < 64 \<and> v ! n"
  by (simp add: pack_bits_def bit_pack_from)

lemma length_unpack_bits [simp]: "length (unpack_bits n m) = n"
  by (induction n m rule: unpack_bits.induct) simp_all

lemma unpack_bits_nth: "i < n \<Longrightarrow> unpack_bits n m ! i \<longleftrightarrow> bit m i"
proof (induction n m arbitrary: i rule: unpack_bits.induct)
  case (2 n m)
  have "m AND 1 \<noteq> 0 \<longleftrightarrow> bit m 0"
    by (simp add: and_one_eq odd_iff_mod_2_eq_one bit_0)
  with 2 show ?case by (cases i) (auto simp: bit_simps)
qed simp

lemma unpack_pack: "length v = n \<Longrightarrow> n \<le> 64 \<Longrightarrow> unpack_bits n (pack_bits v) = v"
  by (intro nth_equalityI) (auto simp: unpack_bits_nth bit_pack_bits)

text \<open>The number as printed and as read by a stream into an \<open>unsigned long\<close>.\<close>

lemma uint_word_range: "0 \<le> uint (w :: 64 word)" "uint (w :: 64 word) < 2 ^ 64"
  using uint_lt2p [of w] by simp_all

end
