(* ===== verification/Modifiers.thy ===== *)
theory Modifiers
  imports Codec Bits
begin

text \<open>
  The modifiers that every declaration has: \<open>attribSgDeclarationStatement\<close> of \<open>src/decl.cpp\<close> writes them,
  \<open>checkDeclStmt\<close> of \<open>src/xml2rose.cpp\<close> reads them, with those of a function besides. The lemmas say
  which modifiers survive.
\<close>

subsection \<open>Writing and reading\<close>

definition mods_of :: "'s rose \<Rightarrow> hdr \<Rightarrow> declmods" where
  "mods_of E h = (case h_mods h of None \<Rightarrow> r_mods E | Some m \<Rightarrow> m)"

text \<open>The vectors have less than 32 flags, so the casts to \<open>unsigned int\<close> lose nothing.\<close>

definition attribSgDeclarationStatement :: "'s rose \<Rightarrow> sgnode \<Rightarrow> chunk list" where
  "attribSgDeclarationStatement E n =
     (let m = mods_of E (hd_of n); d = uint (pack_bits (dm_vec m)); t = uint (pack_bits (dm_type m)) in
      attribSgStatement (hd_of n)
      @ only (1 < d) [num ''declaration_modifier'' d sp]
      @ only (2 < t) [num ''type_modifier'' t sp]
      @ only (dm_cv m \<noteq> r_cv_default E) [num ''cv_modifier'' (dm_cv m) sp]
      @ only (0 \<le> dm_align m) [num ''alignment'' (dm_align m) sp]
      @ only (r_fortran E \<and> r_in_module E n) [num ''access_modifier'' (dm_access m) sp]
      @ only (dm_storage m \<noteq> r_storage_default E) [num ''storage_modifier'' (dm_storage m) sp]
      @ only (dm_tls m) [flag ''thread_local'' True sp]
      @ only (r_visibility E < dm_visibility m) [num ''visibility'' (dm_visibility m) sp]
      @ only (r_fortran E \<and> dm_bind m \<noteq> []) [raw ''bind'' (dm_bind m) (sp @ newline)]
      @ only (r_fortran E \<and> dm_link m \<noteq> []) [raw ''link'' (dm_link m) (sp @ newline)])"

text \<open>
  \<open>checkDeclStmt\<close>: from the modifiers of a new declaration; what has no attribute stays, but for the
  type, const-volatile, storage and thread modifiers, which are set anyway. \<open>fn\<close>: the declaration is
  a function.
\<close>

definition read_vec :: "attrs \<Rightarrow> string \<Rightarrow> int \<Rightarrow> bool list \<Rightarrow> bool list \<Rightarrow> bool list" where
  "read_vec A nm v fresh dflt = (if hasAttr A nm then unpack_bits (length fresh) (of_int v) else dflt)"

definition read_decl_mods :: "'s rose \<Rightarrow> attrs \<Rightarrow> declmods res" where
  "read_decl_mods E A =
     (let m = r_mods E in
      bind_res (getULong A ''declaration_modifier'' 0) (\<lambda>d.
      bind_res (getULong A ''type_modifier'' 0) (\<lambda>t.
      bind_res (getULong A ''cv_modifier'' (r_cv_default E)) (\<lambda>cv.
      bind_res (getULong A ''alignment'' (dm_align m)) (\<lambda>al.
      bind_res (getULong A ''access_modifier'' (dm_access m)) (\<lambda>ac.
      bind_res (getULong A ''storage_modifier'' (r_storage_default E)) (\<lambda>st.
      bind_res (getULong A ''thread_local'' 0) (\<lambda>tl.
      bind_res (getULong A ''visibility'' (dm_visibility m)) (\<lambda>vi.
        Inr (m\<lparr>dm_vec := read_vec A ''declaration_modifier'' d (dm_vec m) (dm_vec m),
               dm_type := read_vec A ''type_modifier'' t (dm_type m) (r_type_default E),
               dm_cv := cv, dm_align := al, dm_access := ac, dm_storage := st, dm_tls := tl \<noteq> 0,
               dm_visibility := vi, dm_bind := getStr A ''bind'' (dm_bind m),
               dm_link := getStr A ''link'' (dm_link m)\<rparr>))))))))))"

definition read_fun_mods :: "attrs \<Rightarrow> declmods \<Rightarrow> declmods res" where
  "read_fun_mods A m =
     bind_res (getULong A ''function_modifier'' 0) (\<lambda>f.
     bind_res (getFlag A ''end_name'' (dm_end m)) (\<lambda>en.
     bind_res (getInt A ''regparm'' (dm_regparm m)) (\<lambda>rp.
       Inr (m\<lparr>dm_fun := read_vec A ''function_modifier'' f (dm_fun m) (dm_fun m), dm_end := en,
              dm_asm := getStr A ''asm_name'' (dm_asm m), dm_regparm := rp\<rparr>))))"

text \<open>In Fortran a function with the attribute \<open>result\<close> is a procedure header or an entry.\<close>

definition checkDeclStmt :: "'s rose \<Rightarrow> attrs \<Rightarrow> sgnode \<Rightarrow> sgnode res" where
  "checkDeclStmt E A n =
     (if isSgDeclarationStatement n
      then bind_res (read_decl_mods E A) (\<lambda>m.
           bind_res (if isSgFunctionDeclaration n then read_fun_mods A m else Inr m) (\<lambda>m.
             if isSgFunctionDeclaration n \<and> r_fortran E \<and> hasAttr A ''result''
             then Inl (Undef ''result variable not modelled'')
             else case n of Node h c ss ns \<Rightarrow> Inr (Node (h\<lparr>h_mods := Some m\<rparr>) c ss ns)))
      else Inr n)"

subsection \<open>What survives\<close>

text \<open>The attributes of every declaration, one by one; they hide none of a class.\<close>

lemma look_declaration_own [simp]:
  "look (attribSgDeclarationStatement E n) ''code'' = None"
  "look (attribSgDeclarationStatement E n) ''gnu'' = None"
  "look (attribSgDeclarationStatement E n) ''regs'' = None"
  "look (attribSgDeclarationStatement E n) ''kind'' = None"
  "look (attribSgDeclarationStatement E n) ''intent'' = None"
  "look (attribSgDeclarationStatement E n) ''type'' = None"
  "look (attribSgDeclarationStatement E n) ''unnamed'' = None"
  "look (attribSgDeclarationStatement E n) ''autonomous'' = None"
  "look (attribSgDeclarationStatement E n) ''name'' = None"
  "look (attribSgDeclarationStatement E n) ''list'' = None"
  "look (attribSgDeclarationStatement E n) ''old'' = None"
  "look (attribSgDeclarationStatement E n) ''definition'' = None"
  "look (attribSgDeclarationStatement E n) ''no_params'' = None"
  "look (attribSgDeclarationStatement E n) ''gnu_visibility'' = None"
  "look (attribSgDeclarationStatement E n) ''gnu_alias'' = None"
  "look (attribSgDeclarationStatement E n) ''gnu_declaration'' = None"
  "look (attribSgDeclarationStatement E n) ''gnu_section'' = None"
  "look (attribSgDeclarationStatement E n) ''unparse'' = None"
  "look (attribSgDeclarationStatement E n) ''paren'' = None"
  "look (attribSgDeclarationStatement E n) ''result'' = None"
  "look (attribSgDeclarationStatement E n) ''function_modifier'' = None"
  "look (attribSgDeclarationStatement E n) ''end_name'' = None"
  "look (attribSgDeclarationStatement E n) ''asm_name'' = None"
  "look (attribSgDeclarationStatement E n) ''regparm'' = None"
  "look (attribSgDeclarationStatement E n) ''filename'' = None"
  "look (attribSgDeclarationStatement E n) ''only'' = None"
  by (simp_all add: attribSgDeclarationStatement_def Let_def cong: conj_cong)

definition bare_mods :: "'s rose \<Rightarrow> declmods" where
  "bare_mods E = (r_mods E)\<lparr>dm_type := r_type_default E, dm_cv := r_cv_default E,
     dm_storage := r_storage_default E, dm_tls := False\<rparr>"

text \<open>A vector of flags fits its number.\<close>

definition vec_ok :: "bool list \<Rightarrow> bool list \<Rightarrow> bool" where
  "vec_ok fresh v \<longleftrightarrow> length v = length fresh \<and> length v \<le> 64"

lemma pack_unpack [simp]:
  "vec_ok fresh v \<Longrightarrow> unpack_bits (length fresh) (pack_bits v) = v"
  by (auto simp: vec_ok_def intro: unpack_pack)

lemma scan_packed [simp]: "scan_unsigned 64 (show_int (uint (pack_bits v))) = Some (uint (pack_bits v))"
  using uint_word_range [of "pack_bits v"] by simp

text \<open>Modifiers that survive: what is not written must be as in a new declaration.\<close>

definition ulong :: "int \<Rightarrow> bool" where
  "ulong v \<longleftrightarrow> 0 \<le> v \<and> v < 2 ^ 64"

definition kept_vec :: "int \<Rightarrow> bool list \<Rightarrow> bool list \<Rightarrow> bool list \<Rightarrow> bool" where
  "kept_vec least fresh dflt v \<longleftrightarrow> vec_ok fresh v \<and> (uint (pack_bits v) \<le> least \<longrightarrow> v = dflt)"

definition kept_name :: "bool \<Rightarrow> string \<Rightarrow> string \<Rightarrow> bool" where
  "kept_name b fresh s \<longleftrightarrow> (if b \<and> s \<noteq> [] then safe s else s = fresh)"

definition decl_mods_ok :: "'s rose \<Rightarrow> sgnode \<Rightarrow> declmods \<Rightarrow> bool" where
  "decl_mods_ok E n m \<longleftrightarrow> (let new = r_mods E in
     kept_vec 1 (dm_vec new) (dm_vec new) (dm_vec m) \<and> kept_vec 2 (dm_type new) (r_type_default E) (dm_type m) \<and>
     ulong (dm_cv m) \<and> ulong (dm_storage m) \<and>
     (if 0 \<le> dm_align m then ulong (dm_align m) else dm_align m = dm_align new) \<and>
     (if r_fortran E \<and> r_in_module E n then ulong (dm_access m) else dm_access m = dm_access new) \<and>
     (if r_visibility E < dm_visibility m then ulong (dm_visibility m) else dm_visibility m = dm_visibility new) \<and>
     kept_name (r_fortran E) (dm_bind new) (dm_bind m) \<and> kept_name (r_fortran E) (dm_link new) (dm_link m))"

definition fun_mods_ok :: "'s rose \<Rightarrow> bool \<Rightarrow> declmods \<Rightarrow> bool" where
  "fun_mods_ok E fn m \<longleftrightarrow> (let new = r_mods E in
     if fn
     then kept_vec 2 (dm_fun new) (dm_fun new) (dm_fun m) \<and> (r_fortran E \<or> dm_end m = dm_end new) \<and>
       kept_name True (dm_asm new) (dm_asm m) \<and>
       (if 0 < dm_regparm m then int32 (dm_regparm m) else dm_regparm m = dm_regparm new)
     else dm_fun m = dm_fun new \<and> dm_end m = dm_end new \<and> dm_asm m = dm_asm new \<and> dm_regparm m = dm_regparm new)"

lemma look_declaration_mods:
  "look (attribSgDeclarationStatement E n) ''declaration_modifier'' = (let v = uint (pack_bits (dm_vec (mods_of E (hd_of n))))
     in if 1 < v then Some (show_int v) else None)"
  "look (attribSgDeclarationStatement E n) ''type_modifier'' = (let v = uint (pack_bits (dm_type (mods_of E (hd_of n))))
     in if 2 < v then Some (show_int v) else None)"
  "look (attribSgDeclarationStatement E n) ''cv_modifier'' = (let v = dm_cv (mods_of E (hd_of n))
     in if v \<noteq> r_cv_default E then Some (show_int v) else None)"
  "look (attribSgDeclarationStatement E n) ''alignment'' = (let v = dm_align (mods_of E (hd_of n))
     in if 0 \<le> v then Some (show_int v) else None)"
  "look (attribSgDeclarationStatement E n) ''access_modifier'' = (if r_fortran E \<and> r_in_module E n
     then Some (show_int (dm_access (mods_of E (hd_of n)))) else None)"
  "look (attribSgDeclarationStatement E n) ''storage_modifier'' = (let v = dm_storage (mods_of E (hd_of n))
     in if v \<noteq> r_storage_default E then Some (show_int v) else None)"
  "look (attribSgDeclarationStatement E n) ''thread_local'' = (if dm_tls (mods_of E (hd_of n))
     then Some (show_bool True) else None)"
  "look (attribSgDeclarationStatement E n) ''visibility'' = (let v = dm_visibility (mods_of E (hd_of n))
     in if r_visibility E < v then Some (show_int v) else None)"
  "look (attribSgDeclarationStatement E n) ''bind'' = (let s = dm_bind (mods_of E (hd_of n))
     in if r_fortran E \<and> s \<noteq> [] then Some (xml_refs s) else None)"
  "look (attribSgDeclarationStatement E n) ''link'' = (let s = dm_link (mods_of E (hd_of n))
     in if r_fortran E \<and> s \<noteq> [] then Some (xml_refs s) else None)"
  by (simp_all add: attribSgDeclarationStatement_def Let_def cong: conj_cong)

lemma look_declaration_label [simp]:
  "look (attribSgDeclarationStatement E n) ''label'' = map_option show_int (h_label (hd_of n))"
  by (cases "h_label (hd_of n)") (simp_all add: attribSgDeclarationStatement_def Let_def cong: conj_cong)

text \<open>The names of the attributes that hold them.\<close>

definition mod_names :: "string list" where
  "mod_names = [''declaration_modifier'', ''type_modifier'', ''cv_modifier'', ''alignment'',
     ''access_modifier'', ''storage_modifier'', ''thread_local'', ''visibility'', ''bind'', ''link'']"

definition same_mods :: "chunk list \<Rightarrow> chunk list \<Rightarrow> bool" where
  "same_mods cs ds \<longleftrightarrow> list_all (\<lambda>nm. look cs nm = look ds nm) mod_names"

lemma same_mods_iff: "same_mods cs ds \<longleftrightarrow>
    look cs ''declaration_modifier'' = look ds ''declaration_modifier'' \<and>
    look cs ''type_modifier'' = look ds ''type_modifier'' \<and> look cs ''cv_modifier'' = look ds ''cv_modifier'' \<and>
    look cs ''alignment'' = look ds ''alignment'' \<and> look cs ''access_modifier'' = look ds ''access_modifier'' \<and>
    look cs ''storage_modifier'' = look ds ''storage_modifier'' \<and>
    look cs ''thread_local'' = look ds ''thread_local'' \<and> look cs ''visibility'' = look ds ''visibility'' \<and>
    look cs ''bind'' = look ds ''bind'' \<and> look cs ''link'' = look ds ''link''"
  by (simp add: same_mods_def mod_names_def)

text \<open>Attributes of other names may stand before them.\<close>

lemma same_mods_simps:
  "same_mods cs cs"
  "k \<notin> set mod_names \<Longrightarrow> same_mods (num k v t # cs) ds = same_mods cs ds"
  "k \<notin> set mod_names \<Longrightarrow> same_mods (flag k b t # cs) ds = same_mods cs ds"
  "k \<notin> set mod_names \<Longrightarrow> same_mods (esc k s t # cs) ds = same_mods cs ds"
  "k \<notin> set mod_names \<Longrightarrow> same_mods (raw k s t # cs) ds = same_mods cs ds"
  "same_mods xs [] \<Longrightarrow> same_mods (only b xs @ cs) ds = same_mods cs ds"
  by (auto simp: same_mods_def list_all_iff)

lemma same_mods_statement: "same_mods (attribSgStatement h) []"
  by (simp add: same_mods_iff)

lemma same_mods_tail: "same_mods (cs @ only u [flag ''unparse'' False sp]) ds = same_mods cs ds"
proof -
  have "look (cs @ only u [flag ''unparse'' False sp]) nm = look cs nm" if "nm \<in> set mod_names" for nm
    using that by (cases u) (auto simp: mod_names_def split: option.splits)
  then show ?thesis by (simp add: same_mods_def list_all_iff)
qed

lemma scan_unsigned_true [simp]: "scan_unsigned 64 (show_bool True) = Some 1"
  by (simp add: scan_unsigned_def show_bool_def sign_of_def isspace_def is_digit_def digits_val_def
      digit_val_def Let_def)

lemma read_vec_written:
  assumes "kept_vec least fresh dflt v" "look cs nm = (let i = uint (pack_bits v) in if least < i then Some (show_int i) else None)"
    "0 \<le> least"
  shows "\<exists>i. getULong (decode_attrs cs) nm 0 = Inr i \<and> read_vec (decode_attrs cs) nm i fresh dflt = v"
  using assms by (auto simp: kept_vec_def look_access read_vec_def Let_def)

lemma read_ulong_written:
  assumes "look cs nm = (if b then Some (show_int v) else None)" "if b then ulong v else v = dflt"
  shows "getULong (decode_attrs cs) nm dflt = Inr v"
  using assms by (cases b) (simp_all add: look_access ulong_def)

lemma read_name_written:
  assumes "look cs nm = (if b \<and> s \<noteq> [] then Some (xml_refs s) else None)" "kept_name b dflt s"
  shows "getStr (decode_attrs cs) nm dflt = s"
  using assms by (auto simp: look_access kept_name_def)

lemma read_decl_mods_written:
  assumes cs: "same_mods cs (attribSgDeclarationStatement E n)" and ok: "decl_mods_ok E n m"
    and m: "m = mods_of E (hd_of n)"
  shows "read_decl_mods E (decode_attrs cs) = Inr (m\<lparr>dm_fun := dm_fun (r_mods E), dm_end := dm_end (r_mods E),
    dm_asm := dm_asm (r_mods E), dm_regparm := dm_regparm (r_mods E)\<rparr>)"
proof -
  note L = cs [unfolded same_mods_iff look_declaration_mods m [symmetric]]
  note K = ok [unfolded decl_mods_ok_def Let_def]
  obtain d where d: "getULong (decode_attrs cs) ''declaration_modifier'' 0 = Inr d"
    "read_vec (decode_attrs cs) ''declaration_modifier'' d (dm_vec (r_mods E)) (dm_vec (r_mods E)) = dm_vec m"
    using read_vec_written [of 1 "dm_vec (r_mods E)" "dm_vec (r_mods E)" "dm_vec m" cs] K L by auto
  obtain t where t: "getULong (decode_attrs cs) ''type_modifier'' 0 = Inr t"
    "read_vec (decode_attrs cs) ''type_modifier'' t (dm_type (r_mods E)) (r_type_default E) = dm_type m"
    using read_vec_written [of 2 "dm_type (r_mods E)" "r_type_default E" "dm_type m" cs] K L by auto
  have cv: "getULong (decode_attrs cs) ''cv_modifier'' (r_cv_default E) = Inr (dm_cv m)"
    using K L by (intro read_ulong_written [where b = "dm_cv m \<noteq> r_cv_default E"]) (simp_all add: Let_def)
  have al: "getULong (decode_attrs cs) ''alignment'' (dm_align (r_mods E)) = Inr (dm_align m)"
    using K L by (intro read_ulong_written [where b = "0 \<le> dm_align m"]) (simp_all add: Let_def)
  have ac: "getULong (decode_attrs cs) ''access_modifier'' (dm_access (r_mods E)) = Inr (dm_access m)"
    using K L by (intro read_ulong_written [where b = "r_fortran E \<and> r_in_module E n"]) simp_all
  have st: "getULong (decode_attrs cs) ''storage_modifier'' (r_storage_default E) = Inr (dm_storage m)"
    using K L by (intro read_ulong_written [where b = "dm_storage m \<noteq> r_storage_default E"]) (simp_all add: Let_def)
  have tl: "getULong (decode_attrs cs) ''thread_local'' 0 = Inr (of_bool (dm_tls m))"
    using L by (simp add: look_access)
  have vi: "getULong (decode_attrs cs) ''visibility'' (dm_visibility (r_mods E)) = Inr (dm_visibility m)"
    using K L by (intro read_ulong_written [where b = "r_visibility E < dm_visibility m"]) (simp_all add: Let_def)
  have bi: "getStr (decode_attrs cs) ''bind'' (dm_bind (r_mods E)) = dm_bind m"
    and li: "getStr (decode_attrs cs) ''link'' (dm_link (r_mods E)) = dm_link m"
    using K L by (simp_all add: read_name_written [where b = "r_fortran E"] Let_def)
  show ?thesis
    unfolding read_decl_mods_def Let_def d t cv al ac st tl vi bi li by (simp add: d t)
qed

lemma read_decl_mods_bare:
  "same_mods cs [] \<Longrightarrow> read_decl_mods E (decode_attrs cs) = Inr (bare_mods E)"
  by (simp add: same_mods_iff read_decl_mods_def bare_mods_def look_access read_vec_def)

lemma read_fun_mods_written:
  assumes ok: "fun_mods_ok E True m"
    and cs: "look cs ''function_modifier'' = (let i = uint (pack_bits (dm_fun m)) in if 2 < i then Some (show_int i) else None)"
      "look cs ''end_name'' = (if r_fortran E then Some (show_bool (dm_end m)) else None)"
      "look cs ''asm_name'' = (if True \<and> dm_asm m \<noteq> [] then Some (xml_refs (dm_asm m)) else None)"
      "look cs ''regparm'' = (if 0 < dm_regparm m then Some (show_int (dm_regparm m)) else None)"
    and m': "m' = m\<lparr>dm_fun := dm_fun (r_mods E), dm_end := dm_end (r_mods E),
      dm_asm := dm_asm (r_mods E), dm_regparm := dm_regparm (r_mods E)\<rparr>"
  shows "read_fun_mods (decode_attrs cs) m' = Inr m"
proof -
  note K = ok [unfolded fun_mods_ok_def Let_def, simplified]
  obtain i where i: "getULong (decode_attrs cs) ''function_modifier'' 0 = Inr i"
    "read_vec (decode_attrs cs) ''function_modifier'' i (dm_fun (r_mods E)) (dm_fun (r_mods E)) = dm_fun m"
    using read_vec_written [of 2 "dm_fun (r_mods E)" "dm_fun (r_mods E)" "dm_fun m" cs] K cs(1) by auto
  have e: "getFlag (decode_attrs cs) ''end_name'' (dm_end (r_mods E)) = Inr (dm_end m)"
    using K cs(2) by (auto simp: look_access)
  have a: "getStr (decode_attrs cs) ''asm_name'' (dm_asm (r_mods E)) = dm_asm m"
    using K cs(3) by (intro read_name_written [where b = True]) simp_all
  have r: "getInt (decode_attrs cs) ''regparm'' (dm_regparm (r_mods E)) = Inr (dm_regparm m)"
    using K cs(4) by (auto simp: look_access)
  show ?thesis
    unfolding read_fun_mods_def m' by (simp add: i e a r)
qed

end
