(* ===== verification/SuppCodec.thy ===== *)
theory SuppCodec
  imports Modifiers
begin

text \<open>
  The support classes of \<open>src/supp.cpp\<close>: data statements, parameter type lists, name groups, pragmas,
  the source file, and the located ones \<open>SgCommonBlockObject\<close> and \<open>SgRenamePair\<close>. \<open>read_supp\<close> and
  \<open>read_lsupp\<close> are the lemmas of the theory.
\<close>

subsection \<open>Data statements\<close>

text \<open>Inner slots of a group: the objects, then the values; the class counts the objects.\<close>

definition visitSgDataStatementGroup :: "'s handler" where
  "visitSgDataStatementGroup E \<sigma> A ks =
     (let objs = filter isSgDataStatementObject (nodes ks);
          vals = filter isSgDataStatementValue (nodes ks)
      in Inr (built (SgSupp (DataStatementGroup (length objs))) [] (map Some (objs @ vals))))"

definition inodeSgDataStatementGroup :: "nat \<Rightarrow> sgnode \<Rightarrow> sgnode list" where
  "inodeSgDataStatementGroup k n = the_list (take k (inner n)) @ the_list (drop k (inner n))"

definition visitSgDataStatementObject :: "'s handler" where
  "visitSgDataStatementObject E \<sigma> A ks =
     need ''SgDataStatementObject needs a child node of SgExprListExp''
       (first_of isSgExprListExp (nodes ks))
       (\<lambda>lst. Inr (built (SgSupp DataStatementObject) [] [Some lst]))"

definition inodeSgDataStatementObject :: "sgnode \<Rightarrow> sgnode list" where
  "inodeSgDataStatementObject n = the_list [slot 0 (inner n)]"

text \<open>Inner slots: initializer list, repeat expression, constant expression.\<close>

definition visitSgDataStatementValue :: "'s handler" where
  "visitSgDataStatementValue E \<sigma> A ks =
     bind_res (getInt A ''fmt'' 0) (\<lambda>format.
       let v = fill [isSgExprListExp, isSgExpression, isSgExpression] (nodes ks)
       in Inr (built (SgSupp (DataStatementValue format)) [] [slot 0 v, slot 1 v, slot 2 v]))"

definition attribSgDataStatementValue :: "int \<Rightarrow> chunk list" where
  "attribSgDataStatementValue format = [num ''fmt'' format sp]"

definition inodeSgDataStatementValue :: "sgnode \<Rightarrow> sgnode list" where
  "inodeSgDataStatementValue n =
     the_list [slot 0 (inner n)] @ the_list [slot 1 (inner n)] @ the_list [slot 2 (inner n)]"

subsection \<open>Format items\<close>

text \<open>
  Inner slots: the data, then the items of the list below it. A data string takes its quotes from the
  attributes of the item; \<open>FormatItem\<close> has the double ones, the string literal itself the single ones.
\<close>

fun use_single_quotes :: "sgnode \<Rightarrow> sgnode" where
  "use_single_quotes (Node h (SgExpr (StringVal s a b c d)) ss ns) = Node h (SgExpr (StringVal s True b c d)) ss ns"
| "use_single_quotes n = n"

definition visitSgFormatItem :: "'s handler" where
  "visitSgFormatItem E \<sigma> A ks =
     bind_res (getInt A ''single'' 0) (\<lambda>sgl. bind_res (getInt A ''double'' 0) (\<lambda>dbl.
     bind_res (getInt A ''list'' 0) (\<lambda>lst. bind_res (getInt A ''repeat'' 0) (\<lambda>rpt.
       let exp = first_of isSgExpression (nodes ks); il = filter isSgFormatItem (nodes ks);
           isval = (case exp of None \<Rightarrow> False | Some e \<Rightarrow> string_value (cls e) \<noteq> None)
       in if exp \<noteq> None \<and> rpt = 0 \<and> il = [] then Inl (Fatal ''SgFormatList is empty'')
          else Inr (built (SgSupp (FormatItem (isval \<and> dbl = 1) rpt)) []
            ((if isval \<and> sgl = 1 then map_option use_single_quotes exp else exp) # map Some il))))))"

definition single_quoted :: "sgnode option \<Rightarrow> bool" where
  "single_quoted x = (case x of
      Some (Node h (SgExpr (StringVal s a b c d)) ss ns) \<Rightarrow> a
    | _ \<Rightarrow> False)"

definition attribSgFormatItem :: "sgnode \<Rightarrow> bool \<Rightarrow> int \<Rightarrow> chunk list" where
  "attribSgFormatItem n dbl rpt =
     only (single_quoted (slot 0 (inner n))) [flag ''single'' True sp] @ only dbl [flag ''double'' True sp]
     @ only (tl (inner n) \<noteq> []) [flag ''list'' True sp] @ only (rpt \<noteq> 0) [num ''repeat'' rpt sp]"

definition inodeSgFormatItem :: "sgnode \<Rightarrow> sgnode list" where
  "inodeSgFormatItem n = the_list [slot 0 (inner n)] @ the_list (tl (inner n))"

subsection \<open>Lists of types and of names\<close>

text \<open>
  Every type among the children is appended to the list that ROSE builds from an expression list:
  the types of its expressions.
\<close>

definition visitSgFunctionParameterTypeList :: "'s handler" where
  "visitSgFunctionParameterTypeList E \<sigma> A ks =
     (let types = map Some (filter isSgType (nodes ks));
          exps = (case first_of isSgExprListExp (nodes ks) of
              None \<Rightarrow> []
            | Some exp \<Rightarrow> map (get_type E) (the_list (succ exp)))
      in Inr (built (SgSupp FunctionParameterTypeList) [] (exps @ types)))"

definition inodeSgFunctionParameterTypeList :: "sgnode \<Rightarrow> sgnode list" where
  "inodeSgFunctionParameterTypeList n = the_list (inner n)"

text \<open>\<open>strtok(str, ",")\<close> until it returns null: the maximal runs without a comma.\<close>

function (sequential) strtok :: "string \<Rightarrow> string list" where
  "strtok [] = []"
| "strtok (c # s) =
     (if c = CHR '','' then strtok s
      else (c # takeWhile (\<lambda>x. x \<noteq> CHR '','') s) # strtok (dropWhile (\<lambda>x. x \<noteq> CHR '','') s))"
  by pat_completeness auto
termination
  by (relation "measure length") (auto simp: le_imp_less_Suc length_dropWhile_le)

definition visitSgNameGroup :: "'s handler" where
  "visitSgNameGroup E \<sigma> A ks =
     (if \<not> hasAttr A ''group'' then Inl (Fatal ''SgNameGroup needs an attribute, group'')
      else if \<not> hasAttr A ''names'' then Inl (Fatal ''SgNameGroup needs an attribute, names'')
      else Inr (built (SgSupp (NameGroup (getStr A ''group'' []) (strtok (getStr A ''names'' [])))) [] []))"

fun join_names :: "string list \<Rightarrow> string" where
  "join_names [] = []"
| "join_names [s] = s"
| "join_names (s # ss) = s @ '','' @ join_names ss"

definition attribSgNameGroup :: "string \<Rightarrow> string list \<Rightarrow> chunk list" where
  "attribSgNameGroup gname nl =
     [raw ''group'' gname sp] @ only (nl \<noteq> []) [raw ''names'' (join_names nl) sp]"

text \<open>The names come back when none of them is empty or has a comma in it.\<close>

definition name_ok :: "string \<Rightarrow> bool" where
  "name_ok s \<longleftrightarrow> s \<noteq> [] \<and> CHR '','' \<notin> set s"

lemma comma_free:
  assumes "CHR '','' \<notin> set u"
  shows "takeWhile (\<lambda>x. x \<noteq> CHR '','') u = u" "dropWhile (\<lambda>x. x \<noteq> CHR '','') u = []"
  using assms by (auto simp: takeWhile_eq_all_conv dropWhile_eq_Nil_conv)

lemma strtok_name: "name_ok s \<Longrightarrow> strtok s = [s]"
  by (cases s) (auto simp: name_ok_def comma_free)

lemma strtok_name_comma:
  assumes "name_ok s"
  shows "strtok (s @ CHR '','' # t) = s # strtok t"
proof -
  obtain c u where s: "s = c # u" "c \<noteq> CHR '',''" "\<forall>x \<in> set u. x \<noteq> CHR '',''"
    using assms by (cases s) (auto simp: name_ok_def)
  then show ?thesis by (simp add: takeWhile_append dropWhile_append)
qed

lemma strtok_join: "list_all name_ok nl \<Longrightarrow> strtok (join_names nl) = nl"
  by (induction nl rule: join_names.induct) (simp_all add: strtok_name strtok_name_comma)

subsection \<open>Pragmas and the typedef sequence\<close>

definition visitSgPragma :: "'s handler" where
  "visitSgPragma E \<sigma> A ks =
     (if \<not> hasAttr A ''pragma'' then Inl (Fatal ''SgPragma needs an attribute, pragma'')
      else Inr (built (SgSupp (Pragma (getStr A ''pragma'' []))) [] []))"

definition attribSgPragma :: "string \<Rightarrow> chunk list" where
  "attribSgPragma p = [esc ''pragma'' p sp]"

definition visitSgTypedefSeq :: "'s handler" where
  "visitSgTypedefSeq E \<sigma> A ks = Inr (built (SgSupp TypedefSeq) [] [])"

subsection \<open>The source file\<close>

text \<open>
  The reader has one file object; a global scope among the children becomes its scope. Language and
  format are variables without a value until their attribute is read. 2 and 3 are C and C++, 4 is
  Fortran with the formats 1 (fixed) and 2 (free); other languages leave the object as it was made.
\<close>

definition last_global :: "sgnode list \<Rightarrow> sgnode option" where
  "last_global ns = first_of isSgGlobal (rev ns)"

definition uninitialised :: "'a res" where
  "uninitialised = Inl (Undef ''uninitialised variable read'')"

definition visitSgSourceFile :: "'s handler" where
  "visitSgSourceFile E \<sigma> A ks =
     bind_res (getInt A ''lang'' 0) (\<lambda>langid. bind_res (getInt A ''ofmt'' 0) (\<lambda>fmtid.
       if \<not> hasAttr A ''file'' then Inl (Fatal ''SgSourceFile needs an attribute, file'')
       else if \<not> hasAttr A ''version'' then Inl (Fatal ''SgSourceFile needs an attribute, version'')
       else if \<not> hasAttr A ''format'' then Inl (Fatal ''SgSourceFile needs an attribute, format'')
       else if \<not> hasAttr A ''lang'' then uninitialised
       else let file = (\<lambda>l f. Inr (Node (hdr0\<lparr>h_file := Some transformation\<rparr>)
                 (SgSupp (SourceFile (getStr A ''file'' []) l f)) [last_global (nodes ks)] []))
            in if langid = 2 \<or> langid = 3 then file 2 (r_default_format E)
               else if langid = 4
               then (if \<not> hasAttr A ''ofmt'' then uninitialised
                     else file 4 (if fmtid = 1 then 1 else 2))
               else file (r_default_lang E) (r_default_format E)))"

definition attribSgSourceFile :: "'s rose \<Rightarrow> string \<Rightarrow> int \<Rightarrow> int \<Rightarrow> chunk list" where
  "attribSgSourceFile E file lang ofmt =
     [raw ''file'' file [], num ''lang'' lang [], num ''ofmt'' ofmt [],
      raw ''version'' (r_version E) [], raw ''format'' (r_xml_format E) []]"

subsection \<open>Located support nodes\<close>

definition visitSgCommonBlockObject :: "'s handler" where
  "visitSgCommonBlockObject E \<sigma> A ks =
     need ''SgCommonBlockObject needs a child node of SgExprLisExp''
       (first_of isSgExprListExp (nodes ks))
       (\<lambda>para. Inr (built (SgLSup (CommonBlockObject (getStr A ''name'' []))) [Some para] []))"

definition attribSgCommonBlockObject :: "string \<Rightarrow> chunk list" where
  "attribSgCommonBlockObject name = [raw ''name'' name sp]"

text \<open>
  A variable: its initializer is the successor, its type the inner slot. A Cray pointer also refers to
  an earlier variable, found by its name.
\<close>

definition isSgTypeCrayPointer :: "sgnode option \<Rightarrow> bool" where
  "isSgTypeCrayPointer t \<longleftrightarrow> (case t of None \<Rightarrow> False | Some n \<Rightarrow> cls n = SgType (SimpleType TypeCrayPointer))"

definition read_prev :: "'s rose \<Rightarrow> 's \<Rightarrow> attrs \<Rightarrow> sgnode option \<Rightarrow> string option res" where
  "read_prev E \<sigma> A typ =
     (if isSgTypeCrayPointer typ \<and> hasAttr A ''prev''
      then (case r_find_var E \<sigma> (getStr A ''prev'' []) of
          None \<Rightarrow> Inl (Fatal ''variable symbol not found for cray pointer'')
        | Some False \<Rightarrow> Inl (Fatal ''invalid variable symbol for cray pointer'')
        | Some True \<Rightarrow> Inr (Some (getStr A ''prev'' [])))
      else Inr None)"

definition scan_short :: "string \<Rightarrow> int option" where
  "scan_short = scan_int (- (2 ^ 15)) (2 ^ 15 - 1)"

definition visitSgInitializedName :: "'s handler" where
  "visitSgInitializedName E \<sigma> A ks =
     (let ini = first_of isSgInitializer (nodes ks); typ = first_of isSgType (nodes ks); fresh = r_name_attribs E in
      bind_res (getULong A ''storage_modifier'' (r_storage_default E)) (\<lambda>st.
      bind_res (getULong A ''gnu_attrib'' 0) (\<lambda>attrib.
      bind_res (read_prev E \<sigma> A typ) (\<lambda>prev.
      bind_res (getInt A ''empty_bracket'' 0) (\<lambda>brackets.
      bind_res (getNum scan_short A ''alignment'' 0) (\<lambda>align.
        Inr (built (SgLSup (InitializedName (getStr A ''name'' []) prev st (brackets \<noteq> 0)
            (if hasAttr A ''alignment'' \<and> 0 \<le> align then align else r_name_align E)
            (if hasAttr A ''gnu_attrib'' then unpack_bits (length fresh) (of_int attrib) else fresh)))
          [ini] [typ])))))))"

definition attribSgInitializedName ::
    "'s rose \<Rightarrow> sgnode \<Rightarrow> string \<Rightarrow> string option \<Rightarrow> int \<Rightarrow> bool \<Rightarrow> int \<Rightarrow> bool list \<Rightarrow> chunk list" where
  "attribSgInitializedName E n name prev storage brackets align attrib =
     [raw ''name'' name sp]
     @ only (isSgTypeCrayPointer (slot 0 (inner n))) (opt prev (\<lambda>p. [raw ''prev'' p sp]))
     @ only (storage \<noteq> r_storage_default E) [num ''storage_modifier'' storage sp]
     @ only brackets [flag ''empty_bracket'' True sp]
     @ only (0 \<le> align) [num ''alignment'' align sp]
     @ only (pack_bits attrib \<noteq> 0) [num ''gnu_attrib'' (uint (pack_bits attrib)) sp]"

definition inodeSgInitializedName :: "sgnode \<Rightarrow> sgnode list" where
  "inodeSgInitializedName n = the_list [slot 0 (inner n)]"

text \<open>
  An interface body holds a function declaration, as its inner slot, or the name of a function; the
  declaration of a body that uses the name is not looked at.
\<close>

definition visitSgInterfaceBody :: "'s handler" where
  "visitSgInterfaceBody E \<sigma> A ks =
     (let name = getStr A ''name'' [] in
      case first_of isSgFunctionDeclaration (nodes ks) of
        Some bdy \<Rightarrow> Inr (built (SgLSup (InterfaceBody None)) [] [Some bdy])
      | None \<Rightarrow> if name \<noteq> [] then Inr (built (SgLSup (InterfaceBody (Some name))) [] [None])
                else Inl (Fatal ''SgInterfaceBody needs either SgFunctionDeclaration node or name attribute''))"

definition attribSgInterfaceBody :: "string option \<Rightarrow> chunk list" where
  "attribSgInterfaceBody name = opt name (\<lambda>s. [raw ''name'' s sp])"

definition inodeSgInterfaceBody :: "sgnode \<Rightarrow> string option \<Rightarrow> sgnode list" where
  "inodeSgInterfaceBody n name = (if name = None then the_list [slot 0 (inner n)] else [])"

definition visitSgRenamePair :: "'s handler" where
  "visitSgRenamePair E \<sigma> A ks =
     (if \<not> hasAttr A ''lname'' then Inl (Fatal ''SgRenamePair needs an attribute, lname'')
      else if \<not> hasAttr A ''uname'' then Inl (Fatal ''SgRenamePair needs an attribute, uname'')
      else Inr (built (SgLSup (RenamePair (getStr A ''lname'' []) (getStr A ''uname'' []))) [] []))"

definition attribSgRenamePair :: "string \<Rightarrow> string \<Rightarrow> chunk list" where
  "attribSgRenamePair lname uname = [raw ''lname'' lname [], raw ''uname'' uname []]"

subsection \<open>Dispatch on the class\<close>

primrec attribs_supp :: "'s rose \<Rightarrow> sgnode \<Rightarrow> suppcls \<Rightarrow> chunk list" where
  "attribs_supp E n (DataStatementGroup k) = []"
| "attribs_supp E n DataStatementObject = []"
| "attribs_supp E n (DataStatementValue fmt) = attribSgDataStatementValue fmt"
| "attribs_supp E n (FormatItem d r) = attribSgFormatItem n d r"
| "attribs_supp E n FunctionParameterTypeList = []"
| "attribs_supp E n (NameGroup g nl) = attribSgNameGroup g nl"
| "attribs_supp E n (Pragma p) = attribSgPragma p"
| "attribs_supp E n (SourceFile f l fmt) = attribSgSourceFile E f l fmt"
| "attribs_supp E n TypedefSeq = []"

fun inode_supp :: "sgnode \<Rightarrow> suppcls \<Rightarrow> sgnode list" where
  "inode_supp n (DataStatementGroup k) = inodeSgDataStatementGroup k n"
| "inode_supp n DataStatementObject = inodeSgDataStatementObject n"
| "inode_supp n (DataStatementValue fmt) = inodeSgDataStatementValue n"
| "inode_supp n (FormatItem d r) = inodeSgFormatItem n"
| "inode_supp n FunctionParameterTypeList = inodeSgFunctionParameterTypeList n"
| "inode_supp n s = []"

primrec supp_handler :: "suppcls \<Rightarrow> 's handler" where
  "supp_handler (DataStatementGroup k) = visitSgDataStatementGroup"
| "supp_handler DataStatementObject = visitSgDataStatementObject"
| "supp_handler (DataStatementValue fmt) = visitSgDataStatementValue"
| "supp_handler (FormatItem d r) = visitSgFormatItem"
| "supp_handler FunctionParameterTypeList = visitSgFunctionParameterTypeList"
| "supp_handler (NameGroup g nl) = visitSgNameGroup"
| "supp_handler (Pragma p) = visitSgPragma"
| "supp_handler (SourceFile f l fmt) = visitSgSourceFile"
| "supp_handler TypedefSeq = visitSgTypedefSeq"

primrec attribs_lsupp :: "'s rose \<Rightarrow> sgnode \<Rightarrow> lsuppcls \<Rightarrow> chunk list" where
  "attribs_lsupp E n (CommonBlockObject nm) = attribSgCommonBlockObject nm"
| "attribs_lsupp E n (InitializedName nm p s e a g) = attribSgInitializedName E n nm p s e a g"
| "attribs_lsupp E n (InterfaceBody nm) = attribSgInterfaceBody nm"
| "attribs_lsupp E n (RenamePair l u) = attribSgRenamePair l u"

primrec inode_lsupp :: "sgnode \<Rightarrow> lsuppcls \<Rightarrow> sgnode list" where
  "inode_lsupp n (CommonBlockObject nm) = []"
| "inode_lsupp n (InitializedName nm p s e a g) = inodeSgInitializedName n"
| "inode_lsupp n (InterfaceBody nm) = inodeSgInterfaceBody n nm"
| "inode_lsupp n (RenamePair l u) = []"

primrec lsupp_handler :: "lsuppcls \<Rightarrow> 's handler" where
  "lsupp_handler (CommonBlockObject nm) = visitSgCommonBlockObject"
| "lsupp_handler (InitializedName nm p s e a g) = visitSgInitializedName"
| "lsupp_handler (InterfaceBody nm) = visitSgInterfaceBody"
| "lsupp_handler (RenamePair l u) = visitSgRenamePair"

subsection \<open>Reading back\<close>

definition lang_ok :: "'s rose \<Rightarrow> int \<Rightarrow> int \<Rightarrow> bool" where
  "lang_ok E l fmt \<longleftrightarrow> l = 2 \<and> fmt = r_default_format E \<and> int32 fmt \<or> l = 4 \<and> fmt \<in> {1, 2}"

primrec supp_shape ::
    "'s rose \<Rightarrow> suppcls \<Rightarrow> sgnode option list \<Rightarrow> sgnode option list \<Rightarrow> bool" where
  "supp_shape E (DataStatementGroup k) ss ns =
     (slots [] ss \<and> k \<le> length ns \<and> list_all (req isSgDataStatementObject) (take k ns) \<and>
      list_all (req isSgDataStatementValue) (drop k ns))"
| "supp_shape E DataStatementObject ss ns = (slots [] ss \<and> slots [req isSgExprListExp] ns)"
| "supp_shape E (DataStatementValue fmt) ss ns =
     (slots [] ss \<and> slots [req isSgExprListExp, may isSgExpression, may isSgExpression] ns \<and>
      (slot 1 ns = None \<longrightarrow> slot 2 ns = None) \<and> int32 fmt)"
| "supp_shape E (FormatItem d r) ss ns =
     (slots [] ss \<and> ns \<noteq> [] \<and> may isSgExpression (hd ns) \<and> list_all (req isSgFormatItem) (tl ns) \<and> int32 r \<and>
      (hd ns \<noteq> None \<longrightarrow> r \<noteq> 0 \<or> tl ns \<noteq> []) \<and>
      (d \<longrightarrow> (case hd ns of None \<Rightarrow> False | Some x \<Rightarrow> string_value (cls x) \<noteq> None)))"
| "supp_shape E FunctionParameterTypeList ss ns = (slots [] ss \<and> list_all (req isSgType) ns)"
| "supp_shape E (NameGroup g nl) ss ns =
     (slots [] ss \<and> slots [] ns \<and> safe g \<and> nl \<noteq> [] \<and> list_all name_ok nl \<and> safe (join_names nl))"
| "supp_shape E (Pragma p) ss ns = (slots [] ss \<and> slots [] ns)"
| "supp_shape E (SourceFile f l fmt) ss ns =
     (slots [may isSgGlobal] ss \<and> slots [] ns \<and> safe f \<and> lang_ok E l fmt)"
| "supp_shape E TypedefSeq ss ns = (slots [] ss \<and> slots [] ns)"

definition prev_ok :: "'s rose \<Rightarrow> sgnode option \<Rightarrow> string option \<Rightarrow> bool" where
  "prev_ok E typ p \<longleftrightarrow> (case p of None \<Rightarrow> True
     | Some nm \<Rightarrow> isSgTypeCrayPointer typ \<and> safe nm \<and> (\<forall>\<sigma>. r_find_var E \<sigma> nm = Some True))"

primrec lsupp_shape ::
    "'s rose \<Rightarrow> lsuppcls \<Rightarrow> sgnode option list \<Rightarrow> sgnode option list \<Rightarrow> bool" where
  "lsupp_shape E (CommonBlockObject nm) ss ns = (slots [req isSgExprListExp] ss \<and> slots [] ns \<and> safe nm)"
| "lsupp_shape E (InitializedName nm p st e a g) ss ns =
     (slots [may isSgInitializer] ss \<and> slots [may isSgType] ns \<and> safe nm \<and> prev_ok E (slot 0 ns) p \<and>
      0 \<le> st \<and> st < 2 ^ 64 \<and> (0 \<le> a \<and> a < 2 ^ 15 \<or> a = r_name_align E \<and> a < 0) \<and>
      vec_ok (r_name_attribs E) g \<and> (pack_bits g = 0 \<longrightarrow> g = r_name_attribs E))"
| "lsupp_shape E (InterfaceBody nm) ss ns =
     (slots [] ss \<and> (case nm of None \<Rightarrow> slots [req isSgFunctionDeclaration] ns
                     | Some s \<Rightarrow> slots [none] ns \<and> safe s \<and> s \<noteq> []))"
| "lsupp_shape E (RenamePair l u) ss ns = (slots [] ss \<and> slots [] ns \<and> safe l \<and> safe u)"

text \<open>The header a support node is built with; only the file has one of its own.\<close>

fun supp_hdr :: "suppcls \<Rightarrow> hdr" where
  "supp_hdr (SourceFile f l fmt) = hdr0\<lparr>h_file := Some transformation\<rparr>"
| "supp_hdr s = hdr0"

lemmas supp_defs = visitSgDataStatementGroup_def visitSgDataStatementObject_def
  visitSgDataStatementValue_def visitSgFunctionParameterTypeList_def visitSgNameGroup_def
  visitSgPragma_def visitSgTypedefSeq_def visitSgSourceFile_def attribSgDataStatementValue_def
  attribSgNameGroup_def attribSgPragma_def attribSgSourceFile_def visitSgCommonBlockObject_def
  visitSgRenamePair_def attribSgCommonBlockObject_def attribSgRenamePair_def visitSgFormatItem_def
  attribSgFormatItem_def visitSgInitializedName_def attribSgInitializedName_def visitSgInterfaceBody_def
  attribSgInterfaceBody_def

lemma group_kids:
  assumes "list_all (req isSgDataStatementObject) xs" "list_all (req isSgDataStatementValue) ys" "keeps f"
  shows "filter isSgDataStatementObject (map f (the_list xs @ the_list ys)) = map f (the_list xs)"
    "filter isSgDataStatementValue (map f (the_list xs @ the_list ys)) = map f (the_list ys)"
    "map Some (map f (the_list xs @ the_list ys)) = map (map_option f) (xs @ ys)"
proof -
  have val: "\<not> is_cls (SgSupp DataStatementObject) n" if "isSgDataStatementValue n" for n
    using that by (cases n rule: isSgDataStatementValue.cases) auto
  have obj: "\<not> isSgDataStatementValue n" if "is_cls (SgSupp DataStatementObject) n" for n
    using that val by blast
  have xs: "\<forall>n \<in> set (the_list xs). is_cls (SgSupp DataStatementObject) n"
    using assms(1) by (auto simp: set_the_list list_all_iff)
  have ys: "\<forall>n \<in> set (the_list ys). isSgDataStatementValue n"
    using assms(2) by (auto simp: set_the_list list_all_iff)
  show "filter isSgDataStatementObject (map f (the_list xs @ the_list ys)) = map f (the_list xs)"
    "filter isSgDataStatementValue (map f (the_list xs @ the_list ys)) = map f (the_list ys)"
    using xs ys val obj assms(3) by (auto simp: filter_id_conv filter_empty_conv)
  have "None \<notin> set (xs @ ys)" using assms(1,2) by (auto simp: list_all_iff)
  then show "map Some (map f (the_list xs @ the_list ys)) = map (map_option f) (xs @ ys)"
    by (metis map_Some_the_list the_list_simps(4))
qed

text \<open>A number that is not negative, read into an \<open>unsigned long\<close> or a \<open>short\<close>.\<close>

lemma scan_short_show [simp]:
  "0 \<le> v \<Longrightarrow> v < 2 ^ 15 \<Longrightarrow> scan_short (show_int v) = Some v"
  unfolding scan_short_def by (rule show_int_scan) simp_all

lemma read_prev_written:
  assumes "prev_ok E typ p" "keeps f"
    "look cs ''prev'' = (if isSgTypeCrayPointer typ then p else None)"
  shows "read_prev E \<sigma> (decode_attrs cs) (map_option f typ) = Inr p"
  using assms by (auto simp: read_prev_def prev_ok_def look_access isSgTypeCrayPointer_def split: option.splits)

lemma slots_first:
  assumes "keeps f" "may isSgInitializer x" "may isSgType y"
  shows "first_of isSgInitializer (map f (the_list [x, y])) = map_option f x"
    "first_of isSgType (map f (the_list [x, y])) = map_option f y"
  using assms by (cases x; cases y; auto elim!: test_elims)+

lemma read_name:
  assumes shape: "lsupp_shape E (InitializedName nm p st e a g) ss ns" and f: "keeps f"
    and kids: "nodes ks = map f (the_list ss @ inodeSgInitializedName (Node h c ss ns))"
  shows "visitSgInitializedName E \<sigma>
      (decode_attrs (attribSgInitializedName E (Node h c ss ns) nm p st e a g @ only u [flag ''unparse'' False sp])) ks =
    Inr (built (SgLSup (InitializedName nm p st e a g)) (map (map_option f) ss) (map (map_option f) ns))"
proof -
  obtain i t where s: "ss = [i]" "ns = [t]" "may isSgInitializer i" "may isSgType t" using shape by auto
  have k: "nodes ks = map f (the_list [i, t])"
    using kids s by (cases i) (simp_all add: inodeSgInitializedName_def)
  let ?cs = "attribSgInitializedName E (Node h c ss ns) nm p st e a g @ only u [flag ''unparse'' False sp]"
  have "look ?cs ''prev'' = (if isSgTypeCrayPointer t then p else None)"
    using shape s by (auto simp: attribSgInitializedName_def prev_ok_def split: option.splits)
  then have p: "read_prev E \<sigma> (decode_attrs ?cs) (map_option f t) = Inr p"
    using shape s f by (intro read_prev_written) simp_all
  have "0 \<le> a \<longrightarrow> a < 2 ^ 15" using shape by auto
  then have acc: "getULong (decode_attrs ?cs) ''storage_modifier'' (r_storage_default E) = Inr st"
    "getULong (decode_attrs ?cs) ''gnu_attrib'' 0 = Inr (uint (pack_bits g))"
    "hasAttr (decode_attrs ?cs) ''gnu_attrib'' \<longleftrightarrow> pack_bits g \<noteq> 0"
    "getInt (decode_attrs ?cs) ''empty_bracket'' 0 = Inr (of_bool e)"
    "getNum scan_short (decode_attrs ?cs) ''alignment'' 0 = Inr (if 0 \<le> a then a else 0)"
    "hasAttr (decode_attrs ?cs) ''alignment'' \<longleftrightarrow> 0 \<le> a"
    "getStr (decode_attrs ?cs) ''name'' [] = nm"
    using shape by (simp_all add: attribSgInitializedName_def look_access opt_def split: option.splits)
  have g: "vec_ok (r_name_attribs E) g" "pack_bits g = 0 \<longrightarrow> g = r_name_attribs E"
    and a: "a < 0 \<longrightarrow> a = r_name_align E" using shape by auto
  have t: "first_of isSgInitializer (nodes ks) = map_option f i" "first_of isSgType (nodes ks) = map_option f t"
    unfolding k using slots_first [OF f s(3,4)] by simp_all
  show ?thesis
    unfolding visitSgInitializedName_def Let_def t acc
    using p g a s by simp
qed

lemma read_lsupp:
  assumes shape: "lsupp_shape E s ss ns" and f: "keeps f"
    and kids: "nodes ks = map f (the_list ss @ inode_lsupp (Node h (SgLSup s) ss ns) s)"
  shows "lsupp_handler s E \<sigma> (decode_attrs (attribs_lsupp E (Node h (SgLSup s) ss ns) s
      @ only u [flag ''unparse'' False sp])) ks =
    Inr (built (SgLSup s) (map (map_option f) ss) (map (map_option f) ns))"
proof (cases s)
  case (InitializedName nm p st e a g)
  then show ?thesis using read_name [of E nm p st e a g ss ns f ks h "SgLSup s" \<sigma> u] shape f kids by simp
next
  case (InterfaceBody nm)
  then show ?thesis using shape f kids
    by (cases nm) (auto simp: supp_defs look_access inodeSgInterfaceBody_def)
qed (use shape f kids in \<open>auto simp: supp_defs look_access\<close>)

lemma read_format_item:
  assumes shape: "supp_shape E (FormatItem d r) ss ns" and f: "keeps f"
    and kids: "nodes ks = map f (inodeSgFormatItem (Node h c ss ns))"
  shows "visitSgFormatItem E \<sigma> (decode_attrs (attribSgFormatItem (Node h c ss ns) d r)) ks =
    Inr (built (SgSupp (FormatItem d r)) [] (map (map_option f) ns))"
proof -
  obtain x il where n: "ns = x # il" "may isSgExpression x" "list_all (req isSgFormatItem) il" "int32 r"
    using shape by (cases ns) auto
  have k: "nodes ks = map f (the_list [x]) @ map f (the_list il)"
    using kids n by (simp add: inodeSgFormatItem_def)
  have il: "\<forall>y \<in> set (the_list il). isSgFormatItem y \<and> \<not> isSgExpression y"
  proof -
    have "isSgFormatItem y \<Longrightarrow> \<not> isSgExpression y" for y by (cases y rule: isSgExpression.cases) auto
    then show ?thesis using n(3) by (auto simp: set_the_list list_all_iff)
  qed
  have e: "first_of isSgExpression (nodes ks) = map_option f x"
  proof -
    have "first_of isSgExpression (map f (the_list il)) = None" using il f by (auto simp: first_of_None)
    then show ?thesis using n(2) f unfolding k by (cases x) (simp_all add: first_of_append)
  qed
  have i: "map Some (filter isSgFormatItem (nodes ks)) = map (map_option f) il"
  proof -
    have "filter isSgFormatItem (map f (the_list [x])) = []"
      using n(2) f by (cases x) (auto elim!: isSgExpression.elims(2))
    then show ?thesis using filter_req [OF n(3), of f] f unfolding k by simp
  qed
  have i0: "filter isSgFormatItem (nodes ks) = [] \<longleftrightarrow> il = []" using i by (metis map_is_Nil_conv)
  have q: "map_option use_single_quotes (map_option f x) = map_option f x" if sq: "single_quoted x"
  proof -
    obtain y where "x = Some y" using sq by (cases x) (auto simp: single_quoted_def)
    then obtain h' s b c d ss' ns' where y: "x = Some (Node h' (SgExpr (StringVal s True b c d)) ss' ns')"
      using sq by (cases y rule: use_single_quotes.cases) (auto simp: single_quoted_def)
    then have "cls (f (Node h' (SgExpr (StringVal s True b c d)) ss' ns')) = SgExpr (StringVal s True b c d)"
      using f by simp
    then show ?thesis using y by (cases "f (Node h' (SgExpr (StringVal s True b c d)) ss' ns')") simp
  qed
  have sv: "(case map_option f x of None \<Rightarrow> False | Some e \<Rightarrow> string_value (cls e) \<noteq> None) \<longleftrightarrow>
      (case x of None \<Rightarrow> False | Some e \<Rightarrow> string_value (cls e) \<noteq> None)"
    using f by (cases x) simp_all
  let ?A = "decode_attrs (attribSgFormatItem (Node h c ss ns) d r)"
  have acc: "getInt ?A ''single'' 0 = Inr (of_bool (single_quoted x))" "getInt ?A ''double'' 0 = Inr (of_bool d)"
    "getInt ?A ''list'' 0 = Inr (of_bool (il \<noteq> []))" "getInt ?A ''repeat'' 0 = Inr r"
    using n by (simp_all add: attribSgFormatItem_def look_access int32_def)
  have ok: "x \<noteq> None \<longrightarrow> r \<noteq> 0 \<or> il \<noteq> []"
    and d: "d \<longrightarrow> (case x of None \<Rightarrow> False | Some e \<Rightarrow> string_value (cls e) \<noteq> None)"
    using shape n(1) by auto
  have sq: "single_quoted x \<longrightarrow> (case x of None \<Rightarrow> False | Some e \<Rightarrow> string_value (cls e) \<noteq> None)"
    by (auto simp: single_quoted_def split: option.splits sgnode.splits sgcls.splits exprcls.splits)
  show ?thesis
    unfolding visitSgFormatItem_def Let_def acc e sv
    using ok d sq q i i0 n(1) by (cases d; cases "single_quoted x") auto
qed

lemma read_supp:
  assumes shape: "supp_shape E s ss ns" and f: "keeps f"
    and kids: "nodes ks = map f (the_list ss @ inode_supp (Node h (SgSupp s) ss ns) s)"
  shows "supp_handler s E \<sigma> (decode_attrs (attribs_supp E (Node h (SgSupp s) ss ns) s)) ks =
    Inr (Node (supp_hdr s) (SgSupp s) (map (map_option f) ss) (map (map_option f) ns))"
proof (cases s)
  case (DataStatementGroup k)
  then have s: "ss = []" and k: "k \<le> length ns"
    and o: "list_all (req isSgDataStatementObject) (take k ns)"
    and v: "list_all (req isSgDataStatementValue) (drop k ns)" using shape by auto
  have "length (the_list (take k ns)) = k"
    using o k by (subst length_the_list) (auto simp: list_all_iff)
  moreover have "nodes ks = map f (the_list (take k ns) @ the_list (drop k ns))"
    using kids DataStatementGroup s by (simp add: inodeSgDataStatementGroup_def)
  moreover note group_kids [OF o v f]
  ultimately show ?thesis using DataStatementGroup s by (simp add: supp_defs)
next
  case (DataStatementValue fmt)
  then obtain l r c where y: "ss = []" "ns = [Some l, r, c]" "isSgExprListExp l" "may isSgExpression r"
    "may isSgExpression c" "r = None \<longrightarrow> c = None" "int32 fmt" using shape by auto
  then show ?thesis using DataStatementValue kids f
    by (cases r; cases c) (auto simp: supp_defs look_access inodeSgDataStatementValue_def fill_def)
next
  case (FormatItem d r)
  then show ?thesis using read_format_item [of E d r ss ns f ks h "SgSupp s" \<sigma>] shape f kids by simp
next
  case FunctionParameterTypeList
  then have l: "list_all (req isSgType) ns" and s: "ss = []" and k: "nodes ks = map f (the_list ns)"
    using shape kids by (simp_all add: inodeSgFunctionParameterTypeList_def)
  have "map Some (filter isSgType (nodes ks)) = map (map_option f) ns"
    unfolding k using f by (intro filter_req [OF l]) simp
  moreover have "first_of isSgExprListExp (nodes ks) = None"
    using l f unfolding k first_of_None
    by (auto simp: set_the_list list_all_iff elim!: test_elims)
  ultimately show ?thesis using FunctionParameterTypeList s by (simp add: supp_defs)
next
  case (SourceFile fn l fmt)
  then obtain g where "ss = [g]" "ns = []" "may isSgGlobal g" "safe fn" "lang_ok E l fmt"
    using shape by auto
  then show ?thesis using SourceFile kids f
    by (cases g) (auto simp: supp_defs look_access lang_ok_def last_global_def int32_def)
qed (use shape kids f in \<open>auto simp: supp_defs look_access inodeSgDataStatementObject_def strtok_join\<close>)

end
