(* ===== verification/IoStmt.thy ===== *)
theory IoStmt
  imports Codec
begin

text \<open>
  The Fortran input/output statements of \<open>src/stmt.cpp\<close>. The writer wraps every control expression
  into a temporary \<open>SgActualArgumentExpression\<close> named after it; the reader finds the field to set
  by that name. The interface \<open>io_codec\<close> says what a pair of tables must satisfy for this to bring
  every expression back to its field; the statements whose tables do are its interpretations.
\<close>

subsection \<open>Fields and their names\<close>

datatype iofield =
    IOSTMT_FMT | IOSTMT_IOLENGTH | IOSTMT_UNIT | IOSTMT_IOSTAT | IOSTMT_ERR | IOSTMT_IOMSG
  | IOSTMT_FILE | IOSTMT_ACCESS | IOSTMT_FORM | IOSTMT_RECL | IOSTMT_BLANK | IOSTMT_EXIST
  | IOSTMT_OPENED | IOSTMT_NUMBER | IOSTMT_NAMED | IOSTMT_NAME | IOSTMT_SEQUENTIAL
  | IOSTMT_DIRECT | IOSTMT_FORMATTED | IOSTMT_UNFORMATTED | IOSTMT_NEXTREC | IOSTMT_POSITION
  | IOSTMT_ACTION | IOSTMT_READ | IOSTMT_WRITE | IOSTMT_READWRITE | IOSTMT_DELIM | IOSTMT_PAD
  | IOSTMT_ASYNCHRONOUS | IOSTMT_DECIMAL | IOSTMT_STREAM | IOSTMT_SIZE | IOSTMT_PENDING
  | IOSTMT_STATUS | IOSTMT_ROUND | IOSTMT_SIGN | IOSTMT_ADVANCE | IOSTMT_REC | IOSTMT_END
  | IOSTMT_EOR | IOSTMT_NML

text \<open>\<open>allocIostmtAttrib\<close>: the table from names to fields.\<close>

definition g_iostmtAttrib :: "(string \<times> iofield) list" where
  "g_iostmtAttrib =
    [(''fmt'', IOSTMT_FMT), (''iolength'', IOSTMT_IOLENGTH), (''unit'', IOSTMT_UNIT),
       (''iostat'', IOSTMT_IOSTAT), (''err'', IOSTMT_ERR), (''iomsg'', IOSTMT_IOMSG),
       (''file'', IOSTMT_FILE), (''access'', IOSTMT_ACCESS), (''form'', IOSTMT_FORM),
       (''recl'', IOSTMT_RECL), (''blank'', IOSTMT_BLANK), (''exist'', IOSTMT_EXIST),
       (''opened'', IOSTMT_OPENED), (''number'', IOSTMT_NUMBER), (''named'', IOSTMT_NAMED),
       (''name'', IOSTMT_NAME), (''sequential'', IOSTMT_SEQUENTIAL),
       (''direct'', IOSTMT_DIRECT), (''formatted'', IOSTMT_FORMATTED),
       (''unformatted'', IOSTMT_UNFORMATTED), (''nextrec'', IOSTMT_NEXTREC),
       (''position'', IOSTMT_POSITION), (''action'', IOSTMT_ACTION), (''read'', IOSTMT_READ),
       (''write'', IOSTMT_WRITE), (''readwrite'', IOSTMT_READWRITE), (''delim'', IOSTMT_DELIM),
       (''pad'', IOSTMT_PAD), (''asynchronous'', IOSTMT_ASYNCHRONOUS),
       (''decimal'', IOSTMT_DECIMAL), (''stream'', IOSTMT_STREAM), (''size'', IOSTMT_SIZE),
       (''pending'', IOSTMT_PENDING), (''status'', IOSTMT_STATUS), (''round'', IOSTMT_ROUND),
       (''sign'', IOSTMT_SIGN), (''advance'', IOSTMT_ADVANCE), (''rec'', IOSTMT_REC),
       (''end'', IOSTMT_END), (''eor'', IOSTMT_EOR), (''nml'', IOSTMT_NML)]"

text \<open>
  The control expressions a statement has, besides its item list; they are its successors in this
  order, after the list.
\<close>

definition io_common :: "iofield list" where
  "io_common = [IOSTMT_UNIT, IOSTMT_IOSTAT, IOSTMT_ERR, IOSTMT_IOMSG]"

fun io_fields :: "iokind \<Rightarrow> iofield list" where
  "io_fields Open = io_common @
    [IOSTMT_FILE, IOSTMT_STATUS, IOSTMT_ACCESS, IOSTMT_FORM, IOSTMT_RECL, IOSTMT_BLANK,
       IOSTMT_POSITION, IOSTMT_ACTION, IOSTMT_DELIM, IOSTMT_PAD, IOSTMT_ROUND, IOSTMT_SIGN,
       IOSTMT_ASYNCHRONOUS]"
| "io_fields Close = io_common @ [IOSTMT_STATUS]"
| "io_fields Print = [IOSTMT_FMT]"
| "io_fields Read = io_common @
    [IOSTMT_FMT, IOSTMT_REC, IOSTMT_END, IOSTMT_NML, IOSTMT_ADVANCE, IOSTMT_SIZE, IOSTMT_EOR,
       IOSTMT_ASYNCHRONOUS]"
| "io_fields Write = io_common @
    [IOSTMT_FMT, IOSTMT_REC, IOSTMT_ADVANCE, IOSTMT_NML, IOSTMT_ASYNCHRONOUS]"
| "io_fields Inquire = io_common @
    [IOSTMT_IOLENGTH, IOSTMT_FILE, IOSTMT_ACCESS, IOSTMT_FORM, IOSTMT_RECL, IOSTMT_BLANK,
       IOSTMT_EXIST, IOSTMT_OPENED, IOSTMT_NUMBER, IOSTMT_NAMED, IOSTMT_NAME,
       IOSTMT_SEQUENTIAL, IOSTMT_DIRECT, IOSTMT_FORMATTED, IOSTMT_UNFORMATTED, IOSTMT_NEXTREC,
       IOSTMT_POSITION, IOSTMT_ACTION, IOSTMT_READ, IOSTMT_WRITE, IOSTMT_READWRITE,
       IOSTMT_DELIM, IOSTMT_PAD, IOSTMT_ASYNCHRONOUS, IOSTMT_DECIMAL, IOSTMT_STREAM,
       IOSTMT_SIZE, IOSTMT_PENDING]"
| "io_fields k = io_common"

definition has_list :: "iokind \<Rightarrow> bool" where
  "has_list k \<longleftrightarrow> k \<in> {Print, Read, Write, Inquire}"

subsection \<open>The writer's tables\<close>

text \<open>The calls \<open>TRAVERSE_IF_EXISTS(name, field)\<close> in their order.\<close>

definition writes_default :: "(string \<times> iofield) list" where
  "writes_default =
    [(''unit'', IOSTMT_UNIT), (''iostat'', IOSTMT_IOSTAT), (''err'', IOSTMT_ERR),
       (''iomsg'', IOSTMT_IOMSG)]"

definition writes_Close :: "(string \<times> iofield) list" where
  "writes_Close =
    [(''unit'', IOSTMT_UNIT), (''iostat'', IOSTMT_IOSTAT), (''err'', IOSTMT_ERR),
       (''err'', IOSTMT_IOMSG), (''status'', IOSTMT_STATUS)]"

definition writes_Inquire :: "(string \<times> iofield) list" where
  "writes_Inquire =
    [(''iolength'', IOSTMT_IOLENGTH), (''unit'', IOSTMT_UNIT), (''iostat'', IOSTMT_IOSTAT),
       (''err'', IOSTMT_ERR), (''iomsg'', IOSTMT_IOMSG), (''file'', IOSTMT_FILE),
       (''access'', IOSTMT_ACCESS), (''form'', IOSTMT_FORM), (''recl'', IOSTMT_RECL),
       (''blank'', IOSTMT_BLANK), (''exist'', IOSTMT_EXIST), (''opened'', IOSTMT_OPENED),
       (''number'', IOSTMT_NUMBER), (''named'', IOSTMT_NAMED), (''name'', IOSTMT_NAME),
       (''sequential'', IOSTMT_SEQUENTIAL), (''direct'', IOSTMT_DIRECT),
       (''formatted'', IOSTMT_FORMATTED), (''unformatted'', IOSTMT_UNFORMATTED),
       (''nextrec'', IOSTMT_NEXTREC), (''position'', IOSTMT_POSITION),
       (''action'', IOSTMT_ACTION), (''read'', IOSTMT_READ), (''write'', IOSTMT_WRITE),
       (''readwrite'', IOSTMT_READWRITE), (''delim'', IOSTMT_DELIM), (''pad'', IOSTMT_PAD),
       (''asynchronous'', IOSTMT_ASYNCHRONOUS), (''decimal'', IOSTMT_DECIMAL),
       (''stream'', IOSTMT_STREAM), (''size'', IOSTMT_SIZE), (''padding'', IOSTMT_PENDING)]"

definition writes_Open :: "(string \<times> iofield) list" where
  "writes_Open =
    [(''unit'', IOSTMT_UNIT), (''iostat'', IOSTMT_IOSTAT), (''err'', IOSTMT_ERR),
       (''file'', IOSTMT_FILE), (''status'', IOSTMT_STATUS), (''access'', IOSTMT_ACCESS),
       (''form'', IOSTMT_FORM), (''recl'', IOSTMT_RECL), (''blank'', IOSTMT_BLANK),
       (''position'', IOSTMT_POSITION), (''action'', IOSTMT_ACTION), (''delim'', IOSTMT_DELIM),
       (''pad'', IOSTMT_PAD), (''iomsg'', IOSTMT_IOMSG), (''round'', IOSTMT_ROUND),
       (''sign'', IOSTMT_SIGN), (''asynchronous'', IOSTMT_ASYNCHRONOUS)]"

definition writes_Print :: "(string \<times> iofield) list" where
  "writes_Print = [(''fmt'', IOSTMT_FMT)]"

definition writes_Read :: "(string \<times> iofield) list" where
  "writes_Read =
    [(''unit'', IOSTMT_UNIT), (''iostat'', IOSTMT_IOSTAT), (''err'', IOSTMT_ERR),
       (''iomsg'', IOSTMT_IOMSG), (''fmt'', IOSTMT_FMT), (''rec'', IOSTMT_REC),
       (''end'', IOSTMT_END), (''nml'', IOSTMT_NML), (''advance'', IOSTMT_ADVANCE),
       (''size'', IOSTMT_SIZE), (''eor'', IOSTMT_EOR), (''asynchronous'', IOSTMT_ASYNCHRONOUS)]"

definition writes_Write :: "(string \<times> iofield) list" where
  "writes_Write =
    [(''unit'', IOSTMT_UNIT), (''iostat'', IOSTMT_IOSTAT), (''err'', IOSTMT_ERR),
       (''iomsg'', IOSTMT_IOMSG), (''fmt'', IOSTMT_FMT), (''rec'', IOSTMT_REC),
       (''advance'', IOSTMT_ADVANCE), (''nml'', IOSTMT_NML),
       (''asynchronous'', IOSTMT_ASYNCHRONOUS)]"

fun io_writes :: "iokind \<Rightarrow> (string \<times> iofield) list" where
  "io_writes Close = writes_Close"
| "io_writes Inquire = writes_Inquire"
| "io_writes Open = writes_Open"
| "io_writes Print = writes_Print"
| "io_writes Read = writes_Read"
| "io_writes Write = writes_Write"
| "io_writes k = writes_default"

subsection \<open>The reader's switches\<close>

text \<open>The cases of the switch in each handler.\<close>

definition cases_Backspace :: "iofield list" where
  "cases_Backspace = [IOSTMT_UNIT, IOSTMT_IOSTAT, IOSTMT_ERR, IOSTMT_IOMSG]"

definition cases_Close :: "iofield list" where
  "cases_Close =
    [IOSTMT_UNIT, IOSTMT_IOSTAT, IOSTMT_ERR, IOSTMT_IOMSG, IOSTMT_STATUS]"

definition cases_Endfile :: "iofield list" where
  "cases_Endfile = [IOSTMT_UNIT, IOSTMT_IOSTAT, IOSTMT_ERR, IOSTMT_IOMSG]"

definition cases_Flush :: "iofield list" where
  "cases_Flush = [IOSTMT_UNIT, IOSTMT_IOSTAT, IOSTMT_ERR, IOSTMT_IOMSG]"

definition cases_Inquire :: "iofield list" where
  "cases_Inquire =
    [IOSTMT_IOLENGTH, IOSTMT_UNIT, IOSTMT_IOSTAT, IOSTMT_ERR, IOSTMT_IOMSG, IOSTMT_FILE,
       IOSTMT_ACCESS, IOSTMT_FORM, IOSTMT_RECL, IOSTMT_BLANK, IOSTMT_EXIST, IOSTMT_OPENED,
       IOSTMT_NUMBER, IOSTMT_NAMED, IOSTMT_NAME, IOSTMT_SEQUENTIAL, IOSTMT_DIRECT,
       IOSTMT_FORMATTED, IOSTMT_UNFORMATTED, IOSTMT_NEXTREC, IOSTMT_POSITION, IOSTMT_ACTION,
       IOSTMT_READ, IOSTMT_WRITE, IOSTMT_READWRITE, IOSTMT_DELIM, IOSTMT_PAD,
       IOSTMT_ASYNCHRONOUS, IOSTMT_DECIMAL, IOSTMT_STREAM, IOSTMT_SIZE, IOSTMT_PENDING]"

definition cases_Open :: "iofield list" where
  "cases_Open =
    [IOSTMT_UNIT, IOSTMT_IOSTAT, IOSTMT_ERR, IOSTMT_IOMSG, IOSTMT_FILE, IOSTMT_ACCESS,
       IOSTMT_FORM, IOSTMT_RECL, IOSTMT_BLANK, IOSTMT_POSITION, IOSTMT_ACTION, IOSTMT_DELIM,
       IOSTMT_PAD, IOSTMT_ASYNCHRONOUS, IOSTMT_STATUS, IOSTMT_ROUND, IOSTMT_SIGN]"

definition cases_Print :: "iofield list" where
  "cases_Print = [IOSTMT_FMT]"

definition cases_Read :: "iofield list" where
  "cases_Read =
    [IOSTMT_UNIT, IOSTMT_IOSTAT, IOSTMT_ERR, IOSTMT_IOMSG, IOSTMT_FMT, IOSTMT_REC,
       IOSTMT_END, IOSTMT_NML, IOSTMT_ADVANCE, IOSTMT_SIZE, IOSTMT_EOR, IOSTMT_ASYNCHRONOUS]"

definition cases_Rewind :: "iofield list" where
  "cases_Rewind = [IOSTMT_UNIT, IOSTMT_IOSTAT, IOSTMT_ERR, IOSTMT_IOMSG]"

definition cases_Wait :: "iofield list" where
  "cases_Wait = [IOSTMT_UNIT, IOSTMT_IOSTAT, IOSTMT_ERR, IOSTMT_IOMSG]"

definition cases_Write :: "iofield list" where
  "cases_Write =
    [IOSTMT_UNIT, IOSTMT_IOSTAT, IOSTMT_ERR, IOSTMT_IOMSG, IOSTMT_FMT, IOSTMT_REC,
       IOSTMT_ADVANCE, IOSTMT_NML, IOSTMT_ASYNCHRONOUS]"

fun io_accepts :: "iokind \<Rightarrow> iofield list" where
  "io_accepts Backspace = cases_Backspace"
| "io_accepts Close = cases_Close"
| "io_accepts Endfile = cases_Endfile"
| "io_accepts Flush = cases_Flush"
| "io_accepts Inquire = cases_Inquire"
| "io_accepts Open = cases_Open"
| "io_accepts Print = cases_Print"
| "io_accepts Read = cases_Read"
| "io_accepts Rewind = cases_Rewind"
| "io_accepts Wait = cases_Wait"
| "io_accepts Write = cases_Write"

subsection \<open>The loops\<close>

text \<open>Where a field is among the successors; reading and setting it.\<close>

definition io_pos :: "iokind \<Rightarrow> iofield \<Rightarrow> nat" where
  "io_pos k fd = Suc (length (takeWhile (\<lambda>g. g \<noteq> fd) (io_fields k)))"

definition io_get :: "iokind \<Rightarrow> sgnode option list \<Rightarrow> iofield \<Rightarrow> sgnode option" where
  "io_get k ss fd = slot (io_pos k fd) ss"

definition io_set :: "iokind \<Rightarrow> iofield \<Rightarrow> sgnode \<Rightarrow> sgnode option list \<Rightarrow> sgnode option list" where
  "io_set k fd x ss = ss[io_pos k fd := Some x]"

text \<open>The temporary argument node around a control expression; ROSE builds it as a transformation.\<close>

definition io_arg :: "string \<Rightarrow> sgnode \<Rightarrow> sgnode" where
  "io_arg nm x = Node \<lparr>h_file = Some transformation, h_ppi = [], h_paren = False, h_label = None,
       h_mods = None\<rparr>
     (SgExpr (ActualArgumentExpression nm)) [Some x] [None]"

definition traverse_if_exists :: "iokind \<Rightarrow> (string \<times> iofield) list \<Rightarrow> sgnode \<Rightarrow> sgnode list" where
  "traverse_if_exists k ws n =
     concat (map (\<lambda>(nm, fd). opt (io_get k (succ n) fd) (\<lambda>x. [io_arg nm x])) ws)"

text \<open>
  One round of the reader's loop: the item list, where the statement has one, is the first
  expression list; an argument sets the field its name stands for. \<open>SgInquireStatement\<close> has no
  default case and asks for a variable as its length.
\<close>

definition io_name :: "sgnode \<Rightarrow> string" where
  "io_name n = (case cls n of SgExpr (ActualArgumentExpression nm) \<Rightarrow> nm | _ \<Rightarrow> [])"

definition io_argument ::
    "iokind \<Rightarrow> iofield list \<Rightarrow> sgnode \<Rightarrow> sgnode option list \<Rightarrow> sgnode option list res" where
  "io_argument k cases n ss =
     (case map_of g_iostmtAttrib (io_name n) of
        None \<Rightarrow> Inl (Fatal ''Unknown attribute'')
      | Some flg \<Rightarrow>
          need ''Expression is null'' (slot 0 (succ n)) (\<lambda>exp.
            if flg \<in> set cases
            then (if flg = IOSTMT_IOLENGTH \<and> \<not> isSgVarRefExp exp
                  then Inl (Fatal ''SgInquireStatement needs a child node of SgVarRefExp'')
                  else Inr (io_set k flg exp ss))
            else if k = Inquire then Inr ss
            else Inl (Fatal ''Invalid attribute'')))"

definition io_round ::
    "iokind \<Rightarrow> iofield list \<Rightarrow> sgnode \<Rightarrow> sgnode option list \<Rightarrow> sgnode option list res" where
  "io_round k cases n ss =
     (let ss' = (if has_list k \<and> slot 0 ss = None \<and> isSgExprListExp n then ss[0 := Some n] else ss)
      in if isSgActualArgumentExpression n then io_argument k cases n ss' else Inr ss')"

fun io_loop ::
    "iokind \<Rightarrow> iofield list \<Rightarrow> sgnode list \<Rightarrow> sgnode option list \<Rightarrow> sgnode option list res" where
  "io_loop k cases [] ss = Inr ss"
| "io_loop k cases (n # ns) ss = bind_res (io_round k cases n ss) (io_loop k cases ns)"

definition io_statement :: "iokind \<Rightarrow> iofield list \<Rightarrow> kid list \<Rightarrow> sgnode res" where
  "io_statement k cases ks =
     bind_res (io_loop k cases (nodes ks) (None # map (\<lambda>_. None) (io_fields k)))
       (\<lambda>ss. Inr (built (SgStmt (IOStatement k)) ss []))"

subsection \<open>Handlers\<close>

definition visitSgBackspaceStatement :: "'s handler" where
  "visitSgBackspaceStatement E \<sigma> A ks = io_statement Backspace cases_Backspace ks"

definition visitSgCloseStatement :: "'s handler" where
  "visitSgCloseStatement E \<sigma> A ks = io_statement Close cases_Close ks"

definition visitSgEndfileStatement :: "'s handler" where
  "visitSgEndfileStatement E \<sigma> A ks = io_statement Endfile cases_Endfile ks"

definition visitSgFlushStatement :: "'s handler" where
  "visitSgFlushStatement E \<sigma> A ks = io_statement Flush cases_Flush ks"

definition visitSgInquireStatement :: "'s handler" where
  "visitSgInquireStatement E \<sigma> A ks = io_statement Inquire cases_Inquire ks"

definition visitSgOpenStatement :: "'s handler" where
  "visitSgOpenStatement E \<sigma> A ks = io_statement Open cases_Open ks"

definition visitSgPrintStatement :: "'s handler" where
  "visitSgPrintStatement E \<sigma> A ks = io_statement Print cases_Print ks"

definition visitSgReadStatement :: "'s handler" where
  "visitSgReadStatement E \<sigma> A ks = io_statement Read cases_Read ks"

definition visitSgRewindStatement :: "'s handler" where
  "visitSgRewindStatement E \<sigma> A ks = io_statement Rewind cases_Rewind ks"

definition visitSgWaitStatement :: "'s handler" where
  "visitSgWaitStatement E \<sigma> A ks = io_statement Wait cases_Wait ks"

definition visitSgWriteStatement :: "'s handler" where
  "visitSgWriteStatement E \<sigma> A ks = io_statement Write cases_Write ks"

text \<open>\<open>INODE_STMT_DEFAULT\<close> for the statements without fields of their own, then the six that have.\<close>

definition inodeSgIOStatement :: "iokind \<Rightarrow> sgnode \<Rightarrow> sgnode list" where
  "inodeSgIOStatement k n = traverse_if_exists k writes_default n"

definition inodeSgCloseStatement :: "sgnode \<Rightarrow> sgnode list" where
  "inodeSgCloseStatement n = traverse_if_exists Close writes_Close n"

definition inodeSgInquireStatement :: "sgnode \<Rightarrow> sgnode list" where
  "inodeSgInquireStatement n =
     the_list [slot 0 (succ n)] @ traverse_if_exists Inquire writes_Inquire n"

definition inodeSgOpenStatement :: "sgnode \<Rightarrow> sgnode list" where
  "inodeSgOpenStatement n = traverse_if_exists Open writes_Open n"

definition inodeSgPrintStatement :: "sgnode \<Rightarrow> sgnode list" where
  "inodeSgPrintStatement n = the_list [slot 0 (succ n)] @ traverse_if_exists Print writes_Print n"

definition inodeSgReadStatement :: "sgnode \<Rightarrow> sgnode list" where
  "inodeSgReadStatement n = the_list [slot 0 (succ n)] @ traverse_if_exists Read writes_Read n"

definition inodeSgWriteStatement :: "sgnode \<Rightarrow> sgnode list" where
  "inodeSgWriteStatement n = the_list [slot 0 (succ n)] @ traverse_if_exists Write writes_Write n"

fun inode_io :: "iokind \<Rightarrow> sgnode \<Rightarrow> sgnode list" where
  "inode_io Close n = inodeSgCloseStatement n"
| "inode_io Inquire n = inodeSgInquireStatement n"
| "inode_io Open n = inodeSgOpenStatement n"
| "inode_io Print n = inodeSgPrintStatement n"
| "inode_io Read n = inodeSgReadStatement n"
| "inode_io Write n = inodeSgWriteStatement n"
| "inode_io k n = inodeSgIOStatement k n"

fun io_handler :: "iokind \<Rightarrow> 's handler" where
  "io_handler Backspace = visitSgBackspaceStatement"
| "io_handler Close = visitSgCloseStatement"
| "io_handler Endfile = visitSgEndfileStatement"
| "io_handler Flush = visitSgFlushStatement"
| "io_handler Inquire = visitSgInquireStatement"
| "io_handler Open = visitSgOpenStatement"
| "io_handler Print = visitSgPrintStatement"
| "io_handler Read = visitSgReadStatement"
| "io_handler Rewind = visitSgRewindStatement"
| "io_handler Wait = visitSgWaitStatement"
| "io_handler Write = visitSgWriteStatement"

lemmas io_handler_defs =
  visitSgBackspaceStatement_def
  visitSgCloseStatement_def
  visitSgEndfileStatement_def
  visitSgFlushStatement_def
  visitSgInquireStatement_def
  visitSgOpenStatement_def
  visitSgPrintStatement_def
  visitSgReadStatement_def
  visitSgRewindStatement_def
  visitSgWaitStatement_def
  visitSgWriteStatement_def

lemma io_handler_statement: "io_handler k E \<sigma> A ks = io_statement k (io_accepts k) ks"
  by (cases k) (simp_all add: io_handler_defs)

lemma inode_io_traverse:
  "inode_io k n = (if has_list k then the_list [slot 0 (succ n)] else []) @ traverse_if_exists k (io_writes k) n"
  by (cases k) (simp_all add: has_list_def inodeSgIOStatement_def inodeSgCloseStatement_def
      inodeSgInquireStatement_def inodeSgOpenStatement_def inodeSgPrintStatement_def
      inodeSgReadStatement_def inodeSgWriteStatement_def)

subsection \<open>The interface between the two tables\<close>

text \<open>
  What a field holds, as a function; the successors are that function along the fields.
\<close>

definition store :: "iokind \<Rightarrow> sgnode option \<Rightarrow> (iofield \<Rightarrow> sgnode option) \<Rightarrow> sgnode option list" where
  "store k l s = l # map s (io_fields k)"

lemma distinct_io_fields: "distinct (io_fields k)"
  by (cases k) (simp_all add: io_common_def)

lemma nth_takeWhile_pos: "fd \<in> set xs \<Longrightarrow> xs ! length (takeWhile (\<lambda>g. g \<noteq> fd) xs) = fd"
  by (induction xs) auto

lemma length_takeWhile_mem: "fd \<in> set xs \<Longrightarrow> length (takeWhile (\<lambda>g. g \<noteq> fd) xs) < length xs"
  by (induction xs) auto

lemma map_upd_pos:
  "distinct xs \<Longrightarrow> fd \<in> set xs \<Longrightarrow>
     (map s xs)[length (takeWhile (\<lambda>g. g \<noteq> fd) xs) := v] = map (s(fd := v)) xs"
  by (induction xs) auto

lemma io_get_store [simp]: "fd \<in> set (io_fields k) \<Longrightarrow> io_get k (store k l s) fd = s fd"
  by (simp add: io_get_def io_pos_def store_def slot_def nth_takeWhile_pos length_takeWhile_mem)

lemma io_set_store [simp]:
  "fd \<in> set (io_fields k) \<Longrightarrow> io_set k fd x (store k l s) = store k l (s(fd := Some x))"
  by (simp add: io_set_def io_pos_def store_def map_upd_pos distinct_io_fields)

text \<open>
  A function on nodes that keeps classes and goes inside the temporary arguments: what writing and
  reading does to the children.
\<close>

definition keeps_args :: "(sgnode \<Rightarrow> sgnode) \<Rightarrow> bool" where
  "keeps_args f \<longleftrightarrow> keeps f \<and> (\<forall>nm x. succ (f (io_arg nm x)) = [Some (f x)])"

text \<open>
  \<open>io_codec k writes accepts\<close>: every name that is written is read as the field it was written for,
  the switch has a case for that field, and the statement has the field.
\<close>

locale io_codec =
  fixes k :: iokind and writes :: "(string \<times> iofield) list" and accepts :: "iofield list"
  assumes known_all: "list_all (\<lambda>(nm, fd). map_of g_iostmtAttrib nm = Some fd) writes"
    and accepted_all: "list_all (\<lambda>(nm, fd). fd \<in> set accepts) writes"
    and field_all: "list_all (\<lambda>(nm, fd). fd \<in> set (io_fields k)) writes"
begin

lemma laws:
  assumes "(nm, fd) \<in> set writes"
  shows known: "map_of g_iostmtAttrib nm = Some fd" and accepted: "fd \<in> set accepts"
    and field: "fd \<in> set (io_fields k)"
  using assms known_all accepted_all field_all by (auto simp: list_all_iff)

lemma round_arg:
  assumes "keeps_args f" and "(nm, fd) \<in> set writes" and "fd = IOSTMT_IOLENGTH \<longrightarrow> isSgVarRefExp x"
  shows "io_round k accepts (f (io_arg nm x)) (store k l t) = Inr (store k l (t(fd := Some (f x))))"
proof -
  have k: "keeps f" and s: "succ (f (io_arg nm x)) = [Some (f x)]"
    using assms(1) by (simp_all add: keeps_args_def)
  have "isSgActualArgumentExpression (f (io_arg nm x))" and "\<not> isSgExprListExp (f (io_arg nm x))"
    and "io_name (f (io_arg nm x)) = nm"
    using k by (simp_all add: io_arg_def io_name_def)
  then show ?thesis
    using k s assms(3) known [OF assms(2)] accepted [OF assms(2)] field [OF assms(2)]
    by (simp add: io_round_def io_argument_def)
qed

lemma loop_args:
  assumes "keeps_args f" and "may isSgVarRefExp (s IOSTMT_IOLENGTH)" and "set ws \<subseteq> set writes"
  shows "io_loop k accepts (map f (concat (map (\<lambda>(nm, fd). opt (s fd) (\<lambda>x. [io_arg nm x])) ws))) (store k l t)
    = Inr (store k l (\<lambda>fd. if fd \<in> snd ` set ws \<and> s fd \<noteq> None then map_option f (s fd) else t fd))"
  using assms(3)
proof (induction ws arbitrary: t)
  case Nil
  then show ?case by simp
next
  case (Cons w ws)
  obtain nm fd where w: "w = (nm, fd)" by (cases w)
  show ?case
  proof (cases "s fd")
    case None
    then show ?thesis using Cons w by (auto intro!: arg_cong [where f = "store k l"] ext)
  next
    case (Some x)
    have "io_round k accepts (f (io_arg nm x)) (store k l t) = Inr (store k l (t(fd := Some (f x))))"
      using Some assms(2) Cons.prems w by (intro round_arg assms(1)) auto
    with Cons w Some show ?thesis
      by (auto intro!: arg_cong [where f = "store k l"])
  qed
qed

lemma read_back:
  assumes f: "keeps_args f" and v: "may isSgVarRefExp (s IOSTMT_IOLENGTH)"
    and l: "may isSgExprListExp l" "\<not> has_list k \<Longrightarrow> l = None"
    and all: "\<And>fd. fd \<in> set (io_fields k) \<Longrightarrow> s fd \<noteq> None \<Longrightarrow> fd \<in> snd ` set writes"
    and ks: "nodes ks = map f ((if has_list k then the_list [l] else []) @
      concat (map (\<lambda>(nm, fd). opt (s fd) (\<lambda>x. [io_arg nm x])) writes))"
  shows "io_statement k accepts ks =
    Inr (built (SgStmt (IOStatement k)) (map (map_option f) (store k l s)) [])"
proof -
  let ?args = "map f (concat (map (\<lambda>(nm, fd). opt (s fd) (\<lambda>x. [io_arg nm x])) writes))"
  let ?l = "map_option f l"
  have init: "None # map (\<lambda>_. None) (io_fields k) = store k None (\<lambda>_. None)"
    by (simp add: store_def)
  have "io_loop k accepts (nodes ks) (store k None (\<lambda>_. None)) =
      io_loop k accepts ?args (store k ?l (\<lambda>_. None))"
    using l f ks by (cases l) (auto simp: keeps_args_def io_round_def store_def has_list_def
        elim!: test_elims)
  also have "\<dots> = Inr (store k ?l
      (\<lambda>fd. if fd \<in> snd ` set writes \<and> s fd \<noteq> None then map_option f (s fd) else None))"
    using f v by (intro loop_args) auto
  also have "\<dots> = Inr (map (map_option f) (store k l s))"
    using all by (fastforce simp: store_def)
  finally show ?thesis unfolding io_statement_def init by simp
qed

end

subsection \<open>The statements that keep the contract\<close>

lemmas io_tables = g_iostmtAttrib_def io_common_def writes_default_def writes_Open_def writes_Print_def
  writes_Read_def writes_Write_def writes_Close_def writes_Inquire_def cases_Backspace_def
  cases_Close_def cases_Endfile_def cases_Flush_def cases_Inquire_def cases_Open_def cases_Print_def
  cases_Read_def cases_Rewind_def cases_Wait_def cases_Write_def

interpretation io_backspace: io_codec Backspace "io_writes Backspace" "io_accepts Backspace"
  by unfold_locales code_simp+

interpretation io_endfile: io_codec Endfile "io_writes Endfile" "io_accepts Endfile"
  by unfold_locales code_simp+

interpretation io_flush: io_codec Flush "io_writes Flush" "io_accepts Flush"
  by unfold_locales code_simp+

interpretation io_rewind: io_codec Rewind "io_writes Rewind" "io_accepts Rewind"
  by unfold_locales code_simp+

interpretation io_wait: io_codec Wait "io_writes Wait" "io_accepts Wait"
  by unfold_locales code_simp+

interpretation io_open: io_codec Open "io_writes Open" "io_accepts Open"
  by unfold_locales code_simp+

interpretation io_print: io_codec Print "io_writes Print" "io_accepts Print"
  by unfold_locales code_simp+

interpretation io_read_stmt: io_codec Read "io_writes Read" "io_accepts Read"
  by unfold_locales code_simp+

interpretation io_write_stmt: io_codec Write "io_writes Write" "io_accepts Write"
  by unfold_locales code_simp+

text \<open>
  Two tables break it, each in one row: a close statement writes \<open>iomsg\<close> under the name \<open>err\<close>, an
  inquire statement writes \<open>pending\<close> under a name the reader does not know. Without the row they
  keep it.
\<close>

definition sound_writes :: "iokind \<Rightarrow> (string \<times> iofield) list" where
  "sound_writes k = filter (\<lambda>(nm, fd). map_of g_iostmtAttrib nm = Some fd) (io_writes k)"

interpretation io_close: io_codec Close "sound_writes Close" "io_accepts Close"
  by unfold_locales code_simp+

interpretation io_inquire: io_codec Inquire "sound_writes Inquire" "io_accepts Inquire"
  by unfold_locales code_simp+

subsection \<open>Reading back\<close>

lemma io_codec_sound: "io_codec k (sound_writes k) (io_accepts k)"
proof -
  have "sound_writes k = io_writes k" if "k \<noteq> Close" "k \<noteq> Inquire"
    using that by (cases k) (simp_all, code_simp+)
  then show ?thesis
    using io_backspace.io_codec_axioms io_endfile.io_codec_axioms io_flush.io_codec_axioms
      io_rewind.io_codec_axioms io_wait.io_codec_axioms io_open.io_codec_axioms
      io_print.io_codec_axioms io_read_stmt.io_codec_axioms io_write_stmt.io_codec_axioms
      io_close.io_codec_axioms io_inquire.io_codec_axioms
    by (cases k) simp_all
qed

text \<open>A statement with its fields filled by expressions, the two unsound ones empty.\<close>

definition io_shape :: "iokind \<Rightarrow> sgnode option list \<Rightarrow> bool" where
  "io_shape k ss \<longleftrightarrow>
     length ss = Suc (length (io_fields k)) \<and> may isSgExprListExp (slot 0 ss) \<and>
     (has_list k \<or> slot 0 ss = None) \<and> list_all (may isSgExpression) (tl ss) \<and>
     may isSgVarRefExp (io_get k ss IOSTMT_IOLENGTH) \<and>
     list_all (\<lambda>fd. io_get k ss fd = None \<or> fd \<in> snd ` set (sound_writes k)) (io_fields k)"

lemma store_io_get:
  "length ss = Suc (length (io_fields k)) \<Longrightarrow> store k (slot 0 ss) (io_get k ss) = ss"
proof -
  assume "length ss = Suc (length (io_fields k))"
  then obtain l xs where ss: "ss = l # xs" and len: "length xs = length (io_fields k)"
    by (cases ss) auto
  have "xs = map (\<lambda>fd. slot (length (takeWhile (\<lambda>g. g \<noteq> fd) fs)) xs) fs"
    if "distinct fs" "length xs = length fs" for fs and xs :: "sgnode option list"
    using that
  proof (induction fs arbitrary: xs)
    case (Cons g fs)
    then obtain y ys where xs: "xs = y # ys" and "length ys = length fs" by (cases xs) auto
    with Cons have "ys = map (\<lambda>fd. slot (length (takeWhile (\<lambda>g. g \<noteq> fd) fs)) ys) fs" by simp
    also have "\<dots> = map (\<lambda>fd. slot (length (takeWhile (\<lambda>g'. g' \<noteq> fd) (g # fs))) xs) fs"
      using Cons.prems by (intro map_cong) (auto simp: xs)
    finally show ?case by (simp add: xs)
  qed simp
  note xs = this [OF distinct_io_fields len]
  have get: "io_get k (l # xs) = (\<lambda>fd. slot (length (takeWhile (\<lambda>g. g \<noteq> fd) (io_fields k))) xs)"
    by (rule ext) (simp add: io_get_def io_pos_def)
  show ?thesis by (simp add: ss store_def get xs [symmetric])
qed

lemma concat_filter_None:
  "(\<And>nm fd. (nm, fd) \<in> set ws \<Longrightarrow> \<not> P (nm, fd) \<Longrightarrow> s fd = None) \<Longrightarrow>
     concat (map (\<lambda>(nm, fd). opt (s fd) (\<lambda>x. [io_arg nm x])) (filter P ws)) =
     concat (map (\<lambda>(nm, fd). opt (s fd) (\<lambda>x. [io_arg nm x])) ws)"
proof (induction ws)
  case (Cons w ws)
  obtain nm fd where w: "w = (nm, fd)" by (cases w)
  have "s fd = None" if "\<not> P (nm, fd)" using Cons.prems [of nm fd] that w by simp
  moreover have "concat (map (\<lambda>(nm, fd). opt (s fd) (\<lambda>x. [io_arg nm x])) (filter P ws)) =
     concat (map (\<lambda>(nm, fd). opt (s fd) (\<lambda>x. [io_arg nm x])) ws)"
    by (rule Cons.IH) (use Cons.prems in auto)
  ultimately show ?case by (auto simp: w)
qed simp

lemma snd_writes_fields: "snd ` set (io_writes k) \<subseteq> set (io_fields k)"
  by (cases k) (simp_all, code_simp+)

lemma distinct_writes: "distinct (map snd (io_writes k))"
  by (cases k) (simp_all, code_simp+)

lemma read_io:
  assumes shape: "io_shape k ss" and f: "keeps_args f"
    and ks: "nodes ks = map f (inode_io k (Node h c ss ns))"
  shows "io_handler k E \<sigma> A ks =
    Inr (built (SgStmt (IOStatement k)) (map (map_option f) ss) [])"
proof -
  let ?s = "io_get k ss" and ?l = "slot 0 ss"
  have st: "store k ?l ?s = ss" using shape by (simp add: io_shape_def store_io_get)
  have sound: "?s fd = None \<or> fd \<in> snd ` set (sound_writes k)" if "fd \<in> set (io_fields k)" for fd
    using shape that by (auto simp: io_shape_def list_all_iff)
  have "?s fd = None"
    if "(nm, fd) \<in> set (io_writes k)" "map_of g_iostmtAttrib nm \<noteq> Some fd" for nm fd
  proof -
    have "fd \<notin> snd ` set (sound_writes k)"
      using that distinct_writes [of k] by (force simp: sound_writes_def distinct_map inj_on_def)
    moreover have "fd \<in> set (io_fields k)" using that(1) snd_writes_fields [of k] by force
    ultimately show ?thesis using sound by blast
  qed
  then have "traverse_if_exists k (io_writes k) (Node h c ss ns) =
      concat (map (\<lambda>(nm, fd). opt (?s fd) (\<lambda>x. [io_arg nm x])) (sound_writes k))"
    unfolding traverse_if_exists_def sound_writes_def
    by (subst concat_filter_None) auto
  then have "nodes ks = map f ((if has_list k then the_list [?l] else []) @
      concat (map (\<lambda>(nm, fd). opt (?s fd) (\<lambda>x. [io_arg nm x])) (sound_writes k)))"
    using ks by (simp add: inode_io_traverse)
  note ks' = this
  have "io_statement k (io_accepts k) ks =
      Inr (built (SgStmt (IOStatement k)) (map (map_option f) (store k ?l ?s)) [])"
  proof (rule io_codec.read_back [OF io_codec_sound f _ _ _ _ ks'])
    show "may isSgVarRefExp (?s IOSTMT_IOLENGTH)" "may isSgExprListExp ?l"
      "\<not> has_list k \<Longrightarrow> ?l = None"
      using shape by (auto simp: io_shape_def)
    show "fd \<in> snd ` set (sound_writes k)" if "fd \<in> set (io_fields k)" "?s fd \<noteq> None" for fd
      using sound [OF that(1)] that(2) by blast
  qed
  then show ?thesis by (simp add: io_handler_statement st)
qed

end
