(* ===== verification/DeclCodec.thy ===== *)
theory DeclCodec
  imports SuppCodec
begin

text \<open>
  The declarations of \<open>src/decl.cpp\<close>: their readers, attributes and internal nodes; the
  modifiers are in \<open>Modifiers\<close>. The headers of procedures, programs, entries and modules of Fortran are not
  modelled. What a declaration does to the symbol tables is part of the builder's state.
\<close>

abbreviation decl :: "declcls \<Rightarrow> sgcls" where
  "decl d \<equiv> SgStmt (Declaration d)"

subsection \<open>Assembler and attribute specifications\<close>

definition visitSgAsmStmt :: "'s handler" where
  "visitSgAsmStmt E \<sigma> A ks =
     (if \<not> hasAttr A ''code'' then Inl (Fatal ''SgAsmStmt needs an attribute, code'')
      else bind_res (getFlag A ''gnu'' False) (\<lambda>gnu.
           bind_res (if hasAttr A ''regs'' then mapR atoi (strtok (getStr A ''regs'' [])) else Inr []) (\<lambda>regs.
             Inr (built (decl (AsmStmt (unentity (getStr A ''code'' [])) gnu regs))
                    (map Some (filter isSgExpression (nodes ks))) []))))"

definition attribSgAsmStmt :: "'s rose \<Rightarrow> sgnode \<Rightarrow> string \<Rightarrow> bool \<Rightarrow> int list \<Rightarrow> chunk list" where
  "attribSgAsmStmt E n code gnu regs =
     [esc ''code'' code [], flag ''gnu'' gnu []]
     @ only (regs \<noteq> []) [raw ''regs'' (join_names (map show_int regs)) []]
     @ attribSgDeclarationStatement E n"

text \<open>
  The children of an attribute specification become its parameters, its bindings, its data groups or,
  as string literals, its names; a protected name needs a variable.
\<close>

definition names_of :: "sgnode list \<Rightarrow> string list" where
  "names_of ns = List.map_filter (\<lambda>n. string_value (cls n)) ns"

definition check_protected :: "'s rose \<Rightarrow> 's \<Rightarrow> string \<Rightarrow> unit res" where
  "check_protected E \<sigma> nm = (case r_find_var E \<sigma> nm of
      None \<Rightarrow> Inl (Fatal ''the variable symbol not found'')
    | Some False \<Rightarrow> Inl (Undef ''symbol without a declaration'')
    | Some True \<Rightarrow> Inr ())"

definition visitSgAttributeSpecificationStatement :: "'s handler" where
  "visitSgAttributeSpecificationStatement E \<sigma> A ks =
     (if \<not> hasAttr A ''kind''
      then Inl (Fatal ''SgAttributeSpecificationStatement needs an attribute, kind'')
      else bind_res (getInt A ''kind'' 0) (\<lambda>kind.
        let exps = filter isSgExpression (nodes ks);
            made = (\<lambda>intent p b names ns.
              built (decl (AttributeSpecificationStatement kind intent p b names)) [] (map Some ns));
            named = (\<lambda>check. bind_res (getInt A ''intent'' 0) (\<lambda>intent.
              bind_res (mapR check (names_of (nodes ks))) (\<lambda>u.
                Inr (made intent 0 0 (names_of (nodes ks)) []))))
        in case r_attr_kind E kind of
             AttrParameters \<Rightarrow> Inr (made 0 (length exps) 0 [] exps)
           | AttrBind \<Rightarrow> Inr (made 0 0 (length exps) [] exps)
           | AttrDimension \<Rightarrow>
               bind_res (mapR (\<lambda>e. case r_dimension E \<sigma> e of
                   None \<Rightarrow> Inl (Fatal ''assertion failed: f_def!=0'')
                 | Some pushed \<Rightarrow> Inr (if pushed then [e] else [])) exps) (\<lambda>ls.
                 Inr (made 0 (length (concat ls)) 0 [] (concat ls)))
           | AttrData \<Rightarrow> Inr (made 0 0 0 [] (filter isSgDataStatementGroup (nodes ks)))
           | AttrNames \<Rightarrow> named (\<lambda>nm. Inr ())
           | AttrProtected \<Rightarrow> named (check_protected E \<sigma>)
           | AttrUnknown \<Rightarrow> Inl (Fatal ''unknown kind found at SgAttributeSpecificationStatement'')))"

definition attribSgAttributeSpecificationStatement :: "'s rose \<Rightarrow> sgnode \<Rightarrow> int \<Rightarrow> int \<Rightarrow> chunk list" where
  "attribSgAttributeSpecificationStatement E n kind intent =
     [num ''kind'' kind sp] @ only (intent \<noteq> 0) [num ''intent'' intent sp]
     @ attribSgDeclarationStatement E n"

text \<open>Names are written as string literals that are built for the occasion.\<close>

definition buildStringVal :: "string \<Rightarrow> sgnode" where
  "buildStringVal s = Node (hdr0\<lparr>h_file := Some transformation\<rparr>)
     (SgExpr (StringVal s False False False False)) [] [None]"

definition inodeSgAttributeSpecificationStatement :: "sgnode \<Rightarrow> string list \<Rightarrow> sgnode list" where
  "inodeSgAttributeSpecificationStatement n names = the_list (inner n) @ map buildStringVal names"

subsection \<open>Classes and enumerations\<close>

text \<open>A class that already has a definition keeps it; its children are not visited.\<close>

definition visitSgClassDeclaration :: "'s handler" where
  "visitSgClassDeclaration E \<sigma> A ks =
     bind_res (getInt A ''type'' 0) (\<lambda>typ. bind_res (getBool A ''unnamed'' False) (\<lambda>unnamed.
     bind_res (getFlag A ''autonomous'' True) (\<lambda>auton.
       let name = getStr A ''name'' [];
           def = (case first_of isSgClassDefinition (nodes ks) of
               Some d \<Rightarrow> Some d
             | None \<Rightarrow> (case r_defined_class E \<sigma> name of Some d \<Rightarrow> d | None \<Rightarrow> None))
       in Inr (built (decl (ClassDeclaration name typ unnamed auton)) [def] []))))"

definition attribSgClassDeclaration ::
    "'s rose \<Rightarrow> sgnode \<Rightarrow> string \<Rightarrow> int \<Rightarrow> bool \<Rightarrow> bool \<Rightarrow> chunk list" where
  "attribSgClassDeclaration E n name typ unnamed auton =
     only (\<not> auton) [flag ''autonomous'' False sp] @ only unnamed [flag ''unnamed'' True sp]
     @ [raw ''name'' name sp, num ''type'' typ sp] @ attribSgDeclarationStatement E n"

definition visitSgDerivedTypeStatement :: "'s handler" where
  "visitSgDerivedTypeStatement E \<sigma> A ks =
     (if \<not> hasAttr A ''name'' then Inl (Fatal ''SgDerivedTypeStatement needs an attribute, name'')
      else Inr (built (decl (DerivedTypeStatement (getStr A ''name'' []) (r_struct E) False True))
                  [first_of isSgClassDefinition (nodes ks)] []))"

text \<open>The flag is set on the declaration that the new symbol refers to.\<close>

definition visitSgEnumDeclaration :: "'s handler" where
  "visitSgEnumDeclaration E \<sigma> A ks =
     (if \<not> hasAttr A ''name'' then Inl (Fatal ''SgEnumDeclaration needs an attribute, name'')
      else bind_res (getBool A ''unnamed'' False) (\<lambda>unnamed.
        Inr (built (decl (EnumDeclaration (getStr A ''name'' []) (r_enum_self E \<and> unnamed)))
               (map Some (filter isSgInitializedName (nodes ks))) [])))"

definition attribSgEnumDeclaration :: "'s rose \<Rightarrow> sgnode \<Rightarrow> string \<Rightarrow> bool \<Rightarrow> chunk list" where
  "attribSgEnumDeclaration E n name unnamed =
     only unnamed [flag ''unnamed'' True sp] @ [raw ''name'' name sp] @ attribSgDeclarationStatement E n"

subsection \<open>Fortran declarations\<close>

definition visitSgCommonBlock :: "'s handler" where
  "visitSgCommonBlock E \<sigma> A ks =
     Inr (built (decl CommonBlock) (map Some (filter isSgCommonBlockObject (nodes ks))) [])"

definition visitSgContainsStatement :: "'s handler" where
  "visitSgContainsStatement E \<sigma> A ks = Inr (built (decl ContainsStatement) [] [])"

definition visitSgEquivalenceStatement :: "'s handler" where
  "visitSgEquivalenceStatement E \<sigma> A ks =
     need ''SgEquivalenceStatement needs a child node of SgExprListExp''
       (first_of isSgExprListExp (nodes ks))
       (\<lambda>lst. Inr (built (decl EquivalenceStatement) [] [Some lst]))"

definition inodeSgEquivalenceStatement :: "sgnode \<Rightarrow> sgnode list" where
  "inodeSgEquivalenceStatement n = the_list [slot 0 (inner n)]"

definition visitSgFormatStatement :: "'s handler" where
  "visitSgFormatStatement E \<sigma> A ks =
     Inr (built (decl FormatStatement) [] (map Some (filter isSgFormatItem (nodes ks))))"

definition inodeSgFormatStatement :: "sgnode \<Rightarrow> sgnode list" where
  "inodeSgFormatStatement n = the_list (inner n)"

definition visitSgFortranIncludeLine :: "'s handler" where
  "visitSgFortranIncludeLine E \<sigma> A ks =
     (if \<not> hasAttr A ''filename'' then Inl (Fatal ''SgFortranIncludeLine needs an attribute, filename'')
      else Inr (built (decl (FortranIncludeLine (getStr A ''filename'' []))) [] []))"

definition attribSgFortranIncludeLine :: "sgnode \<Rightarrow> string \<Rightarrow> chunk list" where
  "attribSgFortranIncludeLine n filename = [raw ''filename'' filename sp] @ attribSgStatement (hd_of n)"

text \<open>A statement without names is \<open>implicit none\<close>.\<close>

definition visitSgImplicitStatement :: "'s handler" where
  "visitSgImplicitStatement E \<sigma> A ks =
     (let lst = filter isSgInitializedName (nodes ks)
      in Inr (built (decl (ImplicitStatement (lst = []))) (map Some lst) []))"

definition visitSgImportStatement :: "'s handler" where
  "visitSgImportStatement E \<sigma> A ks =
     Inr (built (decl ImportStatement) (map Some (filter isSgExpression (nodes ks))) [])"

definition visitSgInterfaceStatement :: "'s handler" where
  "visitSgInterfaceStatement E \<sigma> A ks =
     bind_res (getInt A ''type'' 0) (\<lambda>typ.
       Inr (built (decl (InterfaceStatement (getStr A ''name'' []) typ))
              (map Some (filter isSgInterfaceBody (nodes ks))) []))"

definition attribSgInterfaceStatement :: "sgnode \<Rightarrow> string \<Rightarrow> int \<Rightarrow> chunk list" where
  "attribSgInterfaceStatement n name typ =
     [raw ''name'' name sp, num ''type'' typ sp] @ attribSgStatement (hd_of n)"

definition visitSgNamelistStatement :: "'s handler" where
  "visitSgNamelistStatement E \<sigma> A ks =
     Inr (built (decl NamelistStatement) [] (map Some (filter isSgNameGroup (nodes ks))))"

definition inodeSgNamelistStatement :: "sgnode \<Rightarrow> sgnode list" where
  "inodeSgNamelistStatement n = the_list (inner n)"

text \<open>The module of a use statement, where its symbol is known, must be a module with a definition.\<close>

definition visitSgUseStatement :: "'s handler" where
  "visitSgUseStatement E \<sigma> A ks =
     (if \<not> hasAttr A ''name'' then Inl (Fatal ''SgUseStatement needs an attribute, name'')
      else if \<not> hasAttr A ''only'' then Inl (Fatal ''SgUseStatement needs an attribute, only'')
      else bind_res (getFlag A ''only'' False) (\<lambda>some.
        let name = getStr A ''name'' [];
            ret = built (decl (UseStatement name some)) (map Some (filter isSgRenamePair (nodes ks))) []
        in case r_find_module E \<sigma> name of
             None \<Rightarrow> Inr ret
           | Some (False, d) \<Rightarrow> Inl (Fatal ''SgUseStatement is associated with an invalid symbol'')
           | Some (True, None) \<Rightarrow> Inl (Undef ''definition of a null declaration'')
           | Some (True, Some False) \<Rightarrow> Inl (Fatal ''SgUseStatement is associated with an undefined symbol'')
           | Some (True, Some True) \<Rightarrow> Inr ret))"

definition attribSgUseStatement :: "sgnode \<Rightarrow> string \<Rightarrow> bool \<Rightarrow> chunk list" where
  "attribSgUseStatement n name some =
     [raw ''name'' name sp, flag ''only'' some []] @ attribSgStatement (hd_of n)"

subsection \<open>Functions\<close>

text \<open>
  Successors: the parameter list and the definition; inner slot: the return type. An old style
  definition is one in C only.
\<close>

definition visitSgFunctionDeclaration :: "'s handler" where
  "visitSgFunctionDeclaration E \<sigma> A ks =
     (if \<not> hasAttr A ''name'' then Inl (Fatal ''SgFunctionDeclaration needs an attribute, name'')
      else bind_res (getFlag A ''old'' False) (\<lambda>old. bind_res (getFlag A ''definition'' False) (\<lambda>hasdef.
        bind_res (getFlag A ''no_params'' False) (\<lambda>noparams.
        need ''SgFunctionDeclaration needs a child node of SgType'' (first_of isSgType (nodes ks)) (\<lambda>typ.
        need ''SgFunctionDeclaration needs a child node of SgFunctionParameterList''
          (first_of isSgFunctionParameterList (nodes ks)) (\<lambda>lst.
        bind_res (getInt A ''gnu_visibility'' (r_gnu_visibility E)) (\<lambda>vis.
          let def = first_of isSgFunctionDefinition (nodes ks)
          in Inr (built (decl (FunctionDeclaration (getStr A ''name'' []) (def \<noteq> None \<and> r_clang E \<and> old)
                      noparams vis (getStr A ''gnu_alias'' [])))
                    [Some lst, def] [Some typ]))))))))"

definition attribSgFunctionDeclaration ::
    "'s rose \<Rightarrow> sgnode \<Rightarrow> string \<Rightarrow> bool \<Rightarrow> bool \<Rightarrow> int \<Rightarrow> string \<Rightarrow> chunk list" where
  "attribSgFunctionDeclaration E n name old noparams vis alias =
     (let m = mods_of E (hd_of n); fmod = uint (pack_bits (dm_fun m)) in
      [raw ''name'' name sp]
      @ only (slot 1 (succ n) \<noteq> None) [flag ''definition'' True sp]
      @ (if r_fortran E then [flag ''end_name'' (dm_end m) sp] else only old [flag ''old'' True sp])
      @ only (2 < fmod) [num ''function_modifier'' fmod []]
      @ only (dm_asm m \<noteq> []) [raw ''asm_name'' (dm_asm m) []]
      @ only noparams [flag ''no_params'' True []]
      @ only (0 < dm_regparm m) [num ''regparm'' (dm_regparm m) []]
      @ only (vis \<noteq> r_gnu_visibility E) [num ''gnu_visibility'' vis sp]
      @ only (alias \<noteq> []) [raw ''gnu_alias'' alias []]
      @ attribSgDeclarationStatement E n)"

definition inodeSgFunctionDeclaration :: "sgnode \<Rightarrow> sgnode list" where
  "inodeSgFunctionDeclaration n = the_list [slot 0 (inner n)]"

definition visitSgFunctionParameterList :: "'s handler" where
  "visitSgFunctionParameterList E \<sigma> A ks =
     Inr (built (decl FunctionParameterList) (map Some (filter isSgInitializedName (nodes ks))) [])"

subsection \<open>Pragmas, typedefs, variables\<close>

text \<open>The pragma is built anew from its text.\<close>

definition visitSgPragmaDeclaration :: "'s handler" where
  "visitSgPragmaDeclaration E \<sigma> A ks =
     need ''SgPragmaDeclaration needs a child node of SgPragma'' (first_of isSgPragma (nodes ks))
       (\<lambda>pr. Inr (built (decl PragmaDeclaration) [Some (built (cls pr) [] [])] []))"

text \<open>
  Successor: the declaration within the typedef, which counts only outside Fortran; inner slot: the base
  type. In a list of typedefs the class cannot stay unnamed.
\<close>

fun set_named :: "sgnode \<Rightarrow> sgnode" where
  "set_named (Node h (SgStmt (Declaration (ClassDeclaration nm t u a))) ss ns) =
     Node h (SgStmt (Declaration (ClassDeclaration nm t False a))) ss ns"
| "set_named (Node h (SgStmt (Declaration (DerivedTypeStatement nm t u a))) ss ns) =
     Node h (SgStmt (Declaration (DerivedTypeStatement nm t False a))) ss ns"
| "set_named n = n"

definition visitSgTypedefDeclaration :: "'s handler" where
  "visitSgTypedefDeclaration E \<sigma> A ks =
     (if \<not> hasAttr A ''name'' then Inl (Fatal ''SgTypedefDeclaration needs an attribute, name'')
      else bind_res (getFlag A ''list'' False) (\<lambda>lst.
        need ''TypedefDeclaration needs a child node of SgType'' (first_of isSgType (nodes ks)) (\<lambda>typ.
          let d = first_of isSgDeclarationStatement (nodes ks);
              d' = (if lst then map_option set_named d else d)
          in Inr (built (decl (TypedefDeclaration (getStr A ''name'' []) lst))
                    [if r_fortran E then None else d'] [Some typ]))))"

definition attribSgTypedefDeclaration :: "'s rose \<Rightarrow> sgnode \<Rightarrow> string \<Rightarrow> bool \<Rightarrow> chunk list" where
  "attribSgTypedefDeclaration E n name lst =
     [raw ''name'' name sp] @ only lst [flag ''list'' True sp] @ attribSgDeclarationStatement E n"

definition inodeSgTypedefDeclaration :: "sgnode \<Rightarrow> sgnode list" where
  "inodeSgTypedefDeclaration n = the_list [slot 0 (inner n)]"

text \<open>
  Successors: the declaration of the base type, outside Fortran, and the variables, of which the first
  is a copy; inner slot: the width of a bit field, which must be a value.
\<close>

definition visitSgVariableDeclaration :: "'s handler" where
  "visitSgVariableDeclaration E \<sigma> A ks =
     (let vars = filter isSgInitializedName (nodes ks);
          c = first_of isSgDeclarationStatement (nodes ks);
          bit = (case first_of isSgExpression (nodes ks) of
              None \<Rightarrow> None
            | Some e \<Rightarrow> if isSgValueExp e then Some e else None)
      in need ''SgVariableDeclaration needs a child node of SgInitializedName'' (first_of isSgInitializedName (nodes ks)) (\<lambda>name.
           if c \<noteq> None \<and> slot 0 (inner name) = None then Inl (Undef ''base type of a null type'')
           else bind_res (getInt A ''gnu_visibility'' (r_gnu_visibility E)) (\<lambda>vis.
             bind_res (getInt A ''gnu_declaration'' (r_gnu_declaration E)) (\<lambda>gdecl.
               Inr (built (decl (VariableDeclaration vis gdecl (getStr A ''gnu_section'' []) (getStr A ''gnu_alias'' [])))
                      ((if r_fortran E then None else c) # map Some vars)
                      [if r_fortran E then None else bit])))))"

definition attribSgVariableDeclaration ::
    "'s rose \<Rightarrow> sgnode \<Rightarrow> int \<Rightarrow> int \<Rightarrow> string \<Rightarrow> string \<Rightarrow> chunk list" where
  "attribSgVariableDeclaration E n vis gdecl section alias =
     only (vis \<noteq> r_gnu_visibility E) [num ''gnu_visibility'' vis sp]
     @ only (gdecl \<noteq> r_gnu_declaration E) [num ''gnu_declaration'' gdecl sp]
     @ only (section \<noteq> []) [raw ''gnu_section'' section sp]
     @ only (alias \<noteq> []) [raw ''gnu_alias'' alias sp] @ attribSgDeclarationStatement E n"

definition inodeSgVariableDeclaration :: "'s rose \<Rightarrow> sgnode \<Rightarrow> sgnode list" where
  "inodeSgVariableDeclaration E n = (if r_fortran E then [] else the_list [slot 0 (inner n)])"

subsection \<open>Dispatch on the class\<close>

primrec attribs_decl :: "'s rose \<Rightarrow> sgnode \<Rightarrow> declcls \<Rightarrow> chunk list" where
  "attribs_decl E n (AsmStmt c g r) = attribSgAsmStmt E n c g r"
| "attribs_decl E n (AttributeSpecificationStatement k i p b nms) = attribSgAttributeSpecificationStatement E n k i"
| "attribs_decl E n (ClassDeclaration nm t u a) = attribSgClassDeclaration E n nm t u a"
| "attribs_decl E n CommonBlock = attribSgDeclarationStatement E n"
| "attribs_decl E n ContainsStatement = attribSgDeclarationStatement E n"
| "attribs_decl E n (DerivedTypeStatement nm t u a) = attribSgClassDeclaration E n nm t u a"
| "attribs_decl E n (EnumDeclaration nm u) = attribSgEnumDeclaration E n nm u"
| "attribs_decl E n EquivalenceStatement = attribSgDeclarationStatement E n"
| "attribs_decl E n FormatStatement = attribSgDeclarationStatement E n"
| "attribs_decl E n (FortranIncludeLine f) = attribSgFortranIncludeLine n f"
| "attribs_decl E n (FunctionDeclaration nm b p v a) = attribSgFunctionDeclaration E n nm b p v a"
| "attribs_decl E n FunctionParameterList = attribSgDeclarationStatement E n"
| "attribs_decl E n (ImplicitStatement b) = attribSgDeclarationStatement E n"
| "attribs_decl E n ImportStatement = attribSgDeclarationStatement E n"
| "attribs_decl E n (InterfaceStatement nm t) = attribSgInterfaceStatement n nm t"
| "attribs_decl E n NamelistStatement = attribSgStatement (hd_of n)"
| "attribs_decl E n PragmaDeclaration = attribSgDeclarationStatement E n"
| "attribs_decl E n (TypedefDeclaration nm l) = attribSgTypedefDeclaration E n nm l"
| "attribs_decl E n (UseStatement nm b) = attribSgUseStatement n nm b"
| "attribs_decl E n (VariableDeclaration v d s a) = attribSgVariableDeclaration E n v d s a"

fun inode_decl :: "'s rose \<Rightarrow> sgnode \<Rightarrow> declcls \<Rightarrow> sgnode list" where
  "inode_decl E n (AttributeSpecificationStatement k i p b nms) = inodeSgAttributeSpecificationStatement n nms"
| "inode_decl E n EquivalenceStatement = inodeSgEquivalenceStatement n"
| "inode_decl E n FormatStatement = inodeSgFormatStatement n"
| "inode_decl E n (FunctionDeclaration nm b p v a) = inodeSgFunctionDeclaration n"
| "inode_decl E n NamelistStatement = inodeSgNamelistStatement n"
| "inode_decl E n (TypedefDeclaration nm l) = inodeSgTypedefDeclaration n"
| "inode_decl E n (VariableDeclaration v d s a) = inodeSgVariableDeclaration E n"
| "inode_decl E n d = []"

primrec decl_handler :: "declcls \<Rightarrow> 's handler" where
  "decl_handler (AsmStmt c g r) = visitSgAsmStmt"
| "decl_handler (AttributeSpecificationStatement k i p b nms) = visitSgAttributeSpecificationStatement"
| "decl_handler (ClassDeclaration nm t u a) = visitSgClassDeclaration"
| "decl_handler CommonBlock = visitSgCommonBlock"
| "decl_handler ContainsStatement = visitSgContainsStatement"
| "decl_handler (DerivedTypeStatement nm t u a) = visitSgDerivedTypeStatement"
| "decl_handler (EnumDeclaration nm u) = visitSgEnumDeclaration"
| "decl_handler EquivalenceStatement = visitSgEquivalenceStatement"
| "decl_handler FormatStatement = visitSgFormatStatement"
| "decl_handler (FortranIncludeLine f) = visitSgFortranIncludeLine"
| "decl_handler (FunctionDeclaration nm b p v a) = visitSgFunctionDeclaration"
| "decl_handler FunctionParameterList = visitSgFunctionParameterList"
| "decl_handler (ImplicitStatement b) = visitSgImplicitStatement"
| "decl_handler ImportStatement = visitSgImportStatement"
| "decl_handler (InterfaceStatement nm t) = visitSgInterfaceStatement"
| "decl_handler NamelistStatement = visitSgNamelistStatement"
| "decl_handler PragmaDeclaration = visitSgPragmaDeclaration"
| "decl_handler (TypedefDeclaration nm l) = visitSgTypedefDeclaration"
| "decl_handler (UseStatement nm b) = visitSgUseStatement"
| "decl_handler (VariableDeclaration v d s a) = visitSgVariableDeclaration"

subsection \<open>Reading back\<close>

text \<open>
  A function visits the body after the other children. What else the reader's treatment of the
  children must keep: whether a variable has a type, and a pragma as it is built.
\<close>

definition is_body :: "sgnode \<Rightarrow> bool" where
  "is_body n \<longleftrightarrow> isSgFunctionDefinition n \<or> isSgBasicBlock n"

definition in_order :: "sgcls \<Rightarrow> sgnode list \<Rightarrow> sgnode list" where
  "in_order c xs = (if c_Function c then filter (\<lambda>x. \<not> is_body x) xs @ filter is_body xs else xs)"

definition rebuilds :: "(sgnode \<Rightarrow> sgnode) \<Rightarrow> bool" where
  "rebuilds f \<longleftrightarrow> keeps f \<and> (\<forall>n. slot 0 (inner (f n)) = None \<longleftrightarrow> slot 0 (inner n) = None) \<and>
     (\<forall>n. isSgPragma n \<and> succ n = [] \<and> inner n = [] \<longrightarrow> f n = built (cls n) [] [])"

lemma rebuilds_keeps [simp]: "rebuilds f \<Longrightarrow> keeps f"
  by (simp add: rebuilds_def)

definition attr_shape :: "'s rose \<Rightarrow> int \<Rightarrow> int \<Rightarrow> nat \<Rightarrow> nat \<Rightarrow> string list \<Rightarrow> sgnode option list \<Rightarrow> bool" where
  "attr_shape E k i p b nms ns \<longleftrightarrow> int32 k \<and> int32 i \<and> (case r_attr_kind E k of
      AttrParameters \<Rightarrow> list_all reqE ns \<and> p = length ns \<and> b = 0 \<and> nms = [] \<and> i = 0
    | AttrBind \<Rightarrow> list_all reqE ns \<and> p = 0 \<and> b = length ns \<and> nms = [] \<and> i = 0
    | AttrDimension \<Rightarrow> list_all reqE ns \<and> p = length ns \<and> b = 0 \<and> nms = [] \<and> i = 0 \<and>
        (\<forall>\<sigma> x. r_dimension E \<sigma> x = Some True)
    | AttrData \<Rightarrow> list_all (req isSgDataStatementGroup) ns \<and> p = 0 \<and> b = 0 \<and> nms = [] \<and> i = 0
    | AttrNames \<Rightarrow> ns = [] \<and> p = 0 \<and> b = 0
    | AttrProtected \<Rightarrow> ns = [] \<and> p = 0 \<and> b = 0 \<and> (\<forall>\<sigma>. \<forall>nm \<in> set nms. r_find_var E \<sigma> nm = Some True)
    | AttrUnknown \<Rightarrow> False)"

primrec decl_shape ::
    "'s rose \<Rightarrow> declcls \<Rightarrow> sgnode option list \<Rightarrow> sgnode option list \<Rightarrow> bool" where
  "decl_shape E (AsmStmt c g r) ss ns = (list_all reqE ss \<and> slots [] ns \<and> plain c \<and> list_all int32 r)"
| "decl_shape E (AttributeSpecificationStatement k i p b nms) ss ns =
     (slots [] ss \<and> attr_shape E k i p b nms ns)"
| "decl_shape E (ClassDeclaration nm t u a) ss ns =
     (slots [may isSgClassDefinition] ss \<and> slots [] ns \<and> safe nm \<and> int32 t \<and>
      (\<forall>\<sigma>. r_defined_class E \<sigma> nm = None))"
| "decl_shape E CommonBlock ss ns = (list_all (req isSgCommonBlockObject) ss \<and> slots [] ns)"
| "decl_shape E ContainsStatement ss ns = (slots [] ss \<and> slots [] ns)"
| "decl_shape E (DerivedTypeStatement nm t u a) ss ns =
     (slots [may isSgClassDefinition] ss \<and> slots [] ns \<and> safe nm \<and> t = r_struct E \<and> \<not> u \<and> a)"
| "decl_shape E (EnumDeclaration nm u) ss ns =
     (list_all (req isSgInitializedName) ss \<and> slots [] ns \<and> safe nm \<and> (u \<longrightarrow> r_enum_self E))"
| "decl_shape E EquivalenceStatement ss ns = (slots [] ss \<and> slots [req isSgExprListExp] ns)"
| "decl_shape E FormatStatement ss ns = (slots [] ss \<and> list_all (req isSgFormatItem) ns)"
| "decl_shape E (FortranIncludeLine f) ss ns = (slots [] ss \<and> slots [] ns \<and> safe f)"
| "decl_shape E (FunctionDeclaration nm old p v a) ss ns =
     (slots [req isSgFunctionParameterList, may isSgFunctionDefinition] ss \<and> slots [req isSgType] ns \<and>
      safe nm \<and> int32 v \<and> safe a \<and> (old \<longrightarrow> slot 1 ss \<noteq> None \<and> r_clang E \<and> \<not> r_fortran E))"
| "decl_shape E FunctionParameterList ss ns = (list_all (req isSgInitializedName) ss \<and> slots [] ns)"
| "decl_shape E (ImplicitStatement b) ss ns =
     (list_all (req isSgInitializedName) ss \<and> slots [] ns \<and> (b \<longleftrightarrow> ss = []))"
| "decl_shape E ImportStatement ss ns = (list_all reqE ss \<and> slots [] ns)"
| "decl_shape E (InterfaceStatement nm t) ss ns =
     (list_all (req isSgInterfaceBody) ss \<and> slots [] ns \<and> safe nm \<and> int32 t)"
| "decl_shape E NamelistStatement ss ns = (slots [] ss \<and> list_all (req isSgNameGroup) ns)"
| "decl_shape E PragmaDeclaration ss ns =
     (slots [req (\<lambda>x. isSgPragma x \<and> succ x = [] \<and> inner x = [])] ss \<and> slots [] ns)"
| "decl_shape E (TypedefDeclaration nm l) ss ns =
     (slots [may (\<lambda>x. isSgDeclarationStatement x \<and> (l \<longrightarrow> set_named x = x))] ss \<and> slots [req isSgType] ns \<and>
      safe nm \<and> (r_fortran E \<longrightarrow> slot 0 ss = None))"
| "decl_shape E (UseStatement nm b) ss ns =
     (list_all (req isSgRenamePair) ss \<and> slots [] ns \<and> safe nm \<and>
      (\<forall>\<sigma>. r_find_module E \<sigma> nm \<in> {None, Some (True, Some True)}))"
| "decl_shape E (VariableDeclaration v d s a) ss ns =
     (2 \<le> length ss \<and> may isSgDeclarationStatement (hd ss) \<and> list_all (req isSgInitializedName) (tl ss) \<and>
      slots [may isSgValueExp] ns \<and> int32 v \<and> int32 d \<and> safe s \<and> safe a \<and>
      (hd ss \<noteq> None \<longrightarrow> req (\<lambda>x. slot 0 (inner x) \<noteq> None) (slot 1 ss)) \<and>
      (r_fortran E \<longrightarrow> hd ss = None \<and> slot 0 ns = None))"

definition emit_decl :: "'s rose \<Rightarrow> sgnode \<Rightarrow> declcls \<Rightarrow> sgnode list" where
  "emit_decl E n d = the_list (succ n) @ inode_decl E n d"

lemmas decl_defs = visitSgAsmStmt_def visitSgAttributeSpecificationStatement_def
  visitSgClassDeclaration_def visitSgCommonBlock_def visitSgContainsStatement_def
  visitSgDerivedTypeStatement_def visitSgEnumDeclaration_def visitSgEquivalenceStatement_def
  visitSgFormatStatement_def visitSgFortranIncludeLine_def visitSgFunctionDeclaration_def
  visitSgFunctionParameterList_def visitSgImplicitStatement_def visitSgImportStatement_def
  visitSgInterfaceStatement_def visitSgNamelistStatement_def visitSgPragmaDeclaration_def
  visitSgTypedefDeclaration_def visitSgUseStatement_def visitSgVariableDeclaration_def

lemmas attrib_decl_defs = attribSgAsmStmt_def attribSgAttributeSpecificationStatement_def
  attribSgClassDeclaration_def attribSgEnumDeclaration_def attribSgFortranIncludeLine_def
  attribSgFunctionDeclaration_def attribSgInterfaceStatement_def attribSgTypedefDeclaration_def
  attribSgUseStatement_def attribSgVariableDeclaration_def

lemmas inode_decl_defs = inodeSgAttributeSpecificationStatement_def inodeSgEquivalenceStatement_def
  inodeSgFormatStatement_def inodeSgFunctionDeclaration_def inodeSgNamelistStatement_def
  inodeSgTypedefDeclaration_def inodeSgVariableDeclaration_def

text \<open>Lists of numbers between commas.\<close>

lemma show_int_name: "name_ok (show_int v)" "safe (show_int v)"
proof -
  have "c \<noteq> CHR '','' \<and> c \<noteq> CHR ''&'' \<and> c \<noteq> CHR ''<'' \<and> c \<noteq> CHR 0x22 \<and> c \<noteq> CHR 0x09 \<and> c \<noteq> CHR 0x0A \<and>
      c \<noteq> CHR 0x0D" if "c \<in> set (show_int v)" for c
    using show_int_chars [OF that] by (elim disjE) (auto simp: is_digit_def)
  then show "name_ok (show_int v)" "safe (show_int v)"
    by (auto simp: name_ok_def safe_def list_all_iff)
qed

lemma safe_join: "list_all safe xs \<Longrightarrow> safe (join_names xs)"
  by (induction xs rule: join_names.induct) (simp_all add: safe_def)

lemma read_regs:
  "list_all int32 rs \<Longrightarrow> mapR atoi (strtok (join_names (map show_int rs))) = Inr rs"
proof -
  assume r: "list_all int32 rs"
  have "strtok (join_names (map show_int rs)) = map show_int rs"
    by (rule strtok_join) (simp add: list_all_iff show_int_name)
  moreover have "mapR atoi (map show_int rs) = Inr rs"
    using r by (induction rs) simp_all
  ultimately show ?thesis by simp
qed

lemma names_of_strings: "keeps f \<Longrightarrow> names_of (map f (map buildStringVal nms)) = nms"
  by (induction nms) (simp_all add: names_of_def buildStringVal_def)

lemma first_of_filter: "first_of p xs = (case filter p xs of [] \<Rightarrow> None | x # ys \<Rightarrow> Some x)"
  by (induction xs) simp_all

lemma filter_kids:
  assumes "keeps f" "list_all (req p) xs" "\<And>n. p (f n) = p n"
  shows "map Some (filter p (map f (the_list xs))) = map (map_option f) xs"
  using assms by (intro filter_req) auto

lemma read_attribute_specification:
  assumes shape: "attr_shape E k i p b nms ns" and f: "keeps f"
    and kids: "nodes ks = map f (the_list ns @ map buildStringVal nms)"
  shows "visitSgAttributeSpecificationStatement E \<sigma> (decode_attrs
      (attribSgAttributeSpecificationStatement E n k i @ only u [flag ''unparse'' False sp])) ks =
    Inr (built (decl (AttributeSpecificationStatement k i p b nms)) [] (map (map_option f) ns))"
proof -
  define A where "A = decode_attrs (attribSgAttributeSpecificationStatement E n k i @ only u [flag ''unparse'' False sp])"
  have acc: "hasAttr A ''kind''" "getInt A ''kind'' 0 = Inr k" "getInt A ''intent'' 0 = Inr i"
    using shape by (simp_all add: A_def attribSgAttributeSpecificationStatement_def attr_shape_def look_access)
  have E: "map Some (filter isSgExpression (map f (the_list ns))) = map (map_option f) ns"
    and lE: "length (filter isSgExpression (map f (the_list ns))) = length ns" if "list_all reqE ns"
  proof -
    show "map Some (filter isSgExpression (map f (the_list ns))) = map (map_option f) ns"
      using that f by (intro filter_kids) simp_all
    then show "length (filter isSgExpression (map f (the_list ns))) = length ns" by (metis length_map)
  qed
  have G: "map Some (filter isSgDataStatementGroup (map f (the_list ns))) = map (map_option f) ns"
    if "list_all (req isSgDataStatementGroup) ns"
    using that f by (intro filter_kids) simp_all
  note v = A_def [symmetric] visitSgAttributeSpecificationStatement_def acc
  show ?thesis
  proof (cases "r_attr_kind E k")
    case AttrParameters
    then show ?thesis using shape kids E lE
      unfolding v by (simp add: acc attr_shape_def Let_def)
  next
    case AttrBind
    then show ?thesis using shape kids E lE
      unfolding v by (simp add: acc attr_shape_def Let_def)
  next
    case AttrData
    then show ?thesis using shape kids G
      unfolding v by (simp add: acc attr_shape_def Let_def)
  next
    case AttrDimension
    then have "mapR (\<lambda>e. case r_dimension E \<sigma> e of None \<Rightarrow> Inl (Fatal ''assertion failed: f_def!=0'')
        | Some pushed \<Rightarrow> Inr (if pushed then [e] else [])) xs = Inr (map (\<lambda>e. [e]) xs)" for xs :: "sgnode list"
      using shape by (intro mapR_Inr) (simp add: attr_shape_def)
    then show ?thesis using AttrDimension shape kids E lE
      unfolding v by (simp add: acc attr_shape_def Let_def comp_def concat_map_singleton)
  next
    case AttrProtected
    then have "mapR (check_protected E \<sigma>) nms = Inr (map (\<lambda>_. ()) nms)"
      using shape by (intro mapR_Inr) (simp add: attr_shape_def check_protected_def)
    then show ?thesis using AttrProtected shape kids f names_of_strings [of f nms]
      unfolding v by (simp add: acc attr_shape_def Let_def)
  next
    case AttrNames
    then have "mapR (\<lambda>nm. Inr ()) nms = Inr (map (\<lambda>_. ()) nms)" by (intro mapR_Inr) simp
    then show ?thesis using AttrNames shape kids f names_of_strings [of f nms]
      unfolding v by (simp add: acc attr_shape_def Let_def)
  next
    case AttrUnknown
    then show ?thesis using shape by (simp add: attr_shape_def)
  qed
qed

text \<open>A variable declaration: the base type's declaration is no variable, nor is the bit field.\<close>

lemma read_variable:
  assumes shape: "decl_shape E (VariableDeclaration v d s a) ss ns" and f: "rebuilds f"
    and kids: "nodes ks = map f (the_list ss @ inodeSgVariableDeclaration E (Node h c ss ns))"
  shows "visitSgVariableDeclaration E \<sigma> (decode_attrs
      (attribSgVariableDeclaration E n v d s a @ only u [flag ''unparse'' False sp])) ks =
    Inr (built (decl (VariableDeclaration v d s a)) (map (map_option f) ss) (map (map_option f) ns))"
proof -
  obtain c' x vs where ss: "ss = c' # Some x # vs" "isSgInitializedName x" "list_all (req isSgInitializedName) vs"
    using shape by (cases ss; cases "tl ss") auto
  obtain bit where ns: "ns = [bit]" "may isSgValueExp bit" using shape by auto
  have c': "may isSgDeclarationStatement c'" and r: "r_fortran E \<longrightarrow> c' = None \<and> bit = None"
    and t: "c' \<noteq> None \<longrightarrow> slot 0 (inner x) \<noteq> None"
    using shape ss ns by auto
  have K: "keeps f" using f by simp
  have nm: "isSgInitializedName y \<Longrightarrow> \<not> isSgDeclarationStatement y \<and> \<not> isSgExpression y" for y
    by (cases y rule: isSgExpression.cases) (auto elim: c_Name.elims)
  have dc: "isSgDeclarationStatement y \<Longrightarrow> \<not> isSgInitializedName y \<and> \<not> isSgExpression y" for y
    by (cases y rule: isSgExpression.cases) (auto elim: c_Declaration.elims)
  have ex: "isSgValueExp y \<Longrightarrow> \<not> isSgInitializedName y \<and> \<not> isSgDeclarationStatement y \<and> isSgExpression y" for y
    by (auto elim!: isSgValueExp.elims(2))
  have k: "nodes ks = map f (the_list [c']) @ f x # map f (the_list vs) @ map f (the_list [bit])"
    using kids ss ns r by (cases c') (auto simp: inodeSgVariableDeclaration_def)
  have V: "\<forall>y \<in> set (the_list vs). isSgInitializedName y"
    using ss(3) by (auto simp: set_the_list list_all_iff)
  have names: "map Some (filter isSgInitializedName (nodes ks)) = map_option f (Some x) # map (map_option f) vs"
    and fst: "first_of isSgInitializedName (nodes ks) = Some (f x)"
  proof -
    have "filter isSgInitializedName (map f (the_list [c'])) = []" "filter isSgInitializedName (map f (the_list [bit])) = []"
      using c' ns dc ex K by (cases c'; cases bit; simp)+
    moreover have "map Some (filter isSgInitializedName (map f (the_list vs))) = map (map_option f) vs"
      using ss(3) K by (intro filter_kids) simp_all
    ultimately show "map Some (filter isSgInitializedName (nodes ks)) = map_option f (Some x) # map (map_option f) vs"
      using ss(2) K unfolding k by simp
    then show "first_of isSgInitializedName (nodes ks) = Some (f x)"
      unfolding first_of_filter by (auto split: list.splits)
  qed
  have base: "first_of isSgDeclarationStatement (nodes ks) = map_option f c'"
  proof -
    have "first_of isSgDeclarationStatement (f x # map f (the_list vs) @ map f (the_list [bit])) = None"
      using V ss(2) ns nm ex K by (cases bit) (auto simp: first_of_None)
    then show ?thesis using c' K unfolding k by (cases c') simp_all
  qed
  have exp: "first_of isSgExpression (nodes ks) = map_option f bit"
  proof -
    have "first_of isSgExpression (map f (the_list [c']) @ f x # map f (the_list vs)) = None"
      using V ss(2) c' nm dc K by (cases c') (auto simp: first_of_None)
    then have "first_of isSgExpression ((map f (the_list [c']) @ f x # map f (the_list vs)) @ map f (the_list [bit])) =
        first_of isSgExpression (map f (the_list [bit]))"
      unfolding first_of_append [of _ _ "map f (the_list [bit])"] by simp
    then have "first_of isSgExpression (nodes ks) = first_of isSgExpression (map f (the_list [bit]))"
      unfolding k by simp
    then show ?thesis using ns ex K by (cases bit) simp_all
  qed
  have ty: "slot 0 (inner (f x)) = None \<longleftrightarrow> slot 0 (inner x) = None" using f by (simp add: rebuilds_def)
  let ?A = "decode_attrs (attribSgVariableDeclaration E n v d s a @ only u [flag ''unparse'' False sp])"
  have acc: "getInt ?A ''gnu_visibility'' (r_gnu_visibility E) = Inr v"
    "getInt ?A ''gnu_declaration'' (r_gnu_declaration E) = Inr d"
    "getStr ?A ''gnu_section'' [] = s" "getStr ?A ''gnu_alias'' [] = a"
    using shape by (simp_all add: attribSgVariableDeclaration_def look_access)
  show ?thesis
    unfolding visitSgVariableDeclaration_def Let_def names fst base exp acc
    using t ty r ns K by (cases bit) (auto simp: ss ns)
qed

text \<open>A function: the definition comes last, whatever the order in the document.\<close>

lemma in_order_function:
  assumes "req isSgFunctionParameterList l" "may isSgFunctionDefinition d" "req isSgType t"
  shows "in_order (decl (FunctionDeclaration nm o' p v a)) (the_list [l, d] @ the_list [t]) =
    the_list [l] @ the_list [t] @ the_list [d]"
proof -
  have "\<not> is_body x" if "isSgType x" for x
    using that by (cases x rule: isSgType.cases) (auto simp: is_body_def is_cls_def)
  moreover have "\<not> is_body x" if "isSgFunctionParameterList x" for x
    using that by (auto simp: is_body_def is_cls_def)
  moreover have "is_body x" if "isSgFunctionDefinition x" for x
    using that by (simp add: is_body_def)
  ultimately show ?thesis using assms by (cases d) (auto simp: in_order_def)
qed

lemma read_function:
  assumes shape: "decl_shape E (FunctionDeclaration nm old p v a) ss ns" and f: "keeps f"
    and n: "n = Node h (decl (FunctionDeclaration nm old p v a)) ss ns"
    and kids: "nodes ks = map f (in_order (cls n) (emit_decl E n (FunctionDeclaration nm old p v a)))"
  shows "visitSgFunctionDeclaration E \<sigma> (decode_attrs
      (attribSgFunctionDeclaration E n nm old p v a @ only u [flag ''unparse'' False sp])) ks =
    Inr (built (decl (FunctionDeclaration nm old p v a)) (map (map_option f) ss) (map (map_option f) ns))"
proof -
  obtain l d t where s: "ss = [Some l, d]" "ns = [Some t]" "isSgFunctionParameterList l"
    "may isSgFunctionDefinition d" "isSgType t" using shape by auto
  have k: "nodes ks = f l # f t # map f (the_list [d])"
    using kids in_order_function [of "Some l" d "Some t"] s
    by (cases d) (auto simp: n emit_decl_def inodeSgFunctionDeclaration_def)
  have c: "cls (f l) = cls l" "cls (f t) = cls t" using f by simp_all
  have first: "first_of isSgType (nodes ks) = Some (f t)" "first_of isSgFunctionParameterList (nodes ks) = Some (f l)"
    "first_of isSgFunctionDefinition (nodes ks) = map_option f d"
    using s(3-5) f unfolding k by (cases d; auto elim!: test_elims)+
  define A where "A = decode_attrs (attribSgFunctionDeclaration E n nm old p v a @ only u [flag ''unparse'' False sp])"
  have o': "old \<longrightarrow> d \<noteq> None \<and> r_clang E \<and> \<not> r_fortran E" using shape s by simp
  have acc: "getFlag A ''old'' False = Inr old" "getFlag A ''no_params'' False = Inr p"
    "getInt A ''gnu_visibility'' (r_gnu_visibility E) = Inr v" "getStr A ''name'' [] = nm"
    "getStr A ''gnu_alias'' [] = a" "getFlag A ''definition'' False = Inr (d \<noteq> None)" "hasAttr A ''name''"
    using shape s o' by (auto simp: A_def attribSgFunctionDeclaration_def look_access n Let_def)
  show ?thesis
    unfolding A_def [symmetric] visitSgFunctionDeclaration_def Let_def acc first
    using acc(7) o' s by (cases d; cases old; auto)
qed

lemma set_named_cls:
  "set_named (Node h c ss ns) = Node h c ss ns \<Longrightarrow> set_named (Node h' c ss' ns') = Node h' c ss' ns'"
  by (cases "Node h c ss ns" rule: set_named.cases) auto

lemma set_named_keeps: "keeps f \<Longrightarrow> set_named x = x \<Longrightarrow> set_named (f x) = f x"
  by (metis keeps_tests(1) set_named_cls sgnode.exhaust_sel)

lemma read_typedef:
  assumes shape: "decl_shape E (TypedefDeclaration nm l) ss ns" and f: "keeps f"
    and kids: "nodes ks = map f (the_list ss @ inodeSgTypedefDeclaration (Node h c ss ns))"
  shows "visitSgTypedefDeclaration E \<sigma> (decode_attrs
      (attribSgTypedefDeclaration E n nm l @ only u [flag ''unparse'' False sp])) ks =
    Inr (built (decl (TypedefDeclaration nm l)) (map (map_option f) ss) (map (map_option f) ns))"
proof -
  obtain d t where s: "ss = [d]" "ns = [Some t]" "isSgType t" "may isSgDeclarationStatement d"
    "l \<longrightarrow> may (\<lambda>x. set_named x = x) d" "r_fortran E \<longrightarrow> d = None" "safe nm"
    using shape by (cases "slot 0 ss") auto
  have no_decl: "\<not> isSgDeclarationStatement x" if "isSgType x" for x
    using that by (cases x rule: isSgType.cases) auto
  have no_type: "\<not> isSgType x" if "isSgDeclarationStatement x" for x
    using that no_decl by blast
  have k: "nodes ks = map f (the_list [d]) @ [f t]"
    using kids s by (cases d) (simp_all add: inodeSgTypedefDeclaration_def)
  have first: "first_of isSgType (nodes ks) = Some (f t)"
    "first_of isSgDeclarationStatement (nodes ks) = map_option f d"
    using s(3,4) f no_decl no_type unfolding k by (cases d; auto)+
  have named: "l \<longrightarrow> map_option set_named (map_option f d) = map_option f d"
    using s(5) set_named_keeps [OF f] by (cases d) auto
  define A where "A = decode_attrs (attribSgTypedefDeclaration E n nm l @ only u [flag ''unparse'' False sp])"
  have acc: "getFlag A ''list'' False = Inr l" "getStr A ''name'' [] = nm" "hasAttr A ''name''"
    using s(7) by (auto simp: A_def attribSgTypedefDeclaration_def look_access)
  show ?thesis
    unfolding A_def [symmetric] visitSgTypedefDeclaration_def Let_def acc first
    using acc(3) named s by (cases l; cases d) auto
qed

lemma in_order_other [simp]: "\<not> c_Function c \<Longrightarrow> in_order c xs = xs"
  by (simp add: in_order_def)

lemma read_decl:
  assumes shape: "decl_shape E d ss ns" and f: "rebuilds f" and n: "n = Node h (decl d) ss ns"
    and kids: "nodes ks = map f (in_order (cls n) (emit_decl E n d))"
  shows "decl_handler d E \<sigma> (decode_attrs (attribs_decl E n d @ only u [flag ''unparse'' False sp])) ks =
    Inr (built (decl d) (map (map_option f) ss) (map (map_option f) ns))"
proof -
  have K: "keeps f" using f by simp
  note d = decl_defs attrib_decl_defs look_access
  show ?thesis
  proof (cases d)
    case (AttributeSpecificationStatement k i p b nms)
    then show ?thesis
      using read_attribute_specification [of E k i p b nms ns f ks \<sigma> n u] shape K kids
      by (simp add: n emit_decl_def inodeSgAttributeSpecificationStatement_def)
  next
    case (FunctionDeclaration nm b p v a)
    then show ?thesis using read_function [OF _ K, of E nm b p v a ss ns n h ks \<sigma> u] shape kids n by simp
  next
    case (TypedefDeclaration nm l)
    then show ?thesis using read_typedef [OF _ K, of E nm l ss ns ks h "cls n" \<sigma> n u] shape kids
      by (simp add: n emit_decl_def)
  next
    case (VariableDeclaration v de s a)
    then show ?thesis using read_variable [OF _ f, of E v de s a ss ns ks h "cls n" \<sigma> n u] shape kids
      by (simp add: n emit_decl_def)
  next
    case (UseStatement nm b)
    then have "r_find_module E \<sigma> nm = None \<or> r_find_module E \<sigma> nm = Some (True, Some True)"
      using shape by auto
    then show ?thesis using UseStatement shape K kids
      by (elim disjE) (auto simp: n emit_decl_def d filter_req Let_def)
  next
    case PragmaDeclaration
    have "isSgPragma (built (cls p) [] [])" if "isSgPragma p" for p
      using that by (auto elim!: isSgPragma.elims)
    then show ?thesis using PragmaDeclaration f shape K kids
      by (auto simp: n emit_decl_def d rebuilds_def)
  next
    case (ClassDeclaration nm t un au)
    then show ?thesis using shape K kids
      by (cases "slot 0 ss") (auto simp: n emit_decl_def d getBool_look)
  next
    case (DerivedTypeStatement nm t un au)
    then show ?thesis using shape K kids
      by (cases "slot 0 ss") (auto simp: n emit_decl_def d)
  next
    case (EnumDeclaration nm un)
    then show ?thesis using shape K kids
      by (auto simp: n emit_decl_def d getBool_look filter_req)
  next
    case (ImplicitStatement b)
    then show ?thesis using shape K kids filter_req [of isSgInitializedName ss f]
      by (cases ss) (auto simp: n emit_decl_def d)
  next
    case (AsmStmt co g r)
    then show ?thesis using shape K kids safe_join [of "map show_int r"]
      by (auto simp: n emit_decl_def d filter_req read_regs show_int_name list_all_iff)
  qed (use shape K kids in \<open>auto simp: n emit_decl_def inode_decl_defs d filter_req\<close>)
qed

subsection \<open>Reading the modifiers back\<close>

text \<open>
  Four classes do not write their modifiers; what is read for them is a new declaration's, with the
  type, const-volatile, storage and thread modifiers at their defaults.
\<close>

primrec writes_mods :: "declcls \<Rightarrow> bool" where
  "writes_mods (AsmStmt c g r) = True"
| "writes_mods (AttributeSpecificationStatement k i p b nms) = True"
| "writes_mods (ClassDeclaration nm t u a) = True"
| "writes_mods CommonBlock = True"
| "writes_mods ContainsStatement = True"
| "writes_mods (DerivedTypeStatement nm t u a) = True"
| "writes_mods (EnumDeclaration nm u) = True"
| "writes_mods EquivalenceStatement = True"
| "writes_mods FormatStatement = True"
| "writes_mods (FortranIncludeLine f) = False"
| "writes_mods (FunctionDeclaration nm b p v a) = True"
| "writes_mods FunctionParameterList = True"
| "writes_mods (ImplicitStatement b) = True"
| "writes_mods ImportStatement = True"
| "writes_mods (InterfaceStatement nm t) = False"
| "writes_mods NamelistStatement = False"
| "writes_mods PragmaDeclaration = True"
| "writes_mods (TypedefDeclaration nm l) = True"
| "writes_mods (UseStatement nm b) = False"
| "writes_mods (VariableDeclaration v d s a) = True"

definition canon_mods :: "'s rose \<Rightarrow> hdr \<Rightarrow> sgcls \<Rightarrow> declmods option" where
  "canon_mods E h c = (case c of
     SgStmt (Declaration d) \<Rightarrow> Some (if writes_mods d then mods_of E h else bare_mods E)
   | _ \<Rightarrow> None)"

definition mods_ok :: "'s rose \<Rightarrow> sgnode \<Rightarrow> declcls \<Rightarrow> bool" where
  "mods_ok E n d \<longleftrightarrow> writes_mods d \<longrightarrow>
     decl_mods_ok E n (mods_of E (hd_of n)) \<and> fun_mods_ok E (c_Function (decl d)) (mods_of E (hd_of n))"

text \<open>What the attributes of a class leave of the modifiers.\<close>

lemma decl_same_mods:
  "writes_mods d \<Longrightarrow> same_mods (attribs_decl E n d) (attribSgDeclarationStatement E n)"
  "\<not> writes_mods d \<Longrightarrow> same_mods (attribs_decl E n d) []"
  by (cases d; simp add: same_mods_simps same_mods_statement attrib_decl_defs Let_def mod_names_def)+

lemma look_decl_rest:
  "look (attribs_decl E n d) ''result'' = None" "look (attribs_decl E n d) ''unparse'' = None"
  "look (attribs_decl E n d) ''paren'' = None"
  "look (attribs_decl E n d) ''label'' = map_option show_int (h_label (hd_of n))"
  by (cases d; simp add: attrib_decl_defs Let_def)+

lemma look_fun_mods:
  fixes E :: "'s rose" and n nm old p v a
  defines "cs \<equiv> attribSgFunctionDeclaration E n nm old p v a" and "m \<equiv> mods_of E (hd_of n)"
  shows "look cs ''function_modifier'' = (let i = uint (pack_bits (dm_fun m)) in if 2 < i then Some (show_int i) else None)"
    "look cs ''end_name'' = (if r_fortran E then Some (show_bool (dm_end m)) else None)"
    "look cs ''asm_name'' = (if True \<and> dm_asm m \<noteq> [] then Some (xml_refs (dm_asm m)) else None)"
    "look cs ''regparm'' = (if 0 < dm_regparm m then Some (show_int (dm_regparm m)) else None)"
  by (simp_all add: cs_def m_def attribSgFunctionDeclaration_def Let_def cong: conj_cong)

lemma look_unparse_tail:
  "nm \<noteq> ''unparse'' \<Longrightarrow> look (cs @ only u [flag ''unparse'' False sp]) nm = look cs nm"
  by (cases u) (simp_all split: option.splits)

lemma not_fun_mods: "fun_mods_ok E False m \<Longrightarrow> m\<lparr>dm_fun := dm_fun (r_mods E), dm_end := dm_end (r_mods E),
    dm_asm := dm_asm (r_mods E), dm_regparm := dm_regparm (r_mods E)\<rparr> = m"
  by (cases m) (simp add: fun_mods_ok_def Let_def)

lemma checkDeclStmt_written:
  assumes ok: "mods_ok E n d"
  shows "checkDeclStmt E (decode_attrs (attribs_decl E n d @ only u [flag ''unparse'' False sp])) (Node h (decl d) ss ns) =
    Inr (Node (h\<lparr>h_mods := canon_mods E (hd_of n) (decl d)\<rparr>) (decl d) ss ns)"
proof (cases "writes_mods d")
  case False
  then have "\<not> c_Function (decl d)" by (cases d) simp_all
  then show ?thesis
    using False read_decl_mods_bare [of "attribs_decl E n d @ only u [flag ''unparse'' False sp]" E] decl_same_mods(2) [of d E n]
    by (simp add: checkDeclStmt_def canon_mods_def same_mods_tail)
next
  case True
  let ?cs = "attribs_decl E n d @ only u [flag ''unparse'' False sp]"
  let ?m = "mods_of E (hd_of n)"
  have 1: "read_decl_mods E (decode_attrs ?cs) = Inr (?m\<lparr>dm_fun := dm_fun (r_mods E), dm_end := dm_end (r_mods E),
      dm_asm := dm_asm (r_mods E), dm_regparm := dm_regparm (r_mods E)\<rparr>)"
    using ok True
    by (intro read_decl_mods_written) (simp_all add: mods_ok_def same_mods_tail decl_same_mods)
  have no: "\<not> hasAttr (decode_attrs ?cs) ''result''"
    by (simp add: hasAttr_look look_unparse_tail look_decl_rest del: look_simps)
  show ?thesis
  proof (cases "c_Function (decl d)")
    case False
    then show ?thesis using 1 ok True
      by (simp add: checkDeclStmt_def canon_mods_def mods_ok_def not_fun_mods)
  next
    case fn: True
    then obtain nm old p v a where d: "d = FunctionDeclaration nm old p v a" by (cases d) simp_all
    have "read_fun_mods (decode_attrs ?cs) (?m\<lparr>dm_fun := dm_fun (r_mods E), dm_end := dm_end (r_mods E),
        dm_asm := dm_asm (r_mods E), dm_regparm := dm_regparm (r_mods E)\<rparr>) = Inr ?m"
      using ok fn d
      by (intro read_fun_mods_written) (simp_all add: mods_ok_def look_unparse_tail look_fun_mods del: look_simps)
    then show ?thesis using 1 fn True no by (simp add: checkDeclStmt_def canon_mods_def)
  qed
qed

lemma checkDeclStmt_other: "\<not> isSgDeclarationStatement n \<Longrightarrow> checkDeclStmt E A n = Inr n"
  by (simp add: checkDeclStmt_def)

end
