(* ===== verification/StmtCodec.thy ===== *)
theory StmtCodec
  imports IoStmt DeclCodec
begin

text \<open>
  The statement classes of \<open>src/stmt.cpp\<close> other than input/output, declarations among them: the attributes and internal nodes
  that the writer prints, the element handlers of the reader, and the text that may stand between
  the statements of a block. \<open>read_stmt\<close> is the lemma of the theory.
\<close>

subsection \<open>Text between statements\<close>

text \<open>
  The lines of a text that hold more than white space, with their line ends; \<open>line\<close> is the line
  read so far and \<open>keep\<close> whether it holds something.
\<close>

fun visible_lines :: "string \<Rightarrow> bool \<Rightarrow> string \<Rightarrow> string" where
  "visible_lines line keep [] = (if keep then line else [])"
| "visible_lines line keep (c # cs) =
     (let keep' = (keep \<or> \<not> isspace c); line' = line @ [c] in
      if c = CHR 0x0A then (if keep' then line' else []) @ visible_lines [] False cs
      else visible_lines line' keep' cs)"

definition attachRawText :: "'s rose \<Rightarrow> int \<Rightarrow> string \<Rightarrow> sgnode \<Rightarrow> sgnode" where
  "attachRawText E pos text n = (case n of Node h c ss ns \<Rightarrow>
     Node (h\<lparr>h_ppi := h_ppi h @ [\<lparr>pp_pos = pos, pp_type = r_linemarker E, pp_text = text\<rparr>]\<rparr>) c ss ns)"

text \<open>
  The loop of \<open>traverseStatementsAndTexts\<close>: the statements appended so far, the last of them being
  \<open>prev\<close>, and the text that waits for the first statement.
\<close>

fun statements_and_texts ::
    "'s rose \<Rightarrow> kid list \<Rightarrow> sgnode list \<Rightarrow> string \<Rightarrow> sgnode list \<times> string" where
  "statements_and_texts E [] done remain = (done, remain)"
| "statements_and_texts E (KNode n # ks) done remain =
     (if isSgStatement n
      then statements_and_texts E ks
        (done @ [if remain \<noteq> [] then attachRawText E (r_before E) remain n else n]) []
      else statements_and_texts E ks done remain)"
| "statements_and_texts E (KNull # ks) done remain = statements_and_texts E ks done remain"
| "statements_and_texts E (KText s # ks) done remain =
     (let text = visible_lines [] False s in
      if text = [] then statements_and_texts E ks done remain
      else if done \<noteq> []
      then statements_and_texts E ks
        (butlast done @ [attachRawText E (r_after E) text (last done)]) remain
      else statements_and_texts E ks done text)"

definition traverseStatementsAndTexts :: "'s rose \<Rightarrow> stmtcls \<Rightarrow> kid list \<Rightarrow> sgnode" where
  "traverseStatementsAndTexts E c ks =
     (let (stmts, remain) = statements_and_texts E ks [] [];
          blk = built (SgStmt c) (map Some stmts) []
      in if remain \<noteq> [] then attachRawText E (r_inside E) remain blk else blk)"

definition visitSgBasicBlock :: "'s handler" where
  "visitSgBasicBlock E \<sigma> A ks = Inr (traverseStatementsAndTexts E BasicBlock ks)"

definition visitSgGlobal :: "'s handler" where
  "visitSgGlobal E \<sigma> A ks = Inr (traverseStatementsAndTexts E Global ks)"

text \<open>White space leaves no trace.\<close>

lemma visible_lines_blank: "blank s \<Longrightarrow> blank line \<Longrightarrow> visible_lines line False s = []"
  by (induction s arbitrary: line) (auto simp: blank_def Let_def)

definition blank_kids :: "kid list \<Rightarrow> bool" where
  "blank_kids ks \<longleftrightarrow> (\<forall>s. KText s \<in> set ks \<longrightarrow> blank s)"

lemma statements_and_texts_blank:
  "blank_kids ks \<Longrightarrow>
     statements_and_texts E ks done [] = (done @ filter isSgStatement (nodes ks), [])"
proof (induction ks arbitrary: "done")
  case (Cons k ks)
  then have IH: "statements_and_texts E ks d [] = (d @ filter isSgStatement (nodes ks), [])" for d
    by (auto simp: blank_kids_def)
  show ?case
  proof (cases k)
    case (KText s)
    then have "visible_lines [] False s = []"
      using Cons.prems by (intro visible_lines_blank) (auto simp: blank_kids_def blank_def)
    then show ?thesis using KText IH by simp
  qed (auto simp: IH)
qed simp

lemma traverse_blank:
  "blank_kids ks \<Longrightarrow> traverseStatementsAndTexts E c ks =
     built (SgStmt c) (map Some (filter isSgStatement (nodes ks))) []"
  by (simp add: traverseStatementsAndTexts_def statements_and_texts_blank)

subsection \<open>Labels\<close>

definition name_attr :: "string \<Rightarrow> string \<Rightarrow> string \<Rightarrow> chunk list" where
  "name_attr nm s t = only (s \<noteq> []) [raw nm s t]"

definition label_attr :: "string \<Rightarrow> int option \<Rightarrow> chunk list" where
  "label_attr nm l = opt l (\<lambda>v. [num nm v sp])"

text \<open>A label that is set when its attribute is there, and one that is set when it is not zero.\<close>

definition get_label :: "attrs \<Rightarrow> string \<Rightarrow> int option res" where
  "get_label A nm = bind_res (getInt A nm 0) (\<lambda>v. Inr (if hasAttr A nm then Some v else None))"

definition get_label0 :: "attrs \<Rightarrow> string \<Rightarrow> int option res" where
  "get_label0 A nm = bind_res (getInt A nm 0) (\<lambda>v. Inr (if v \<noteq> 0 then Some v else None))"

subsection \<open>Statements without a body\<close>

definition visitSgAllocateStatement :: "'s handler" where
  "visitSgAllocateStatement E \<sigma> A ks =
     (let v = fill [isSgExprListExp, isSgExpression] (nodes ks)
      in Inr (built (SgStmt AllocateStatement) [slot 0 v, slot 1 v] []))"

definition visitSgDeallocateStatement :: "'s handler" where
  "visitSgDeallocateStatement E \<sigma> A ks =
     (let v = fill [isSgExprListExp, isSgExpression] (nodes ks)
      in Inr (built (SgStmt DeallocateStatement) [slot 0 v, slot 1 v] []))"

definition visitSgArithmeticIfStatement :: "'s handler" where
  "visitSgArithmeticIfStatement E \<sigma> A ks =
     (let v = fill [isSgExpression, isSgLabelRefExp, isSgLabelRefExp, isSgLabelRefExp] (nodes ks) in
      need ''SgArithmeticIfStatement needs 4 child nodes of SgExpression'' (slot 3 v)
        (\<lambda>grt. Inr (built (SgStmt ArithmeticIfStatement) [slot 0 v] [slot 1 v, slot 2 v, Some grt])))"

text \<open>The three labels are not traversal successors; they are visited as internal nodes.\<close>

definition inodeSgArithmeticIfStatement :: "sgnode \<Rightarrow> sgnode list" where
  "inodeSgArithmeticIfStatement n =
     the_list [slot 0 (inner n)] @ the_list [slot 1 (inner n)] @ the_list [slot 2 (inner n)]"

definition visitSgBreakStmt :: "'s handler" where
  "visitSgBreakStmt E \<sigma> A ks = Inr (built (SgStmt (BreakStmt (getStr A ''slabel'' []))) [] [])"

definition attribSgBreakStmt :: "hdr \<Rightarrow> string \<Rightarrow> chunk list" where
  "attribSgBreakStmt h do_label = name_attr ''slabel'' do_label [] @ attribSgStatement h"

definition visitSgContinueStmt :: "'s handler" where
  "visitSgContinueStmt E \<sigma> A ks = Inr (built (SgStmt (ContinueStmt (getStr A ''slabel'' []))) [] [])"

definition attribSgContinueStmt :: "hdr \<Rightarrow> string \<Rightarrow> chunk list" where
  "attribSgContinueStmt h do_label = name_attr ''slabel'' do_label [] @ attribSgStatement h"

definition visitSgComputedGotoStatement :: "'s handler" where
  "visitSgComputedGotoStatement E \<sigma> A ks =
     (let v = fill [isSgExprListExp, isSgExpression] (nodes ks) in
      need ''SgComputedGotoStatement needs a child node of SgExprListExp'' (slot 0 v) (\<lambda>exp.
      need ''SgComputedGotoStatement needs a child node of SgExpression'' (slot 1 v) (\<lambda>var.
        Inr (built (SgStmt ComputedGotoStatement) [Some exp, Some var] []))))"

definition visitSgExprStatement :: "'s handler" where
  "visitSgExprStatement E \<sigma> A ks =
     need ''SgExprStatement needs a child node of SgExpression'' (first_of isSgExpression (nodes ks))
       (\<lambda>exp. Inr (built (SgStmt ExprStatement) [Some exp] []))"

text \<open>A numeric label replaces the statement label by one that is named after it.\<close>

definition visitSgGotoStatement :: "'s handler" where
  "visitSgGotoStatement E \<sigma> A ks =
     (let n_name = getStr A ''nlabel'' [];
          label = (if hasAttr A ''nlabel'' then Some n_name
                   else if hasAttr A ''slabel'' then Some (getStr A ''slabel'' []) else None)
      in bind_res (atoi n_name) (\<lambda>ino.
           Inr (built (SgStmt (GotoStatement label (if n_name \<noteq> [] then Some ino else None))) [] [])))"

definition attribSgGotoStatement :: "hdr \<Rightarrow> string option \<Rightarrow> int option \<Rightarrow> chunk list" where
  "attribSgGotoStatement h label l =
     opt label (\<lambda>nm. [raw ''slabel'' nm []]) @ label_attr ''nlabel'' l @ attribSgStatement h"

definition visitSgNullStatement :: "'s handler" where
  "visitSgNullStatement E \<sigma> A ks = Inr (built (SgStmt NullStatement) [] [])"

definition visitSgNullifyStatement :: "'s handler" where
  "visitSgNullifyStatement E \<sigma> A ks =
     need ''SgNullifyStatement needs a child node of SgExprListExp''
       (first_of isSgExprListExp (nodes ks))
       (\<lambda>plst. Inr (built (SgStmt NullifyStatement) [Some plst] []))"

text \<open>
  The alternate return of Fortran: the parameters of label type are counted, and a reference to the
  label of the one meant replaces the expression.
\<close>

fun alt_param :: "int \<Rightarrow> int \<Rightarrow> (bool \<times> 'b) list \<Rightarrow> (nat \<times> 'b) option" where
  "alt_param retval counter [] = None"
| "alt_param retval counter ((is_label, s) # args) =
     (if is_label \<and> counter = retval then Some (0, s)
      else map_option (\<lambda>(i, s). (Suc i, s))
             (alt_param retval (if is_label then counter + 1 else counter) args))"

definition alt_return ::
    "'s rose \<Rightarrow> 's \<Rightarrow> int \<Rightarrow> sgnode \<Rightarrow> sgnode res" where
  "alt_return E \<sigma> retval exp = (case r_alt_params E \<sigma> of
      None \<Rightarrow> Inl (Fatal ''enclosing function definition not found'')
    | Some args \<Rightarrow>
        if retval < 1 \<or> int (length args) < retval
        then Inl (Fatal ''invalid label for alternative return'')
        else (case alt_param retval 1 args of
            None \<Rightarrow> Inr exp
          | Some (i, None) \<Rightarrow> Inl (Fatal ''symbol for alternative return not found'')
          | Some (i, Some None) \<Rightarrow> Inl (Fatal ''label symbol for alternative return not found'')
          | Some (i, Some (Some (ltype, number))) \<Rightarrow>
              Inr (Node (hdr0\<lparr>h_file := Some transformation\<rparr>)
                (SgExpr (LabelRefExp ltype number
                  (Some (map (\<lambda>j. (fst (args ! j), j = i)) [0..<length args])))) [] [None])))"

definition label_number :: "sgnode \<Rightarrow> int" where
  "label_number n = (case cls n of SgExpr (LabelRefExp t i a) \<Rightarrow> i | _ \<Rightarrow> 0)"

definition visitSgReturnStmt :: "'s handler" where
  "visitSgReturnStmt E \<sigma> A ks = (case first_of isSgExpression (nodes ks) of
      None \<Rightarrow> Inr (built (SgStmt ReturnStmt) [None] [])
    | Some exp \<Rightarrow>
        if r_fortran E \<and> isSgLabelRefExp exp
        then bind_res (alt_return E \<sigma> (label_number exp) exp)
               (\<lambda>e. Inr (built (SgStmt ReturnStmt) [Some e] []))
        else Inr (built (SgStmt ReturnStmt) [Some exp] []))"

text \<open>Without a code the statement gets a null expression.\<close>

definition visitSgStopOrPauseStatement :: "'s handler" where
  "visitSgStopOrPauseStatement E \<sigma> A ks =
     bind_res (getInt A ''type'' 0) (\<lambda>typ.
       let cod = (case first_of isSgExpression (nodes ks) of
             None \<Rightarrow> Node (hdr0\<lparr>h_file := Some transformation\<rparr>) (SgExpr NullExpression) [] [None]
           | Some c \<Rightarrow> c)
       in Inr (built (SgStmt (StopOrPauseStatement typ)) [] [Some cod]))"

definition attribSgStopOrPauseStatement :: "hdr \<Rightarrow> int \<Rightarrow> chunk list" where
  "attribSgStopOrPauseStatement h typ = num ''type'' typ sp # attribSgStatement h"

definition inodeSgStopOrPauseStatement :: "sgnode \<Rightarrow> sgnode list" where
  "inodeSgStopOrPauseStatement n = the_list [slot 0 (inner n)]"

subsection \<open>Statements with a body\<close>

definition visitSgAssociateStatement :: "'s handler" where
  "visitSgAssociateStatement E \<sigma> A ks =
     need ''SgAssociateStatement needs a child node of SgBasicBlock'' (first_of isSgBasicBlock (nodes ks)) (\<lambda>body.
     need ''SgAssociateStatement needs a child node of SgVariableDeclaration''
       (first_of isSgVariableDeclaration (nodes ks)) (\<lambda>dec.
       Inr (built (SgStmt AssociateStatement) [Some dec, Some body] [])))"

text \<open>Key, body and the end of a range of keys, in this order.\<close>

definition visitSgCaseOptionStmt :: "'s handler" where
  "visitSgCaseOptionStmt E \<sigma> A ks =
     (let v = fill [isSgExpression, isSgStatement, isSgExpression] (nodes ks) in
      need ''SgCaseOptionStmt needs a child node of SgExpression'' (slot 0 v) (\<lambda>key.
      need ''SgCaseOptionStmt needs a child node of SgStatement'' (slot 1 v) (\<lambda>body.
        Inr (built (SgStmt (CaseOptionStmt (getStr A ''construct'' [])))
              [Some key, Some body, slot 2 v] []))))"

definition attribSgCaseOptionStmt :: "hdr \<Rightarrow> string \<Rightarrow> chunk list" where
  "attribSgCaseOptionStmt h c = name_attr ''construct'' c sp @ attribSgStatement h"

text \<open>
  The members of a class are declarations; a declaration of the class around it is needed, which the
  visitor checks. In Fortran an interface that names a function of the class gets a symbol.
\<close>

definition visitSgClassDefinition :: "'s handler" where
  "visitSgClassDefinition E \<sigma> A ks =
     bind_res (getFlag A ''sequence'' False) (\<lambda>seq. bind_res (getFlag A ''private'' False) (\<lambda>pri.
     bind_res (getFlag A ''abstract'' False) (\<lambda>abst.
       Inr (built (SgStmt (ClassDefinition seq pri abst))
              (map Some (filter isSgDeclarationStatement (nodes ks))) []))))"

definition attribSgClassDefinition :: "'s rose \<Rightarrow> hdr \<Rightarrow> bool \<Rightarrow> bool \<Rightarrow> bool \<Rightarrow> chunk list" where
  "attribSgClassDefinition E h seq pri abst =
     only (r_fortran E) [flag ''sequence'' seq sp, flag ''private'' pri sp, flag ''abstract'' abst sp]
     @ attribSgStatement h"

definition visitSgDefaultOptionStmt :: "'s handler" where
  "visitSgDefaultOptionStmt E \<sigma> A ks =
     need ''SgDefaultOptionStmt needs a child node of SgStatement'' (first_of isSgStatement (nodes ks))
       (\<lambda>body. Inr (built (SgStmt (DefaultOptionStmt (getStr A ''construct'' []))) [Some body] []))"

definition attribSgDefaultOptionStmt :: "hdr \<Rightarrow> string \<Rightarrow> chunk list" where
  "attribSgDefaultOptionStmt h c = name_attr ''construct'' c sp @ attribSgStatement h"

definition visitSgDoWhileStmt :: "'s handler" where
  "visitSgDoWhileStmt E \<sigma> A ks =
     (let v = fill [isSgStatement, isSgExprStatement] (nodes ks) in
      need ''SgDoWhileStmt needs a child node of SgStatement'' (slot 0 v) (\<lambda>body.
      need ''SgDoWhileStmt needs a child node of SgExprStatement'' (slot 1 v) (\<lambda>cond.
        Inr (built (SgStmt DoWhileStmt) [Some body, Some cond] []))))"

definition visitSgElseWhereStatement :: "'s handler" where
  "visitSgElseWhereStatement E \<sigma> A ks =
     (let v = fill [isSgExpression, isSgBasicBlock, isSgElseWhereStatement] (nodes ks) in
      need ''SgDoElseWhileStmt needs a child node of SgBasicBlock'' (slot 1 v) (\<lambda>body.
      need ''SgDoElseWhileStmt needs a child node of SgExpression'' (slot 0 v) (\<lambda>cond.
        Inr (built (SgStmt ElseWhereStatement) [Some cond, Some body, slot 2 v] []))))"

definition visitSgForAllStatement :: "'s handler" where
  "visitSgForAllStatement E \<sigma> A ks =
     (let v = fill [isSgExprListExp, isSgBasicBlock] (nodes ks) in
      need ''SgForAllStatement needs a child node of SgExprListExp'' (slot 0 v) (\<lambda>hed.
      need ''SgForAllStatement needs a child node of SgBasicBlock'' (slot 1 v) (\<lambda>bdy.
        Inr (built (SgStmt ForAllStatement) [Some hed, Some bdy] []))))"

definition visitSgForInitStatement :: "'s handler" where
  "visitSgForInitStatement E \<sigma> A ks =
     Inr (built (SgStmt ForInitStatement) (map Some (filter isSgStatement (nodes ks))) [])"

definition visitSgForStatement :: "'s handler" where
  "visitSgForStatement E \<sigma> A ks =
     (let v = fill [isSgForInitStatement, isSgStatement, isSgExpression, isSgStatement] (nodes ks) in
      need ''SgForStatement needs a child node of SgForInitStatement'' (slot 0 v) (\<lambda>ini.
      need ''SgForStatement needs 2 child nodes of SgStatement'' (slot 3 v) (\<lambda>bdy.
      need ''SgForStatement needs a child node of SgExpression'' (slot 2 v) (\<lambda>inc.
        case slot 1 v of
          None \<Rightarrow> Inl (Undef ''set_parent of a null statement'')
        | Some tst \<Rightarrow> Inr (built (SgStmt ForStatement) [Some ini, Some tst, Some inc, Some bdy] [])))))"

definition visitSgFortranDo :: "'s handler" where
  "visitSgFortranDo E \<sigma> A ks =
     bind_res (getFlag A ''style'' False) (\<lambda>style. bind_res (getFlag A ''end'' False) (\<lambda>enddo.
     bind_res (get_label0 A ''elabel'') (\<lambda>nlabel.
       let v = fill [isSgExpression, isSgExpression, isSgExpression, isSgBasicBlock] (nodes ks)
       in Inr (built (SgStmt (FortranDo style enddo nlabel (getStr A ''slabel'' [])))
                [slot 0 v, slot 1 v, slot 2 v, slot 3 v] []))))"

definition attribSgFortranDo :: "hdr \<Rightarrow> bool \<Rightarrow> bool \<Rightarrow> int option \<Rightarrow> string \<Rightarrow> chunk list" where
  "attribSgFortranDo h style enddo l slabel =
     [flag ''style'' style sp, flag ''end'' enddo sp] @ label_attr ''elabel'' l
     @ name_attr ''slabel'' slabel sp @ attribSgStatement h"

definition visitSgFunctionDefinition :: "'s handler" where
  "visitSgFunctionDefinition E \<sigma> A ks =
     Inr (built (SgStmt FunctionDefinition) [first_of isSgBasicBlock (nodes ks)] [])"

definition visitSgIfStmt :: "'s handler" where
  "visitSgIfStmt E \<sigma> A ks =
     bind_res (getFlag A ''then'' True) (\<lambda>ukey. bind_res (getFlag A ''end'' True) (\<lambda>estmt.
       let v = fill [isSgExprStatement, isSgStatement, isSgStatement] (nodes ks) in
       need ''SgIfStmt needs a child node of SgExprStatement'' (slot 0 v) (\<lambda>cond.
       need ''SgIfStmt needs a child node of SgStatement'' (slot 1 v) (\<lambda>tstmt.
       bind_res (get_label A ''elabel'') (\<lambda>el. bind_res (get_label A ''ellabel'') (\<lambda>ll.
         Inr (built (SgStmt (IfStmt estmt ukey el ll (getStr A ''slabel'' [])))
               [Some cond, Some tstmt, slot 2 v] [])))))))"

definition attribSgIfStmt ::
    "hdr \<Rightarrow> bool \<Rightarrow> bool \<Rightarrow> int option \<Rightarrow> int option \<Rightarrow> string \<Rightarrow> chunk list" where
  "attribSgIfStmt h estmt ukey el ll slabel =
     [flag ''end'' estmt sp, flag ''then'' ukey sp] @ label_attr ''elabel'' el
     @ label_attr ''ellabel'' ll @ name_attr ''slabel'' slabel sp @ attribSgStatement h"

text \<open>
  A label statement is built from the numeric label when there is one; its own label attribute is
  not the one of other statements. The numeric value is the stream's reading of the text.
\<close>

definition visitSgLabelStatement :: "'s handler" where
  "visitSgLabelStatement E \<sigma> A ks =
     (let slabel = getStr A ''slabel'' []; nlabel = getStr A ''nlabel'' [];
          body = first_of isSgStatement (nodes ks)
      in if nlabel \<noteq> []
         then let ino = (case scan_int32 nlabel of None \<Rightarrow> 0 | Some v \<Rightarrow> v)
              in Inr (Node (hdr0\<lparr>h_label := Some ino\<rparr>) (SgStmt (LabelStatement nlabel)) [body] [])
         else Inr (built (SgStmt (LabelStatement slabel)) [body] []))"

definition attribSgLabelStatement :: "hdr \<Rightarrow> string \<Rightarrow> chunk list" where
  "attribSgLabelStatement h nm = (case h_label h of
      Some l \<Rightarrow> [num ''nlabel'' l sp]
    | None \<Rightarrow> [raw ''slabel'' nm sp])"

definition visitSgSwitchStatement :: "'s handler" where
  "visitSgSwitchStatement E \<sigma> A ks =
     (let v = fill [isSgStatement, isSgStatement] (nodes ks) in
      if slot 0 v = None \<or> slot 1 v = None
      then Inl (Fatal ''SgSwitchStatement needs 2 child nodes of SgStatement'')
      else if r_fortran E
      then bind_res (get_label A ''elabel'') (\<lambda>el.
             Inr (built (SgStmt (SwitchStatement el (getStr A ''slabel'' []))) [slot 0 v, slot 1 v] []))
      else Inr (built (SgStmt (SwitchStatement None [])) [slot 0 v, slot 1 v] []))"

definition attribSgSwitchStatement :: "hdr \<Rightarrow> int option \<Rightarrow> string \<Rightarrow> chunk list" where
  "attribSgSwitchStatement h l slabel =
     label_attr ''elabel'' l @ name_attr ''slabel'' slabel sp @ attribSgStatement h"

text \<open>The end label of a where statement is written and never read.\<close>

definition visitSgWhereStatement :: "'s handler" where
  "visitSgWhereStatement E \<sigma> A ks =
     bind_res (getFlag A ''end'' False) (\<lambda>endw.
       let v = fill [isSgExpression, isSgBasicBlock, isSgElseWhereStatement] (nodes ks)
       in Inr (built (SgStmt (WhereStatement endw (getStr A ''slabel'' []) None))
                [slot 0 v, slot 1 v, slot 2 v] []))"

definition attribSgWhereStatement :: "hdr \<Rightarrow> bool \<Rightarrow> string \<Rightarrow> int option \<Rightarrow> chunk list" where
  "attribSgWhereStatement h endw slabel l =
     [flag ''end'' endw sp] @ name_attr ''slabel'' slabel sp @ label_attr ''elabel'' l
     @ attribSgStatement h"

text \<open>A while statement keeps one of its labels, the string label if there are two.\<close>

definition visitSgWhileStmt :: "'s handler" where
  "visitSgWhileStmt E \<sigma> A ks =
     (let v = fill [isSgExprStatement, isSgStatement, isSgStatement] (nodes ks) in
      if r_fortran E
      then bind_res (getFlag A ''end'' False) (\<lambda>enddo. bind_res (get_label0 A ''elabel'') (\<lambda>nlabel.
             let slabel = getStr A ''slabel'' []
             in Inr (built (SgStmt (WhileStmt enddo (if slabel \<noteq> [] then None else nlabel) slabel))
                      [slot 0 v, slot 1 v, slot 2 v] [])))
      else Inr (built (SgStmt (WhileStmt False None [])) [slot 0 v, slot 1 v, slot 2 v] []))"

definition attribSgWhileStmt ::
    "'s rose \<Rightarrow> hdr \<Rightarrow> bool \<Rightarrow> int option \<Rightarrow> string \<Rightarrow> chunk list" where
  "attribSgWhileStmt E h enddo l slabel =
     only (r_fortran E)
       ([flag ''end'' enddo sp]
        @ (case l of Some v \<Rightarrow> [num ''elabel'' v sp] | None \<Rightarrow> [raw ''slabel'' slabel sp]))
     @ attribSgStatement h"

subsection \<open>Dispatch on the class\<close>

primrec attribs_stmt :: "'s rose \<Rightarrow> sgnode \<Rightarrow> stmtcls \<Rightarrow> chunk list" where
  "attribs_stmt E n AllocateStatement = attribSgStatement (hd_of n)"
| "attribs_stmt E n ArithmeticIfStatement = attribSgStatement (hd_of n)"
| "attribs_stmt E n AssociateStatement = attribSgStatement (hd_of n)"
| "attribs_stmt E n BasicBlock = attribSgStatement (hd_of n)"
| "attribs_stmt E n (BreakStmt s) = attribSgBreakStmt (hd_of n) s"
| "attribs_stmt E n (CaseOptionStmt c) = attribSgCaseOptionStmt (hd_of n) c"
| "attribs_stmt E n (ClassDefinition s p a) = attribSgClassDefinition E (hd_of n) s p a"
| "attribs_stmt E n ComputedGotoStatement = attribSgStatement (hd_of n)"
| "attribs_stmt E n (ContinueStmt s) = attribSgContinueStmt (hd_of n) s"
| "attribs_stmt E n DeallocateStatement = attribSgStatement (hd_of n)"
| "attribs_stmt E n (Declaration d) = attribs_decl E n d"
| "attribs_stmt E n (DefaultOptionStmt c) = attribSgDefaultOptionStmt (hd_of n) c"
| "attribs_stmt E n DoWhileStmt = attribSgStatement (hd_of n)"
| "attribs_stmt E n ElseWhereStatement = attribSgStatement (hd_of n)"
| "attribs_stmt E n ExprStatement = attribSgStatement (hd_of n)"
| "attribs_stmt E n ForAllStatement = attribSgStatement (hd_of n)"
| "attribs_stmt E n ForInitStatement = attribSgStatement (hd_of n)"
| "attribs_stmt E n ForStatement = attribSgStatement (hd_of n)"
| "attribs_stmt E n (FortranDo st en l s) = attribSgFortranDo (hd_of n) st en l s"
| "attribs_stmt E n FunctionDefinition = attribSgStatement (hd_of n)"
| "attribs_stmt E n Global = attribSgStatement (hd_of n)"
| "attribs_stmt E n (GotoStatement s l) = attribSgGotoStatement (hd_of n) s l"
| "attribs_stmt E n (IfStmt e t el ll s) = attribSgIfStmt (hd_of n) e t el ll s"
| "attribs_stmt E n (IOStatement k) = attribSgStatement (hd_of n)"
| "attribs_stmt E n (LabelStatement s) = attribSgLabelStatement (hd_of n) s"
| "attribs_stmt E n NullStatement = attribSgStatement (hd_of n)"
| "attribs_stmt E n NullifyStatement = attribSgStatement (hd_of n)"
| "attribs_stmt E n ReturnStmt = attribSgStatement (hd_of n)"
| "attribs_stmt E n (StopOrPauseStatement t) = attribSgStopOrPauseStatement (hd_of n) t"
| "attribs_stmt E n (SwitchStatement l s) = attribSgSwitchStatement (hd_of n) l s"
| "attribs_stmt E n (WhereStatement e s l) = attribSgWhereStatement (hd_of n) e s l"
| "attribs_stmt E n (WhileStmt e l s) = attribSgWhileStmt E (hd_of n) e l s"

fun inode_stmt :: "'s rose \<Rightarrow> sgnode \<Rightarrow> stmtcls \<Rightarrow> sgnode list" where
  "inode_stmt E n ArithmeticIfStatement = inodeSgArithmeticIfStatement n"
| "inode_stmt E n (Declaration d) = inode_decl E n d"
| "inode_stmt E n (IOStatement k) = inode_io k n"
| "inode_stmt E n (StopOrPauseStatement t) = inodeSgStopOrPauseStatement n"
| "inode_stmt E n s = []"

primrec stmt_handler :: "stmtcls \<Rightarrow> 's handler" where
  "stmt_handler AllocateStatement = visitSgAllocateStatement"
| "stmt_handler ArithmeticIfStatement = visitSgArithmeticIfStatement"
| "stmt_handler AssociateStatement = visitSgAssociateStatement"
| "stmt_handler BasicBlock = visitSgBasicBlock"
| "stmt_handler (BreakStmt s) = visitSgBreakStmt"
| "stmt_handler (CaseOptionStmt c) = visitSgCaseOptionStmt"
| "stmt_handler (ClassDefinition s p a) = visitSgClassDefinition"
| "stmt_handler ComputedGotoStatement = visitSgComputedGotoStatement"
| "stmt_handler (ContinueStmt s) = visitSgContinueStmt"
| "stmt_handler DeallocateStatement = visitSgDeallocateStatement"
| "stmt_handler (Declaration d) = decl_handler d"
| "stmt_handler (DefaultOptionStmt c) = visitSgDefaultOptionStmt"
| "stmt_handler DoWhileStmt = visitSgDoWhileStmt"
| "stmt_handler ElseWhereStatement = visitSgElseWhereStatement"
| "stmt_handler ExprStatement = visitSgExprStatement"
| "stmt_handler ForAllStatement = visitSgForAllStatement"
| "stmt_handler ForInitStatement = visitSgForInitStatement"
| "stmt_handler ForStatement = visitSgForStatement"
| "stmt_handler (FortranDo st en l s) = visitSgFortranDo"
| "stmt_handler FunctionDefinition = visitSgFunctionDefinition"
| "stmt_handler Global = visitSgGlobal"
| "stmt_handler (GotoStatement s l) = visitSgGotoStatement"
| "stmt_handler (IfStmt e t el ll s) = visitSgIfStmt"
| "stmt_handler (IOStatement k) = io_handler k"
| "stmt_handler (LabelStatement s) = visitSgLabelStatement"
| "stmt_handler NullStatement = visitSgNullStatement"
| "stmt_handler NullifyStatement = visitSgNullifyStatement"
| "stmt_handler ReturnStmt = visitSgReturnStmt"
| "stmt_handler (StopOrPauseStatement t) = visitSgStopOrPauseStatement"
| "stmt_handler (SwitchStatement l s) = visitSgSwitchStatement"
| "stmt_handler (WhereStatement e s l) = visitSgWhereStatement"
| "stmt_handler (WhileStmt e l s) = visitSgWhileStmt"

subsection \<open>Reading back\<close>

definition label_ok :: "int option \<Rightarrow> bool" where
  "label_ok l \<longleftrightarrow> (case l of None \<Rightarrow> True | Some v \<Rightarrow> int32 v)"

lemma label_ok_simps [simp]: "label_ok None" "label_ok (Some v) = int32 v"
  by (simp_all add: label_ok_def)

primrec stmt_shape ::
    "'s rose \<Rightarrow> hdr \<Rightarrow> stmtcls \<Rightarrow> sgnode option list \<Rightarrow> sgnode option list \<Rightarrow> bool" where
  "stmt_shape E h AllocateStatement ss ns =
     (slots [req isSgExprListExp, may isSgExpression] ss \<and> slots [] ns)"
| "stmt_shape E h ArithmeticIfStatement ss ns =
     (slots [reqE] ss \<and> slots [req isSgLabelRefExp, req isSgLabelRefExp, req isSgLabelRefExp] ns)"
| "stmt_shape E h AssociateStatement ss ns =
     (slots [req isSgVariableDeclaration, req isSgBasicBlock] ss \<and> slots [] ns)"
| "stmt_shape E h BasicBlock ss ns = (list_all reqS ss \<and> slots [] ns)"
| "stmt_shape E h (BreakStmt s) ss ns = (slots [] ss \<and> slots [] ns \<and> safe s)"
| "stmt_shape E h (CaseOptionStmt c) ss ns =
     (slots [reqE, reqS, may isSgExpression] ss \<and> slots [] ns \<and> safe c)"
| "stmt_shape E h (ClassDefinition s p a) ss ns =
     (list_all (req isSgDeclarationStatement) ss \<and> slots [] ns \<and> (r_fortran E \<or> \<not> s \<and> \<not> p \<and> \<not> a))"
| "stmt_shape E h ComputedGotoStatement ss ns = (slots [req isSgExprListExp, reqE] ss \<and> slots [] ns)"
| "stmt_shape E h (ContinueStmt s) ss ns = (slots [] ss \<and> slots [] ns \<and> safe s)"
| "stmt_shape E h DeallocateStatement ss ns =
     (slots [req isSgExprListExp, may isSgExpression] ss \<and> slots [] ns)"
| "stmt_shape E h (Declaration d) ss ns = decl_shape E d ss ns"
| "stmt_shape E h (DefaultOptionStmt c) ss ns = (slots [reqS] ss \<and> slots [] ns \<and> safe c)"
| "stmt_shape E h DoWhileStmt ss ns = (slots [reqS, req isSgExprStatement] ss \<and> slots [] ns)"
| "stmt_shape E h ElseWhereStatement ss ns =
     (slots [reqE, req isSgBasicBlock, may isSgElseWhereStatement] ss \<and> slots [] ns)"
| "stmt_shape E h ExprStatement ss ns = (slots [reqE] ss \<and> slots [] ns)"
| "stmt_shape E h ForAllStatement ss ns =
     (slots [req isSgExprListExp, req isSgBasicBlock] ss \<and> slots [] ns)"
| "stmt_shape E h ForInitStatement ss ns = (list_all reqS ss \<and> slots [] ns)"
| "stmt_shape E h ForStatement ss ns =
     (slots [req isSgForInitStatement, reqS, reqE, reqS] ss \<and> slots [] ns)"
| "stmt_shape E h (FortranDo st en l s) ss ns =
     (slots [reqE, reqE, reqE, may isSgBasicBlock] ss \<and> slots [] ns \<and> label_ok l \<and> l \<noteq> Some 0 \<and> safe s)"
| "stmt_shape E h FunctionDefinition ss ns = (slots [may isSgBasicBlock] ss \<and> slots [] ns)"
| "stmt_shape E h Global ss ns = (list_all reqS ss \<and> slots [] ns)"
| "stmt_shape E h (GotoStatement s l) ss ns =
     (slots [] ss \<and> slots [] ns \<and> label_ok l \<and>
      (case l of None \<Rightarrow> (case s of None \<Rightarrow> True | Some nm \<Rightarrow> safe nm) | Some v \<Rightarrow> s = Some (show_int v)))"
| "stmt_shape E h (IfStmt e t el ll s) ss ns =
     (slots [req isSgExprStatement, reqS, may isSgStatement] ss \<and> slots [] ns \<and> label_ok el \<and>
      label_ok ll \<and> safe s)"
| "stmt_shape E h (IOStatement k) ss ns = (io_shape k ss \<and> slots [] ns)"
| "stmt_shape E h (LabelStatement s) ss ns =
     (slots [may isSgStatement] ss \<and> slots [] ns \<and>
      (case h_label h of None \<Rightarrow> safe s | Some v \<Rightarrow> int32 v \<and> s = show_int v))"
| "stmt_shape E h NullStatement ss ns = (slots [] ss \<and> slots [] ns)"
| "stmt_shape E h NullifyStatement ss ns = (slots [req isSgExprListExp] ss \<and> slots [] ns)"
| "stmt_shape E h ReturnStmt ss ns =
     (slots [may (\<lambda>x. isSgExpression x \<and> \<not> (r_fortran E \<and> isSgLabelRefExp x))] ss \<and> slots [] ns)"
| "stmt_shape E h (StopOrPauseStatement t) ss ns = (slots [] ss \<and> slots [reqE] ns \<and> int32 t)"
| "stmt_shape E h (SwitchStatement l s) ss ns =
     (slots [reqS, reqS] ss \<and> slots [] ns \<and> label_ok l \<and> safe s \<and>
      (r_fortran E \<or> l = None \<and> s = []))"
| "stmt_shape E h (WhereStatement e s l) ss ns =
     (slots [reqE, req isSgBasicBlock, may isSgElseWhereStatement] ss \<and> slots [] ns \<and> safe s \<and> l = None)"
| "stmt_shape E h (WhileStmt e l s) ss ns =
     (slots [req isSgExprStatement, reqS, may isSgStatement] ss \<and> slots [] ns \<and> safe s \<and> label_ok l \<and>
      l \<noteq> Some 0 \<and> (l = None \<or> s = []) \<and> (r_fortran E \<or> \<not> e \<and> l = None \<and> s = []))"

text \<open>What the writer visits below a statement, and the header its handler gives the new one.\<close>

definition emit_stmt :: "'s rose \<Rightarrow> sgnode \<Rightarrow> stmtcls \<Rightarrow> sgnode list" where
  "emit_stmt E n s = (if isIO (SgStmt s) then [] else the_list (succ n)) @ inode_stmt E n s"

fun stmt_hdr :: "stmtcls \<Rightarrow> hdr \<Rightarrow> hdr" where
  "stmt_hdr (LabelStatement s) h = hdr0\<lparr>h_label := h_label h\<rparr>"
| "stmt_hdr s h = hdr0"

lemma look_name_attr [simp]:
  "safe s \<Longrightarrow> look (name_attr nm s t) k = (if k = nm \<and> s \<noteq> [] then Some s else None)"
  by (simp add: name_attr_def)

lemma look_label_attr [simp]:
  "look (label_attr nm l) k = (if k = nm then map_option show_int l else None)"
  by (auto simp: label_attr_def split: option.splits)

lemma get_label_look:
  "label_ok l \<Longrightarrow> look cs nm = map_option show_int l \<Longrightarrow> get_label (decode_attrs cs) nm = Inr l"
  by (cases l) (simp_all add: get_label_def look_access)

lemma get_label0_look:
  "label_ok l \<Longrightarrow> l \<noteq> Some 0 \<Longrightarrow> look cs nm = map_option show_int l \<Longrightarrow>
    get_label0 (decode_attrs cs) nm = Inr l"
  by (cases l) (simp_all add: get_label0_def look_access)

text \<open>Chains of variables, the last of which may stay null.\<close>

lemma fill_req:
  "p x \<Longrightarrow> q y \<Longrightarrow> fill [p, q] [x, y] = [Some x, Some y]"
  "p x \<Longrightarrow> q y \<Longrightarrow> r z \<Longrightarrow> fill [p, q, r] [x, y, z] = [Some x, Some y, Some z]"
  "p x \<Longrightarrow> q y \<Longrightarrow> r z \<Longrightarrow> s w \<Longrightarrow>
     fill [p, q, r, s] [x, y, z, w] = [Some x, Some y, Some z, Some w]"
  by (simp_all add: fill_def)

lemma fill_may:
  "p x \<Longrightarrow> may q v \<Longrightarrow> fill [p, q] (x # the_list [v]) = [Some x, v]"
  "p x \<Longrightarrow> q y \<Longrightarrow> may r v \<Longrightarrow> fill [p, q, r] (x # y # the_list [v]) = [Some x, Some y, v]"
  "p x \<Longrightarrow> q y \<Longrightarrow> r z \<Longrightarrow> may s v \<Longrightarrow>
     fill [p, q, r, s] (x # y # z # the_list [v]) = [Some x, Some y, Some z, v]"
  by (cases v; simp add: fill_def)+

lemma first_of_may: "may p y \<Longrightarrow> first_of p (the_list [y]) = y"
  by (cases y) simp_all

lemma map_the_list_1: "map f (the_list [y]) = the_list [map_option f y]"
  by (cases y) simp_all

lemma may_map: "(\<And>n. p (f n) = p n) \<Longrightarrow> may p (map_option f y) = may p y"
  by (cases y) simp_all

lemma the_list_Cons: "the_list (x # y # ys) = the_list [x] @ the_list (y # ys)"
  by (cases x) simp_all

lemma keeps_args_keeps [simp]: "keeps_args f \<Longrightarrow> keeps f"
  by (simp add: keeps_args_def)

lemmas stmt_defs = visitSgAllocateStatement_def visitSgDeallocateStatement_def
  visitSgArithmeticIfStatement_def visitSgBreakStmt_def visitSgContinueStmt_def
  visitSgComputedGotoStatement_def visitSgExprStatement_def visitSgGotoStatement_def
  visitSgNullStatement_def visitSgNullifyStatement_def visitSgReturnStmt_def
  visitSgStopOrPauseStatement_def visitSgCaseOptionStmt_def visitSgDefaultOptionStmt_def
  visitSgDoWhileStmt_def visitSgElseWhereStatement_def visitSgForAllStatement_def
  visitSgForInitStatement_def visitSgForStatement_def visitSgFortranDo_def
  visitSgFunctionDefinition_def visitSgIfStmt_def visitSgLabelStatement_def
  visitSgSwitchStatement_def visitSgWhereStatement_def visitSgWhileStmt_def
  visitSgBasicBlock_def visitSgGlobal_def visitSgAssociateStatement_def visitSgClassDefinition_def

lemmas attrib_stmt_defs = attribSgBreakStmt_def attribSgContinueStmt_def attribSgGotoStatement_def
  attribSgStopOrPauseStatement_def attribSgCaseOptionStmt_def attribSgDefaultOptionStmt_def
  attribSgFortranDo_def attribSgIfStmt_def attribSgLabelStatement_def attribSgSwitchStatement_def
  attribSgWhereStatement_def attribSgWhileStmt_def attribSgClassDefinition_def

lemmas inode_stmt_defs = inodeSgArithmeticIfStatement_def inodeSgStopOrPauseStatement_def

lemmas kid_simps = the_list_Cons map_the_list_1 may_map fill_req fill_may first_of_may

lemma read_stmt:
  assumes shape: "stmt_shape E h s ss ns" and reb: "rebuilds f" and b: "blank_kids ks"
    and io: "isIO (SgStmt s) \<Longrightarrow> keeps_args f" and n: "n = Node h (SgStmt s) ss ns"
    and kids: "nodes ks = map f (in_order (SgStmt s) (emit_stmt E n s))"
  shows "stmt_handler s E \<sigma> (decode_attrs (attribs_stmt E n s @ only u [flag ''unparse'' False sp])) ks =
    Inr (Node (stmt_hdr s h) (SgStmt s) (map (map_option f) ss) (map (map_option f) ns))"
proof -
  have f: "keeps f" using reb by simp
  note k = kids [unfolded emit_stmt_def inode_stmt_defs n, simplified]
  note d = stmt_defs inode_stmt_defs attrib_stmt_defs look_access kid_simps get_label_def get_label0_def
  show ?thesis
  proof (cases s)
    case (FortranDo a c l s)
    then show ?thesis using shape k f by (cases l; cases a; cases c; auto simp: d n)
  next
    case (GotoStatement nm l)
    then show ?thesis using shape k f by (cases l; cases nm; auto simp: d n)
  next
    case (IfStmt a c el ll s)
    then show ?thesis using shape k f by (cases a; cases c; cases el; cases ll; auto simp: d n)
  next
    case ReturnStmt
    then show ?thesis using shape k f by (cases "slot 0 ss") (auto simp: d n)
  next
    case (IOStatement x)
    then show ?thesis using shape kids io by (auto simp: emit_stmt_def n intro!: read_io)
  next
    case (Declaration x)
    then show ?thesis using read_decl [of E x ss ns f n h ks \<sigma> u] shape kids reb
      by (simp add: emit_stmt_def emit_decl_def n)
  next
    case AssociateStatement
    then show ?thesis using shape k f by (auto simp: d n is_cls_def elim!: c_Variable.elims)
  next
    case (ClassDefinition a c e)
    then show ?thesis using shape k f by (cases "r_fortran E"; auto simp: d n filter_req)
  next
    case (SwitchStatement l s)
    then show ?thesis using shape k f by (cases l; cases "r_fortran E"; auto simp: d n)
  next
    case (LabelStatement s)
    then show ?thesis using shape k f by (cases "h_label h"; auto simp: d n hdr0_def)
  next
    case (WhereStatement e s l)
    then show ?thesis using shape k f by (cases e; auto simp: d n)
  next
    case (WhileStmt e l s)
    then show ?thesis using shape k f by (cases e; cases l; cases "r_fortran E"; auto simp: d n)
  qed (use shape k f b in \<open>auto simp: d n traverse_blank filter_req\<close>)
qed

end
