(* ===== verification/ClassNames.thy ===== *)
theory ClassNames
  imports SageTree
begin

text \<open>
  The names of the node classes, \<open>class_name()\<close> of ROSE without its prefix \<open>Sg\<close>, and the list of
  \<open>include/sgnode.hpp\<close>, which both visitors expand into their dispatch: the writer's switch on the
  class, the reader's comparisons with the element name.
\<close>

subsection \<open>Names of the classes\<close>

primrec bop_name :: "bop \<Rightarrow> string" where
  "bop_name AddOp = ''AddOp''"
| "bop_name AndAssignOp = ''AndAssignOp''"
| "bop_name AndOp = ''AndOp''"
| "bop_name ArrowExp = ''ArrowExp''"
| "bop_name AssignOp = ''AssignOp''"
| "bop_name BitAndOp = ''BitAndOp''"
| "bop_name BitOrOp = ''BitOrOp''"
| "bop_name BitXorOp = ''BitXorOp''"
| "bop_name CommaOpExp = ''CommaOpExp''"
| "bop_name ConcatenationOp = ''ConcatenationOp''"
| "bop_name DivAssignOp = ''DivAssignOp''"
| "bop_name DivideOp = ''DivideOp''"
| "bop_name DotExp = ''DotExp''"
| "bop_name EqualityOp = ''EqualityOp''"
| "bop_name ExponentiationOp = ''ExponentiationOp''"
| "bop_name GreaterOrEqualOp = ''GreaterOrEqualOp''"
| "bop_name GreaterThanOp = ''GreaterThanOp''"
| "bop_name IorAssignOp = ''IorAssignOp''"
| "bop_name LessOrEqualOp = ''LessOrEqualOp''"
| "bop_name LessThanOp = ''LessThanOp''"
| "bop_name LshiftAssignOp = ''LshiftAssignOp''"
| "bop_name LshiftOp = ''LshiftOp''"
| "bop_name MinusAssignOp = ''MinusAssignOp''"
| "bop_name ModAssignOp = ''ModAssignOp''"
| "bop_name ModOp = ''ModOp''"
| "bop_name MultAssignOp = ''MultAssignOp''"
| "bop_name MultiplyOp = ''MultiplyOp''"
| "bop_name NotEqualOp = ''NotEqualOp''"
| "bop_name OrOp = ''OrOp''"
| "bop_name PlusAssignOp = ''PlusAssignOp''"
| "bop_name PointerAssignOp = ''PointerAssignOp''"
| "bop_name PntrArrRefExp = ''PntrArrRefExp''"
| "bop_name RshiftAssignOp = ''RshiftAssignOp''"
| "bop_name RshiftOp = ''RshiftOp''"
| "bop_name SubtractOp = ''SubtractOp''"
| "bop_name XorAssignOp = ''XorAssignOp''"

primrec uop_name :: "uop \<Rightarrow> string" where
  "uop_name AddressOfOp = ''AddressOfOp''"
| "uop_name BitComplementOp = ''BitComplementOp''"
| "uop_name MinusMinusOp = ''MinusMinusOp''"
| "uop_name MinusOp = ''MinusOp''"
| "uop_name NotOp = ''NotOp''"
| "uop_name PlusPlusOp = ''PlusPlusOp''"
| "uop_name UnaryAddOp = ''UnaryAddOp''"

primrec val_name :: "valkind \<Rightarrow> string" where
  "val_name BoolValExp = ''BoolValExp''"
| "val_name CharVal = ''CharVal''"
| "val_name DoubleVal = ''DoubleVal''"
| "val_name FloatVal = ''FloatVal''"
| "val_name IntVal = ''IntVal''"
| "val_name LongDoubleVal = ''LongDoubleVal''"
| "val_name LongIntVal = ''LongIntVal''"
| "val_name LongLongIntVal = ''LongLongIntVal''"
| "val_name ShortVal = ''ShortVal''"
| "val_name UnsignedCharVal = ''UnsignedCharVal''"
| "val_name UnsignedIntVal = ''UnsignedIntVal''"
| "val_name UnsignedLongLongIntVal = ''UnsignedLongLongIntVal''"
| "val_name UnsignedLongVal = ''UnsignedLongVal''"
| "val_name UnsignedShortVal = ''UnsignedShortVal''"
| "val_name WcharVal = ''WcharVal''"

primrec io_stmt_name :: "iokind \<Rightarrow> string" where
  "io_stmt_name Backspace = ''BackspaceStatement''"
| "io_stmt_name Close = ''CloseStatement''"
| "io_stmt_name Endfile = ''EndfileStatement''"
| "io_stmt_name Flush = ''FlushStatement''"
| "io_stmt_name Inquire = ''InquireStatement''"
| "io_stmt_name Open = ''OpenStatement''"
| "io_stmt_name Print = ''PrintStatement''"
| "io_stmt_name Read = ''ReadStatement''"
| "io_stmt_name Rewind = ''RewindStatement''"
| "io_stmt_name Wait = ''WaitStatement''"
| "io_stmt_name Write = ''WriteStatement''"

primrec ty_name :: "tykind \<Rightarrow> string" where
  "ty_name TypeBool = ''TypeBool''"
| "ty_name TypeChar = ''TypeChar''"
| "ty_name TypeCrayPointer = ''TypeCrayPointer''"
| "ty_name TypeDouble = ''TypeDouble''"
| "ty_name TypeFloat = ''TypeFloat''"
| "ty_name TypeLong = ''TypeLong''"
| "ty_name TypeLongDouble = ''TypeLongDouble''"
| "ty_name TypeLongLong = ''TypeLongLong''"
| "ty_name TypeShort = ''TypeShort''"
| "ty_name TypeSignedChar = ''TypeSignedChar''"
| "ty_name TypeSignedInt = ''TypeSignedInt''"
| "ty_name TypeSignedLong = ''TypeSignedLong''"
| "ty_name TypeSignedLongLong = ''TypeSignedLongLong''"
| "ty_name TypeSignedShort = ''TypeSignedShort''"
| "ty_name TypeUnsignedChar = ''TypeUnsignedChar''"
| "ty_name TypeUnsignedInt = ''TypeUnsignedInt''"
| "ty_name TypeUnsignedLong = ''TypeUnsignedLong''"
| "ty_name TypeUnsignedLongLong = ''TypeUnsignedLongLong''"
| "ty_name TypeUnsignedShort = ''TypeUnsignedShort''"
| "ty_name TypeVoid = ''TypeVoid''"
| "ty_name TypeWchar = ''TypeWchar''"
| "ty_name TypeSigned128bitInteger = ''TypeSigned128bitInteger''"
| "ty_name TypeUnsigned128bitInteger = ''TypeUnsigned128bitInteger''"
| "ty_name TypeUnknown = ''TypeUnknown''"

primrec expr_name :: "exprcls \<Rightarrow> string" where
  "expr_name (BinaryOp x0) = bop_name x0"
| "expr_name (UserDefinedBinaryOp x0) = ''UserDefinedBinaryOp''"
| "expr_name (UserDefinedUnaryOp x0) = ''UserDefinedUnaryOp''"
| "expr_name (UnaryOp x0 x1) = uop_name x0"
| "expr_name (ValueExp x0 x1 x2) = val_name x0"
| "expr_name (EnumVal x0 x1 x2) = ''EnumVal''"
| "expr_name ComplexVal = ''ComplexVal''"
| "expr_name (StringVal x0 x1 x2 x3 x4) = ''StringVal''"
| "expr_name (ActualArgumentExpression x0) = ''ActualArgumentExpression''"
| "expr_name (AggregateInitializer x0) = ''AggregateInitializer''"
| "expr_name (AsmOp x0 x1 x2 x3 x4 x5) = ''AsmOp''"
| "expr_name (AssignInitializer x0) = ''AssignInitializer''"
| "expr_name AsteriskShapeExp = ''AsteriskShapeExp''"
| "expr_name (CastExp x0) = ''CastExp''"
| "expr_name ColonShapeExp = ''ColonShapeExp''"
| "expr_name (CompoundLiteralExp x0) = ''CompoundLiteralExp''"
| "expr_name ConditionalExp = ''ConditionalExp''"
| "expr_name (ConstructorInitializer x0 x1 x2 x3) = ''ConstructorInitializer''"
| "expr_name DesignatedInitializer = ''DesignatedInitializer''"
| "expr_name ExprListExp = ''ExprListExp''"
| "expr_name FunctionCallExp = ''FunctionCallExp''"
| "expr_name (FunctionRefExp x0 x1) = ''FunctionRefExp''"
| "expr_name ImpliedDo = ''ImpliedDo''"
| "expr_name (LabelRefExp x0 x1 x2) = ''LabelRefExp''"
| "expr_name NullExpression = ''NullExpression''"
| "expr_name PointerDerefExp = ''PointerDerefExp''"
| "expr_name SizeOfOp = ''SizeOfOp''"
| "expr_name StatementExpression = ''StatementExpression''"
| "expr_name SubscriptExpression = ''SubscriptExpression''"
| "expr_name VarArgCopyOp = ''VarArgCopyOp''"
| "expr_name VarArgEndOp = ''VarArgEndOp''"
| "expr_name VarArgOp = ''VarArgOp''"
| "expr_name VarArgStartOp = ''VarArgStartOp''"
| "expr_name (VarRefExp x0) = ''VarRefExp''"

primrec decl_name :: "declcls \<Rightarrow> string" where
  "decl_name (AsmStmt c g r) = ''AsmStmt''"
| "decl_name (AttributeSpecificationStatement k i p b nms) = ''AttributeSpecificationStatement''"
| "decl_name (ClassDeclaration nm t u a) = ''ClassDeclaration''"
| "decl_name CommonBlock = ''CommonBlock''"
| "decl_name ContainsStatement = ''ContainsStatement''"
| "decl_name (DerivedTypeStatement nm t u a) = ''DerivedTypeStatement''"
| "decl_name (EnumDeclaration nm u) = ''EnumDeclaration''"
| "decl_name EquivalenceStatement = ''EquivalenceStatement''"
| "decl_name FormatStatement = ''FormatStatement''"
| "decl_name (FortranIncludeLine f) = ''FortranIncludeLine''"
| "decl_name (FunctionDeclaration nm b p v a) = ''FunctionDeclaration''"
| "decl_name FunctionParameterList = ''FunctionParameterList''"
| "decl_name (ImplicitStatement b) = ''ImplicitStatement''"
| "decl_name ImportStatement = ''ImportStatement''"
| "decl_name (InterfaceStatement nm t) = ''InterfaceStatement''"
| "decl_name NamelistStatement = ''NamelistStatement''"
| "decl_name PragmaDeclaration = ''PragmaDeclaration''"
| "decl_name (TypedefDeclaration nm l) = ''TypedefDeclaration''"
| "decl_name (UseStatement nm b) = ''UseStatement''"
| "decl_name (VariableDeclaration v d s a) = ''VariableDeclaration''"

primrec stmt_name :: "stmtcls \<Rightarrow> string" where
  "stmt_name AllocateStatement = ''AllocateStatement''"
| "stmt_name ArithmeticIfStatement = ''ArithmeticIfStatement''"
| "stmt_name AssociateStatement = ''AssociateStatement''"
| "stmt_name BasicBlock = ''BasicBlock''"
| "stmt_name (BreakStmt x0) = ''BreakStmt''"
| "stmt_name (CaseOptionStmt x0) = ''CaseOptionStmt''"
| "stmt_name (ClassDefinition x0 x1 x2) = ''ClassDefinition''"
| "stmt_name ComputedGotoStatement = ''ComputedGotoStatement''"
| "stmt_name (ContinueStmt x0) = ''ContinueStmt''"
| "stmt_name DeallocateStatement = ''DeallocateStatement''"
| "stmt_name (Declaration d) = decl_name d"
| "stmt_name (DefaultOptionStmt x0) = ''DefaultOptionStmt''"
| "stmt_name DoWhileStmt = ''DoWhileStmt''"
| "stmt_name ElseWhereStatement = ''ElseWhereStatement''"
| "stmt_name ExprStatement = ''ExprStatement''"
| "stmt_name ForAllStatement = ''ForAllStatement''"
| "stmt_name ForInitStatement = ''ForInitStatement''"
| "stmt_name ForStatement = ''ForStatement''"
| "stmt_name (FortranDo x0 x1 x2 x3) = ''FortranDo''"
| "stmt_name FunctionDefinition = ''FunctionDefinition''"
| "stmt_name Global = ''Global''"
| "stmt_name (GotoStatement x0 x1) = ''GotoStatement''"
| "stmt_name (IfStmt x0 x1 x2 x3 x4) = ''IfStmt''"
| "stmt_name (IOStatement x0) = io_stmt_name x0"
| "stmt_name (LabelStatement x0) = ''LabelStatement''"
| "stmt_name NullStatement = ''NullStatement''"
| "stmt_name NullifyStatement = ''NullifyStatement''"
| "stmt_name ReturnStmt = ''ReturnStmt''"
| "stmt_name (StopOrPauseStatement x0) = ''StopOrPauseStatement''"
| "stmt_name (SwitchStatement x0 x1) = ''SwitchStatement''"
| "stmt_name (WhereStatement x0 x1 x2) = ''WhereStatement''"
| "stmt_name (WhileStmt x0 x1 x2) = ''WhileStmt''"

primrec type_name :: "typecls \<Rightarrow> string" where
  "type_name (SimpleType x0) = ty_name x0"
| "type_name (ArrayType x0) = ''ArrayType''"
| "type_name (ClassType x0 x1 x2) = ''ClassType''"
| "type_name (EnumType x0) = ''EnumType''"
| "type_name FunctionType = ''FunctionType''"
| "type_name (ModifierType x0 x1) = ''ModifierType''"
| "type_name PointerType = ''PointerType''"
| "type_name TypeComplex = ''TypeComplex''"
| "type_name TypeDefault = ''TypeDefault''"
| "type_name TypeEllipse = ''TypeEllipse''"
| "type_name TypeImaginary = ''TypeImaginary''"
| "type_name TypeInt = ''TypeInt''"
| "type_name (TypeLabel x0) = ''TypeLabel''"
| "type_name TypeOfType = ''TypeOfType''"
| "type_name TypeString = ''TypeString''"
| "type_name (TypedefType x0) = ''TypedefType''"

primrec supp_name :: "suppcls \<Rightarrow> string" where
  "supp_name (DataStatementGroup x0) = ''DataStatementGroup''"
| "supp_name DataStatementObject = ''DataStatementObject''"
| "supp_name (DataStatementValue x0) = ''DataStatementValue''"
| "supp_name (FormatItem x0 x1) = ''FormatItem''"
| "supp_name FunctionParameterTypeList = ''FunctionParameterTypeList''"
| "supp_name (NameGroup x0 x1) = ''NameGroup''"
| "supp_name (Pragma x0) = ''Pragma''"
| "supp_name (SourceFile x0 x1 x2) = ''SourceFile''"
| "supp_name TypedefSeq = ''TypedefSeq''"

primrec lsupp_name :: "lsuppcls \<Rightarrow> string" where
  "lsupp_name (CommonBlockObject x0) = ''CommonBlockObject''"
| "lsupp_name (InitializedName x0 x1 x2 x3 x4 x5) = ''InitializedName''"
| "lsupp_name (InterfaceBody x0) = ''InterfaceBody''"
| "lsupp_name (RenamePair x0 x1) = ''RenamePair''"


primrec sage_name :: "sgcls \<Rightarrow> string" where
  "sage_name (SgExpr e) = expr_name e"
| "sage_name (SgStmt s) = stmt_name s"
| "sage_name (SgType t) = type_name t"
| "sage_name (SgSupp s) = supp_name s"
| "sage_name (SgLSup s) = lsupp_name s"

definition class_name :: "sgcls \<Rightarrow> string" where
  "class_name c = ''Sg'' @ sage_name c"

subsection \<open>The list of classes\<close>

text \<open>The entries of \<open>include/sgnode.hpp\<close> in their order.\<close>

definition sgnode_hpp :: "string list" where
  "sgnode_hpp =
   [''AddOp'', ''AndAssignOp'', ''AndOp'', ''ArrowExp'', ''AssignOp'', ''BitAndOp'',
     ''BitOrOp'', ''BitXorOp'', ''CommaOpExp'', ''ConcatenationOp'', ''DivAssignOp'',
     ''DivideOp'', ''EqualityOp'', ''ExponentiationOp'', ''GreaterOrEqualOp'',
     ''GreaterThanOp'', ''IorAssignOp'', ''LessOrEqualOp'', ''LessThanOp'', ''LshiftAssignOp'',
     ''LshiftOp'', ''MinusAssignOp'', ''ModAssignOp'', ''ModOp'', ''MultAssignOp'',
     ''MultiplyOp'', ''NotEqualOp'', ''OrOp'', ''PlusAssignOp'', ''PointerAssignOp'',
     ''PntrArrRefExp'', ''RshiftAssignOp'', ''RshiftOp'', ''SubtractOp'',
     ''UserDefinedBinaryOp'', ''UserDefinedUnaryOp'', ''XorAssignOp'', ''AddressOfOp'',
     ''BitComplementOp'', ''MinusMinusOp'', ''MinusOp'', ''NotOp'', ''PlusPlusOp'',
     ''UnaryAddOp'', ''BoolValExp'', ''CharVal'', ''ComplexVal'', ''DoubleVal'', ''EnumVal'',
     ''FloatVal'', ''IntVal'', ''LongDoubleVal'', ''LongIntVal'', ''LongLongIntVal'',
     ''ShortVal'', ''StringVal'', ''UnsignedCharVal'', ''UnsignedIntVal'',
     ''UnsignedLongLongIntVal'', ''UnsignedLongVal'', ''UnsignedShortVal'', ''WcharVal'',
     ''ActualArgumentExpression'', ''AggregateInitializer'', ''AsmOp'', ''AssignInitializer'',
     ''AsteriskShapeExp'', ''CastExp'', ''ColonShapeExp'', ''CompoundLiteralExp'',
     ''ConditionalExp'', ''ConstructorInitializer'', ''DesignatedInitializer'', ''DotExp'',
     ''ExprListExp'', ''FunctionCallExp'', ''FunctionRefExp'', ''ImpliedDo'', ''LabelRefExp'',
     ''NullExpression'', ''PointerDerefExp'', ''SizeOfOp'', ''StatementExpression'',
     ''SubscriptExpression'', ''VarArgEndOp'', ''VarArgCopyOp'', ''VarArgOp'',
     ''VarArgStartOp'', ''VarRefExp'', ''CommonBlockObject'', ''InitializedName'',
     ''InterfaceBody'', ''RenamePair'', ''AsmStmt'', ''AttributeSpecificationStatement'',
     ''ClassDeclaration'', ''CommonBlock'', ''ContainsStatement'', ''DerivedTypeStatement'',
     ''EntryStatement'', ''EnumDeclaration'', ''EquivalenceStatement'', ''FormatStatement'',
     ''FortranIncludeLine'', ''FunctionDeclaration'', ''FunctionParameterList'',
     ''ImplicitStatement'', ''ImportStatement'', ''InterfaceStatement'', ''ModuleStatement'',
     ''NamelistStatement'', ''PragmaDeclaration'', ''ProcedureHeaderStatement'',
     ''ProgramHeaderStatement'', ''TypedefDeclaration'', ''UseStatement'',
     ''VariableDeclaration'', ''AllocateStatement'', ''ArithmeticIfStatement'',
     ''AssociateStatement'', ''BackspaceStatement'', ''BasicBlock'', ''BreakStmt'',
     ''CaseOptionStmt'', ''ClassDefinition'', ''CloseStatement'', ''ComputedGotoStatement'',
     ''ContinueStmt'', ''DeallocateStatement'', ''DefaultOptionStmt'', ''DoWhileStmt'',
     ''ElseWhereStatement'', ''EndfileStatement'', ''ExprStatement'', ''FlushStatement'',
     ''ForAllStatement'', ''ForInitStatement'', ''ForStatement'', ''FortranDo'',
     ''FunctionDefinition'', ''Global'', ''GotoStatement'', ''IfStmt'', ''InquireStatement'',
     ''LabelStatement'', ''NullStatement'', ''NullifyStatement'', ''OpenStatement'',
     ''PrintStatement'', ''ReadStatement'', ''ReturnStmt'', ''RewindStatement'',
     ''StopOrPauseStatement'', ''SwitchStatement'', ''WaitStatement'', ''WhereStatement'',
     ''WhileStmt'', ''WriteStatement'', ''DataStatementGroup'', ''DataStatementObject'',
     ''DataStatementValue'', ''FormatItem'', ''FunctionParameterTypeList'', ''NameGroup'',
     ''Pragma'', ''SourceFile'', ''TypedefSeq'', ''ArrayType'', ''ClassType'', ''EnumType'',
     ''FunctionType'', ''ModifierType'', ''PointerType'', ''TypeBool'', ''TypeChar'',
     ''TypeComplex'', ''TypeCrayPointer'', ''TypeDefault'', ''TypeDouble'', ''TypeEllipse'',
     ''TypeFloat'', ''TypeImaginary'', ''TypeInt'', ''TypeLabel'', ''TypeLong'',
     ''TypeLongDouble'', ''TypeLongLong'', ''TypeOfType'', ''TypeShort'', ''TypeSignedChar'',
     ''TypeSignedInt'', ''TypeSignedLong'', ''TypeSignedLongLong'', ''TypeSignedShort'',
     ''TypeString'', ''TypeUnsignedChar'', ''TypeUnsignedInt'', ''TypeUnsignedLong'',
     ''TypeUnsignedLongLong'', ''TypeUnsignedShort'', ''TypeVoid'', ''TypedefType'']"

subsection \<open>From a name to a class\<close>

text \<open>
  A class without its fields stands for all its nodes; the modelled classes in the order of the
  list. \<open>class_of\<close> is the reader's comparison of the element name with each of them.
\<close>

primrec expr_proto :: "exprcls \<Rightarrow> exprcls" where
  "expr_proto (BinaryOp x0) = BinaryOp x0"
| "expr_proto (UserDefinedBinaryOp x0) = UserDefinedBinaryOp []"
| "expr_proto (UserDefinedUnaryOp x0) = UserDefinedUnaryOp []"
| "expr_proto (UnaryOp x0 x1) = UnaryOp x0 0"
| "expr_proto (ValueExp x0 x1 x2) = ValueExp x0 0 []"
| "expr_proto (EnumVal x0 x1 x2) = EnumVal 0 [] None"
| "expr_proto ComplexVal = ComplexVal"
| "expr_proto (StringVal x0 x1 x2 x3 x4) = StringVal [] False False False False"
| "expr_proto (ActualArgumentExpression x0) = ActualArgumentExpression []"
| "expr_proto (AggregateInitializer x0) = AggregateInitializer False"
| "expr_proto (AsmOp x0 x1 x2 x3 x4 x5) = AsmOp 0 [] 0 False [] False"
| "expr_proto (AssignInitializer x0) = AssignInitializer False"
| "expr_proto AsteriskShapeExp = AsteriskShapeExp"
| "expr_proto (CastExp x0) = CastExp 0"
| "expr_proto ColonShapeExp = ColonShapeExp"
| "expr_proto (CompoundLiteralExp x0) = CompoundLiteralExp []"
| "expr_proto ConditionalExp = ConditionalExp"
| "expr_proto (ConstructorInitializer x0 x1 x2 x3) = ConstructorInitializer False False False False"
| "expr_proto DesignatedInitializer = DesignatedInitializer"
| "expr_proto ExprListExp = ExprListExp"
| "expr_proto FunctionCallExp = FunctionCallExp"
| "expr_proto (FunctionRefExp x0 x1) = FunctionRefExp [] None"
| "expr_proto ImpliedDo = ImpliedDo"
| "expr_proto (LabelRefExp x0 x1 x2) = LabelRefExp 0 0 None"
| "expr_proto NullExpression = NullExpression"
| "expr_proto PointerDerefExp = PointerDerefExp"
| "expr_proto SizeOfOp = SizeOfOp"
| "expr_proto StatementExpression = StatementExpression"
| "expr_proto SubscriptExpression = SubscriptExpression"
| "expr_proto VarArgCopyOp = VarArgCopyOp"
| "expr_proto VarArgEndOp = VarArgEndOp"
| "expr_proto VarArgOp = VarArgOp"
| "expr_proto VarArgStartOp = VarArgStartOp"
| "expr_proto (VarRefExp x0) = VarRefExp []"

primrec decl_proto :: "declcls \<Rightarrow> declcls" where
  "decl_proto (AsmStmt c g r) = AsmStmt [] False []"
| "decl_proto (AttributeSpecificationStatement k i p b nms) = AttributeSpecificationStatement 0 0 0 0 []"
| "decl_proto (ClassDeclaration nm t u a) = ClassDeclaration [] 0 False False"
| "decl_proto CommonBlock = CommonBlock"
| "decl_proto ContainsStatement = ContainsStatement"
| "decl_proto (DerivedTypeStatement nm t u a) = DerivedTypeStatement [] 0 False False"
| "decl_proto (EnumDeclaration nm u) = EnumDeclaration [] False"
| "decl_proto EquivalenceStatement = EquivalenceStatement"
| "decl_proto FormatStatement = FormatStatement"
| "decl_proto (FortranIncludeLine f) = FortranIncludeLine []"
| "decl_proto (FunctionDeclaration nm b p v a) = FunctionDeclaration [] False False 0 []"
| "decl_proto FunctionParameterList = FunctionParameterList"
| "decl_proto (ImplicitStatement b) = ImplicitStatement False"
| "decl_proto ImportStatement = ImportStatement"
| "decl_proto (InterfaceStatement nm t) = InterfaceStatement [] 0"
| "decl_proto NamelistStatement = NamelistStatement"
| "decl_proto PragmaDeclaration = PragmaDeclaration"
| "decl_proto (TypedefDeclaration nm l) = TypedefDeclaration [] False"
| "decl_proto (UseStatement nm b) = UseStatement [] False"
| "decl_proto (VariableDeclaration v d s a) = VariableDeclaration 0 0 [] []"

primrec stmt_proto :: "stmtcls \<Rightarrow> stmtcls" where
  "stmt_proto AllocateStatement = AllocateStatement"
| "stmt_proto ArithmeticIfStatement = ArithmeticIfStatement"
| "stmt_proto AssociateStatement = AssociateStatement"
| "stmt_proto BasicBlock = BasicBlock"
| "stmt_proto (BreakStmt x0) = BreakStmt []"
| "stmt_proto (CaseOptionStmt x0) = CaseOptionStmt []"
| "stmt_proto (ClassDefinition x0 x1 x2) = ClassDefinition False False False"
| "stmt_proto ComputedGotoStatement = ComputedGotoStatement"
| "stmt_proto (ContinueStmt x0) = ContinueStmt []"
| "stmt_proto DeallocateStatement = DeallocateStatement"
| "stmt_proto (Declaration d) = Declaration (decl_proto d)"
| "stmt_proto (DefaultOptionStmt x0) = DefaultOptionStmt []"
| "stmt_proto DoWhileStmt = DoWhileStmt"
| "stmt_proto ElseWhereStatement = ElseWhereStatement"
| "stmt_proto ExprStatement = ExprStatement"
| "stmt_proto ForAllStatement = ForAllStatement"
| "stmt_proto ForInitStatement = ForInitStatement"
| "stmt_proto ForStatement = ForStatement"
| "stmt_proto (FortranDo x0 x1 x2 x3) = FortranDo False False None []"
| "stmt_proto FunctionDefinition = FunctionDefinition"
| "stmt_proto Global = Global"
| "stmt_proto (GotoStatement x0 x1) = GotoStatement None None"
| "stmt_proto (IfStmt x0 x1 x2 x3 x4) = IfStmt False False None None []"
| "stmt_proto (IOStatement x0) = IOStatement x0"
| "stmt_proto (LabelStatement x0) = LabelStatement []"
| "stmt_proto NullStatement = NullStatement"
| "stmt_proto NullifyStatement = NullifyStatement"
| "stmt_proto ReturnStmt = ReturnStmt"
| "stmt_proto (StopOrPauseStatement x0) = StopOrPauseStatement 0"
| "stmt_proto (SwitchStatement x0 x1) = SwitchStatement None []"
| "stmt_proto (WhereStatement x0 x1 x2) = WhereStatement False [] None"
| "stmt_proto (WhileStmt x0 x1 x2) = WhileStmt False None []"

primrec type_proto :: "typecls \<Rightarrow> typecls" where
  "type_proto (SimpleType x0) = SimpleType x0"
| "type_proto (ArrayType x0) = ArrayType 0"
| "type_proto (ClassType x0 x1 x2) = ClassType [] 0 False"
| "type_proto (EnumType x0) = EnumType []"
| "type_proto FunctionType = FunctionType"
| "type_proto (ModifierType x0 x1) = ModifierType [] 0"
| "type_proto PointerType = PointerType"
| "type_proto TypeComplex = TypeComplex"
| "type_proto TypeDefault = TypeDefault"
| "type_proto TypeEllipse = TypeEllipse"
| "type_proto TypeImaginary = TypeImaginary"
| "type_proto TypeInt = TypeInt"
| "type_proto (TypeLabel x0) = TypeLabel []"
| "type_proto TypeOfType = TypeOfType"
| "type_proto TypeString = TypeString"
| "type_proto (TypedefType x0) = TypedefType []"

primrec supp_proto :: "suppcls \<Rightarrow> suppcls" where
  "supp_proto (DataStatementGroup x0) = DataStatementGroup 0"
| "supp_proto DataStatementObject = DataStatementObject"
| "supp_proto (DataStatementValue x0) = DataStatementValue 0"
| "supp_proto (FormatItem x0 x1) = FormatItem False 0"
| "supp_proto FunctionParameterTypeList = FunctionParameterTypeList"
| "supp_proto (NameGroup x0 x1) = NameGroup [] []"
| "supp_proto (Pragma x0) = Pragma []"
| "supp_proto (SourceFile x0 x1 x2) = SourceFile [] 0 0"
| "supp_proto TypedefSeq = TypedefSeq"

primrec lsupp_proto :: "lsuppcls \<Rightarrow> lsuppcls" where
  "lsupp_proto (CommonBlockObject x0) = CommonBlockObject []"
| "lsupp_proto (InitializedName x0 x1 x2 x3 x4 x5) = InitializedName [] None 0 False 0 []"
| "lsupp_proto (InterfaceBody x0) = InterfaceBody None"
| "lsupp_proto (RenamePair x0 x1) = RenamePair [] []"

primrec proto :: "sgcls \<Rightarrow> sgcls" where
  "proto (SgExpr e) = SgExpr (expr_proto e)"
| "proto (SgStmt s) = SgStmt (stmt_proto s)"
| "proto (SgType t) = SgType (type_proto t)"
| "proto (SgSupp s) = SgSupp (supp_proto s)"
| "proto (SgLSup s) = SgLSup (lsupp_proto s)"

definition prototypes :: "sgcls list" where
  "prototypes =
   [SgExpr (BinaryOp AddOp), SgExpr (BinaryOp AndAssignOp), SgExpr (BinaryOp AndOp),
     SgExpr (BinaryOp ArrowExp), SgExpr (BinaryOp AssignOp), SgExpr (BinaryOp BitAndOp),
     SgExpr (BinaryOp BitOrOp), SgExpr (BinaryOp BitXorOp), SgExpr (BinaryOp CommaOpExp),
     SgExpr (BinaryOp ConcatenationOp), SgExpr (BinaryOp DivAssignOp),
     SgExpr (BinaryOp DivideOp), SgExpr (BinaryOp EqualityOp),
     SgExpr (BinaryOp ExponentiationOp), SgExpr (BinaryOp GreaterOrEqualOp),
     SgExpr (BinaryOp GreaterThanOp), SgExpr (BinaryOp IorAssignOp),
     SgExpr (BinaryOp LessOrEqualOp), SgExpr (BinaryOp LessThanOp),
     SgExpr (BinaryOp LshiftAssignOp), SgExpr (BinaryOp LshiftOp),
     SgExpr (BinaryOp MinusAssignOp), SgExpr (BinaryOp ModAssignOp), SgExpr (BinaryOp ModOp),
     SgExpr (BinaryOp MultAssignOp), SgExpr (BinaryOp MultiplyOp), SgExpr (BinaryOp NotEqualOp),
     SgExpr (BinaryOp OrOp), SgExpr (BinaryOp PlusAssignOp), SgExpr (BinaryOp PointerAssignOp),
     SgExpr (BinaryOp PntrArrRefExp), SgExpr (BinaryOp RshiftAssignOp),
     SgExpr (BinaryOp RshiftOp), SgExpr (BinaryOp SubtractOp), SgExpr (UserDefinedBinaryOp []),
     SgExpr (UserDefinedUnaryOp []), SgExpr (BinaryOp XorAssignOp),
     SgExpr (UnaryOp AddressOfOp 0), SgExpr (UnaryOp BitComplementOp 0),
     SgExpr (UnaryOp MinusMinusOp 0), SgExpr (UnaryOp MinusOp 0), SgExpr (UnaryOp NotOp 0),
     SgExpr (UnaryOp PlusPlusOp 0), SgExpr (UnaryOp UnaryAddOp 0),
     SgExpr (ValueExp BoolValExp 0 []), SgExpr (ValueExp CharVal 0 []), SgExpr ComplexVal,
     SgExpr (ValueExp DoubleVal 0 []), SgExpr (EnumVal 0 [] None),
     SgExpr (ValueExp FloatVal 0 []), SgExpr (ValueExp IntVal 0 []),
     SgExpr (ValueExp LongDoubleVal 0 []), SgExpr (ValueExp LongIntVal 0 []),
     SgExpr (ValueExp LongLongIntVal 0 []), SgExpr (ValueExp ShortVal 0 []),
     SgExpr (StringVal [] False False False False), SgExpr (ValueExp UnsignedCharVal 0 []),
     SgExpr (ValueExp UnsignedIntVal 0 []), SgExpr (ValueExp UnsignedLongLongIntVal 0 []),
     SgExpr (ValueExp UnsignedLongVal 0 []), SgExpr (ValueExp UnsignedShortVal 0 []),
     SgExpr (ValueExp WcharVal 0 []), SgExpr (ActualArgumentExpression []),
     SgExpr (AggregateInitializer False), SgExpr (AsmOp 0 [] 0 False [] False),
     SgExpr (AssignInitializer False), SgExpr AsteriskShapeExp, SgExpr (CastExp 0),
     SgExpr ColonShapeExp, SgExpr (CompoundLiteralExp []), SgExpr ConditionalExp,
     SgExpr (ConstructorInitializer False False False False), SgExpr DesignatedInitializer,
     SgExpr (BinaryOp DotExp), SgExpr ExprListExp, SgExpr FunctionCallExp,
     SgExpr (FunctionRefExp [] None), SgExpr ImpliedDo, SgExpr (LabelRefExp 0 0 None),
     SgExpr NullExpression, SgExpr PointerDerefExp, SgExpr SizeOfOp, SgExpr StatementExpression,
     SgExpr SubscriptExpression, SgExpr VarArgEndOp, SgExpr VarArgCopyOp, SgExpr VarArgOp,
     SgExpr VarArgStartOp, SgExpr (VarRefExp []), SgLSup (CommonBlockObject []),
     SgLSup (InitializedName [] None 0 False 0 []), SgLSup (InterfaceBody None), SgLSup (RenamePair [] []),
     SgStmt (Declaration (AsmStmt [] False [])), SgStmt (Declaration
     (AttributeSpecificationStatement 0 0 0 0 [])), SgStmt (Declaration (ClassDeclaration [] 0
     False False)), SgStmt (Declaration CommonBlock), SgStmt (Declaration ContainsStatement),
     SgStmt (Declaration (DerivedTypeStatement [] 0 False False)), SgStmt (Declaration
     (EnumDeclaration [] False)), SgStmt (Declaration EquivalenceStatement), SgStmt (Declaration
     FormatStatement), SgStmt (Declaration (FortranIncludeLine [])), SgStmt (Declaration
     (FunctionDeclaration [] False False 0 [])), SgStmt (Declaration FunctionParameterList),
     SgStmt (Declaration (ImplicitStatement False)), SgStmt (Declaration ImportStatement),
     SgStmt (Declaration (InterfaceStatement [] 0)), SgStmt (Declaration NamelistStatement),
     SgStmt (Declaration PragmaDeclaration), SgStmt (Declaration (TypedefDeclaration [] False)),
     SgStmt (Declaration (UseStatement [] False)), SgStmt (Declaration (VariableDeclaration 0 0
     [] [])),
     SgStmt AllocateStatement, SgStmt ArithmeticIfStatement, SgStmt AssociateStatement,
     SgStmt (IOStatement Backspace), SgStmt BasicBlock, SgStmt (BreakStmt []),
     SgStmt (CaseOptionStmt []), SgStmt (ClassDefinition False False False), SgStmt (IOStatement Close), SgStmt ComputedGotoStatement,
     SgStmt (ContinueStmt []), SgStmt DeallocateStatement, SgStmt (DefaultOptionStmt []),
     SgStmt DoWhileStmt, SgStmt ElseWhereStatement, SgStmt (IOStatement Endfile),
     SgStmt ExprStatement, SgStmt (IOStatement Flush), SgStmt ForAllStatement,
     SgStmt ForInitStatement, SgStmt ForStatement, SgStmt (FortranDo False False None []),
     SgStmt FunctionDefinition, SgStmt Global, SgStmt (GotoStatement None None),
     SgStmt (IfStmt False False None None []), SgStmt (IOStatement Inquire),
     SgStmt (LabelStatement []), SgStmt NullStatement, SgStmt NullifyStatement,
     SgStmt (IOStatement Open), SgStmt (IOStatement Print), SgStmt (IOStatement Read),
     SgStmt ReturnStmt, SgStmt (IOStatement Rewind), SgStmt (StopOrPauseStatement 0),
     SgStmt (SwitchStatement None []), SgStmt (IOStatement Wait),
     SgStmt (WhereStatement False [] None), SgStmt (WhileStmt False None []),
     SgStmt (IOStatement Write), SgSupp (DataStatementGroup 0), SgSupp DataStatementObject,
     SgSupp (DataStatementValue 0), SgSupp (FormatItem False 0), SgSupp FunctionParameterTypeList, SgSupp (NameGroup [] []),
     SgSupp (Pragma []), SgSupp (SourceFile [] 0 0), SgSupp TypedefSeq, SgType (ArrayType 0),
     SgType (ClassType [] 0 False), SgType (EnumType []), SgType FunctionType,
     SgType (ModifierType [] 0), SgType PointerType, SgType (SimpleType TypeBool),
     SgType (SimpleType TypeChar), SgType TypeComplex, SgType (SimpleType TypeCrayPointer),
     SgType TypeDefault, SgType (SimpleType TypeDouble), SgType TypeEllipse,
     SgType (SimpleType TypeFloat), SgType TypeImaginary, SgType TypeInt, SgType (TypeLabel []),
     SgType (SimpleType TypeLong), SgType (SimpleType TypeLongDouble),
     SgType (SimpleType TypeLongLong), SgType TypeOfType, SgType (SimpleType TypeShort),
     SgType (SimpleType TypeSignedChar), SgType (SimpleType TypeSignedInt),
     SgType (SimpleType TypeSignedLong), SgType (SimpleType TypeSignedLongLong),
     SgType (SimpleType TypeSignedShort), SgType TypeString,
     SgType (SimpleType TypeUnsignedChar), SgType (SimpleType TypeUnsignedInt),
     SgType (SimpleType TypeUnsignedLong), SgType (SimpleType TypeUnsignedLongLong),
     SgType (SimpleType TypeUnsignedShort), SgType (SimpleType TypeVoid),
     SgType (TypedefType [])]"

definition class_of :: "string \<Rightarrow> sgcls option" where
  "class_of nm = List.find (\<lambda>c. class_name c = nm) prototypes"

text \<open>
  No two names are the same; a number computed from the characters tells them apart.
\<close>

definition name_key :: "string \<Rightarrow> int" where
  "name_key s = foldl (\<lambda>a c. 3 * a + of_char c) 0 s"

lemma distinct_keys: "distinct (map (name_key \<circ> sage_name) prototypes)"
  by (simp add: prototypes_def name_key_def)

lemma distinct_names: "distinct (map class_name prototypes)"
proof -
  have "distinct (map name_key (map sage_name prototypes))"
    using distinct_keys by (simp add: comp_def)
  then have "distinct (map sage_name prototypes)" by (simp only: distinct_map [of name_key])
  then show ?thesis by (simp add: class_name_def distinct_map inj_on_def)
qed

lemma find_distinct: "distinct (map f xs) \<Longrightarrow> x \<in> set xs \<Longrightarrow> List.find (\<lambda>y. f y = f x) xs = Some x"
  by (induction xs) (auto simp: image_iff)

lemma proto_name: "class_name (proto c) = class_name c"
proof (cases c)
  case (SgExpr e) then show ?thesis by (cases e) (simp_all add: class_name_def)
next
  case (SgStmt e)
  then show ?thesis
  proof (cases e)
    case (Declaration d)
    then show ?thesis using SgStmt by (cases d) (simp_all add: class_name_def)
  qed (simp_all add: class_name_def)
next
  case (SgType e) then show ?thesis by (cases e) (simp_all add: class_name_def)
next
  case (SgSupp e) then show ?thesis by (cases e) (simp_all add: class_name_def)
next
  case (SgLSup e) then show ?thesis by (cases e) (simp_all add: class_name_def)
qed

text \<open>
  The writer's switch has a case for every class but four built-in types of ROSE; the reader finds
  the class of every element that the writer can name.
\<close>

definition listed :: "sgcls \<Rightarrow> bool" where
  "listed c \<longleftrightarrow> proto c \<in> set prototypes"

definition unlisted :: "tykind list" where
  "unlisted = [TypeWchar, TypeSigned128bitInteger, TypeUnsigned128bitInteger, TypeUnknown]"

lemma listed_iff: "listed c \<longleftrightarrow> (\<forall>k. c = SgType (SimpleType k) \<longrightarrow> k \<notin> set unlisted)"
proof (cases c)
  case (SgExpr e)
  then show ?thesis
  proof (cases e)
    case (BinaryOp op)
    then show ?thesis using SgExpr by (cases op) (simp_all add: listed_def prototypes_def)
  next
    case (UnaryOp op m)
    then show ?thesis using SgExpr by (cases op) (simp_all add: listed_def prototypes_def)
  next
    case (ValueExp k v s)
    then show ?thesis using SgExpr by (cases k) (simp_all add: listed_def prototypes_def)
  qed (simp_all add: listed_def prototypes_def)
next
  case (SgStmt s)
  then show ?thesis
  proof (cases s)
    case (IOStatement k)
    then show ?thesis using SgStmt by (cases k) (simp_all add: listed_def prototypes_def)
  next
    case (Declaration d)
    then show ?thesis using SgStmt by (cases d) (simp_all add: listed_def prototypes_def)
  qed (simp_all add: listed_def prototypes_def)
next
  case (SgType t)
  then show ?thesis
  proof (cases t)
    case (SimpleType k)
    then show ?thesis using SgType
      by (cases k) (simp_all add: listed_def prototypes_def unlisted_def)
  qed (simp_all add: listed_def prototypes_def)
next
  case (SgSupp s)
  then show ?thesis by (cases s) (simp_all add: listed_def prototypes_def)
next
  case (SgLSup s)
  then show ?thesis by (cases s) (simp_all add: listed_def prototypes_def)
qed

lemma class_of_name: "listed c \<Longrightarrow> class_of (class_name c) = Some (proto c)"
  unfolding class_of_def listed_def using find_distinct [OF distinct_names] proto_name by metis

lemma class_of_listed: "class_of nm = Some c \<Longrightarrow> class_name c = nm \<and> c \<in> set prototypes"
  by (auto simp: class_of_def find_Some_iff)

end
