(* ===== verification/TypeCodec.thy ===== *)
theory TypeCodec
  imports Codec Bits ClassNames
begin

text \<open>
  The type classes of \<open>src/type.cpp\<close>. A type is never traversed by successors: what the writer
  visits below it are internal nodes, the slots named at each class. \<open>read_type\<close> is the lemma of
  the theory.
\<close>

subsection \<open>Built-in types\<close>

text \<open>
  \<open>VISIT_TYPE\<close>: the variable for the kind is overwritten by every child element, so the last one
  decides. Slot: the kind.
\<close>

fun last_kind :: "sgnode option \<Rightarrow> kid list \<Rightarrow> sgnode option" where
  "last_kind kexp [] = kexp"
| "last_kind kexp (KNode n # ks) = last_kind (if isSgExpression n then Some n else None) ks"
| "last_kind kexp (KNull # ks) = last_kind None ks"
| "last_kind kexp (KText s # ks) = last_kind kexp ks"

definition visitSgVISIT_TYPE :: "tykind \<Rightarrow> 's handler" where
  "visitSgVISIT_TYPE k E \<sigma> A ks = Inr (built (SgType (SimpleType k)) [] [last_kind None ks])"

definition inodeSgType :: "nat \<Rightarrow> sgnode \<Rightarrow> sgnode list" where
  "inodeSgType i n = the_list [slot i (inner n)]"

text \<open>\<open>VISIT_TYPE2\<close>.\<close>

definition visitSgTypeDefault :: "'s handler" where
  "visitSgTypeDefault E \<sigma> A ks = Inr (built (SgType TypeDefault) [] [])"

definition visitSgTypeEllipse :: "'s handler" where
  "visitSgTypeEllipse E \<sigma> A ks = Inr (built (SgType TypeEllipse) [] [])"

definition visitSgTypeInt :: "'s handler" where
  "visitSgTypeInt E \<sigma> A ks = Inr (built (SgType TypeInt) [] [first_of isSgExpression (nodes ks)])"

definition visitSgTypeLabel :: "'s handler" where
  "visitSgTypeLabel E \<sigma> A ks =
     Inr (built (SgType (TypeLabel (getStr A ''name'' []))) [] [first_of isSgExpression (nodes ks)])"

definition attribSgTypeLabel :: "string \<Rightarrow> chunk list" where
  "attribSgTypeLabel name = [raw ''name'' name sp]"

text \<open>Slots: the length, the kind. Without a length the type gets an asterisk.\<close>

definition visitSgTypeString :: "'s handler" where
  "visitSgTypeString E \<sigma> A ks =
     bind_res (getInt A ''len'' 0) (\<lambda>len.
       let v = (if len \<noteq> 0 then fill [isSgExpression, isSgExpression] (nodes ks)
                else [None, first_of isSgExpression (nodes ks)]);
           lexp = (case slot 0 v of
               None \<Rightarrow> Node (hdr0\<lparr>h_file := Some transformation\<rparr>) (SgExpr AsteriskShapeExp) [] [None]
             | Some l \<Rightarrow> l)
       in Inr (built (SgType TypeString) [] [Some lexp, slot 1 v]))"

definition attribSgTypeString :: "sgnode \<Rightarrow> chunk list" where
  "attribSgTypeString n = only (slot 0 (inner n) \<noteq> None) [flag ''len'' True sp]"

definition inodeSgTypeString :: "sgnode \<Rightarrow> sgnode list" where
  "inodeSgTypeString n = the_list [slot 0 (inner n)] @ inodeSgType 1 n"

text \<open>Slots: the kind, the base type.\<close>

definition visitSgTypeComplex :: "'s handler" where
  "visitSgTypeComplex E \<sigma> A ks =
     need ''SgTypeComplex needs a child node of SgType'' (first_of isSgType (nodes ks))
       (\<lambda>typ. Inr (built (SgType TypeComplex) [] [first_of isSgExpression (nodes ks), Some typ]))"

definition visitSgTypeImaginary :: "'s handler" where
  "visitSgTypeImaginary E \<sigma> A ks =
     need ''SgTypeImaginary needs a child node of SgType'' (first_of isSgType (nodes ks))
       (\<lambda>typ. Inr (built (SgType TypeImaginary) [] [first_of isSgExpression (nodes ks), Some typ]))"

definition inodeSgTypeComplex :: "sgnode \<Rightarrow> sgnode list" where
  "inodeSgTypeComplex n = inodeSgType 0 n @ the_list [slot 1 (inner n)]"

definition inodeSgTypeImaginary :: "sgnode \<Rightarrow> sgnode list" where
  "inodeSgTypeImaginary n = inodeSgType 0 n @ the_list [slot 1 (inner n)]"

subsection \<open>Array types\<close>

text \<open>
  Slots: the base type, the dimensions, the index. The loop recognises a list of dimensions only
  when a third child comes after it: \<open>same\<close> says that \<open>iexp\<close> and \<open>lst\<close> are the same (non-null)
  pointer.
\<close>

record array_vars =
  av_typ :: "sgnode option"
  av_lst :: "sgnode option"
  av_iexp :: "sgnode option"
  av_same :: bool

definition array_round :: "sgnode option \<Rightarrow> array_vars \<Rightarrow> array_vars" where
  "array_round astchild v =
     (let as = (\<lambda>p. case astchild of None \<Rightarrow> None | Some n \<Rightarrow> if p n then Some n else None) in
      if av_typ v = None then v\<lparr>av_typ := as isSgType\<rparr>
      else let v = (case (av_lst v, av_iexp v) of
                 (None, Some x) \<Rightarrow> if isSgExprListExp x then v\<lparr>av_lst := Some x, av_same := True\<rparr> else v
               | _ \<Rightarrow> v)
           in if av_iexp v = None \<or> av_same v
              then v\<lparr>av_iexp := as isSgExpression, av_same := False\<rparr> else v)"

fun array_loop :: "kid list \<Rightarrow> array_vars \<Rightarrow> array_vars" where
  "array_loop [] v = v"
| "array_loop (KNode n # ks) v = array_loop ks (array_round (Some n) v)"
| "array_loop (KNull # ks) v = array_loop ks (array_round None v)"
| "array_loop (KText s # ks) v = array_loop ks v"

definition visitSgArrayType :: "'s handler" where
  "visitSgArrayType E \<sigma> A ks =
     bind_res (getInt A ''rank'' 0) (\<lambda>rnk.
       let v = array_loop ks \<lparr>av_typ = None, av_lst = None, av_iexp = None, av_same = False\<rparr> in
       need ''SgArrayType needs a child node of SgType'' (av_typ v) (\<lambda>typ.
         case av_lst v of
           Some lst \<Rightarrow> if rnk = int (length (succ lst))
             then Inr (built (SgType (ArrayType rnk)) [] [Some typ, Some lst, av_iexp v])
             else Inl (Fatal ''invalid expression list'')
         | None \<Rightarrow> Inr (built (SgType (ArrayType rnk)) [] [Some typ, None, av_iexp v])))"

definition attribSgArrayType :: "int \<Rightarrow> chunk list" where
  "attribSgArrayType rank = [num ''rank'' rank sp]"

text \<open>An index from another file is written as a copy that counts as a transformation.\<close>

fun as_transformation :: "sgnode \<Rightarrow> sgnode" where
  "as_transformation (Node h c ss ns) =
     Node (if located c then h\<lparr>h_file := Some transformation\<rparr> else h) c
       (map (map_option as_transformation) ss) ns"

definition copy_index :: "sgnode \<Rightarrow> sgnode" where
  "copy_index idx = (case h_file (hd_of idx) of
      None \<Rightarrow> idx
    | Some info \<Rightarrow> if fi_same info then idx else as_transformation idx)"

definition inodeSgArrayType :: "sgnode \<Rightarrow> sgnode list" where
  "inodeSgArrayType n =
     the_list [slot 0 (inner n)] @ the_list [slot 1 (inner n)]
     @ the_list [map_option copy_index (slot 2 (inner n))]"

subsection \<open>Types with a name\<close>

text \<open>
  A class type refers to the declaration of the class of that name; when the symbol tables have
  none, to a dummy made from the attributes. The class definition among its children, which the
  writer emits for unnamed classes and in compound literals, is not modelled.
\<close>

definition visitSgClassType :: "'s handler" where
  "visitSgClassType E \<sigma> A ks =
     bind_res (getInt A ''type'' 0) (\<lambda>typ. bind_res (getFlag A ''unnamed'' False) (\<lambda>unn.
       let name = getStr A ''name'' [] in
       case r_find_class E \<sigma> name of
         Some (ct, un, def) \<Rightarrow> Inr (built (SgType (ClassType name ct un)) [] [])
       | None \<Rightarrow> Inr (built (SgType (ClassType name typ unn)) [] [])))"

definition attribSgClassType :: "string \<Rightarrow> int \<Rightarrow> bool \<Rightarrow> chunk list" where
  "attribSgClassType name ct unn =
     [raw ''name'' name sp, num ''type'' ct sp] @ only unn [flag ''unnamed'' unn sp]"

definition visitSgEnumType :: "'s handler" where
  "visitSgEnumType E \<sigma> A ks =
     (if \<not> hasAttr A ''name'' then Inl (Fatal ''SgEnumType needs an attribute, name'')
      else Inr (built (SgType (EnumType (getStr A ''name'' []))) [] []))"

definition attribSgEnumType :: "string \<Rightarrow> chunk list" where
  "attribSgEnumType name = [raw ''name'' name sp]"

definition visitSgTypedefType :: "'s handler" where
  "visitSgTypedefType E \<sigma> A ks = Inr (built (SgType (TypedefType (getStr A ''name'' []))) [] [])"

definition attribSgTypedefType :: "string \<Rightarrow> chunk list" where
  "attribSgTypedefType name = [raw ''name'' name sp]"

subsection \<open>Types built from types\<close>

text \<open>Slots: the return type, the list of argument types.\<close>

definition visitSgFunctionType :: "'s handler" where
  "visitSgFunctionType E \<sigma> A ks =
     need ''SgFunctionType needs a child node of SgFunctionParameterList''
       (first_of isSgFunctionParameterTypeList (nodes ks))
       (\<lambda>lst. let typ = (case first_of isSgType (nodes ks) of
                  None \<Rightarrow> built (SgType TypeInt) [] [None]
                | Some t \<Rightarrow> t)
              in Inr (built (SgType FunctionType) [] [Some typ, Some lst]))"

definition inodeSgFunctionType :: "sgnode \<Rightarrow> sgnode list" where
  "inodeSgFunctionType n = the_list [slot 0 (inner n)] @ the_list [slot 1 (inner n)]"

text \<open>Slot: the base type. Only \<open>const\<close> and \<open>volatile\<close> select a builder of their own.\<close>

definition visitSgModifierType :: "'s handler" where
  "visitSgModifierType E \<sigma> A ks =
     need ''SgModifierType needs a child node of SgType'' (first_of isSgType (nodes ks)) (\<lambda>typ.
       if \<not> hasAttr A ''modifier'' then Inl (Fatal ''SgModifierType needs an attribute, modifier'')
       else bind_res (getULong A ''modifier'' 0) (\<lambda>m. bind_res (getULong A ''cv_modifier'' 0) (\<lambda>cv.
         let cv' = (if cv = r_cv_const E then r_cv_const E
                    else if cv = r_cv_volatile E then r_cv_volatile E else r_cv_default E)
         in Inr (built (SgType (ModifierType (unpack_bits (r_modifier_bits E) (of_int m)) cv'))
                  [] [Some typ]))))"

definition attribSgModifierType :: "'s rose \<Rightarrow> bool list \<Rightarrow> int \<Rightarrow> chunk list" where
  "attribSgModifierType E vec cv =
     [num ''modifier'' (uint (pack_bits vec)) sp]
     @ only (cv \<noteq> r_cv_default E) [num ''cv_modifier'' cv sp]"

definition inodeSgModifierType :: "sgnode \<Rightarrow> sgnode list" where
  "inodeSgModifierType n = the_list [slot 0 (inner n)]"

definition visitSgPointerType :: "'s handler" where
  "visitSgPointerType E \<sigma> A ks =
     need ''SgPointerType needs a child node of SgType'' (first_of isSgType (nodes ks))
       (\<lambda>typ. Inr (built (SgType PointerType) [] [Some typ]))"

definition inodeSgPointerType :: "sgnode \<Rightarrow> sgnode list" where
  "inodeSgPointerType n = the_list [slot 0 (inner n)]"

text \<open>Slots: the base type, the base expression, which wins and gives the type.\<close>

definition visitSgTypeOfType :: "'s handler" where
  "visitSgTypeOfType E \<sigma> A ks =
     (case (first_of isSgExpression (nodes ks), first_of isSgType (nodes ks)) of
        (None, None) \<Rightarrow>
          Inl (Fatal ''SgTypeOfType expects a child node of either SgType or SgExpression'')
      | (Some exp, _) \<Rightarrow> Inr (built (SgType TypeOfType) [] [get_type E exp, Some exp])
      | (None, Some typ) \<Rightarrow> Inr (built (SgType TypeOfType) [] [Some typ, None]))"

definition inodeSgTypeOfType :: "sgnode \<Rightarrow> sgnode list" where
  "inodeSgTypeOfType n = the_list [slot 0 (inner n)] @ the_list [slot 1 (inner n)]"

subsection \<open>Dispatch on the class\<close>

fun attribs_type :: "'s rose \<Rightarrow> sgnode \<Rightarrow> typecls \<Rightarrow> chunk list" where
  "attribs_type E n (ArrayType r) = attribSgArrayType r"
| "attribs_type E n (ClassType nm ct un) = attribSgClassType nm ct un"
| "attribs_type E n (EnumType nm) = attribSgEnumType nm"
| "attribs_type E n (ModifierType v cv) = attribSgModifierType E v cv"
| "attribs_type E n (TypeLabel nm) = attribSgTypeLabel nm"
| "attribs_type E n TypeString = attribSgTypeString n"
| "attribs_type E n (TypedefType nm) = attribSgTypedefType nm"
| "attribs_type E n t = []"

primrec inode_type :: "sgnode \<Rightarrow> typecls \<Rightarrow> sgnode list" where
  "inode_type n (SimpleType k) = inodeSgType 0 n"
| "inode_type n (ArrayType r) = inodeSgArrayType n"
| "inode_type n (ClassType nm ct un) = []"
| "inode_type n (EnumType nm) = []"
| "inode_type n FunctionType = inodeSgFunctionType n"
| "inode_type n (ModifierType v cv) = inodeSgModifierType n"
| "inode_type n PointerType = inodeSgPointerType n"
| "inode_type n TypeComplex = inodeSgTypeComplex n"
| "inode_type n TypeDefault = []"
| "inode_type n TypeEllipse = []"
| "inode_type n TypeImaginary = inodeSgTypeImaginary n"
| "inode_type n TypeInt = inodeSgType 0 n"
| "inode_type n (TypeLabel nm) = inodeSgType 0 n"
| "inode_type n TypeOfType = inodeSgTypeOfType n"
| "inode_type n TypeString = inodeSgTypeString n"
| "inode_type n (TypedefType nm) = []"

primrec type_handler :: "typecls \<Rightarrow> 's handler" where
  "type_handler (SimpleType k) = visitSgVISIT_TYPE k"
| "type_handler (ArrayType r) = visitSgArrayType"
| "type_handler (ClassType nm ct un) = visitSgClassType"
| "type_handler (EnumType nm) = visitSgEnumType"
| "type_handler FunctionType = visitSgFunctionType"
| "type_handler (ModifierType v cv) = visitSgModifierType"
| "type_handler PointerType = visitSgPointerType"
| "type_handler TypeComplex = visitSgTypeComplex"
| "type_handler TypeDefault = visitSgTypeDefault"
| "type_handler TypeEllipse = visitSgTypeEllipse"
| "type_handler TypeImaginary = visitSgTypeImaginary"
| "type_handler TypeInt = visitSgTypeInt"
| "type_handler (TypeLabel nm) = visitSgTypeLabel"
| "type_handler TypeOfType = visitSgTypeOfType"
| "type_handler TypeString = visitSgTypeString"
| "type_handler (TypedefType nm) = visitSgTypedefType"

subsection \<open>Reading back\<close>

abbreviation "reqT \<equiv> req isSgType"

text \<open>The modifier comes back when it is one of the two with a builder, or the default.\<close>

definition cv_ok :: "'s rose \<Rightarrow> int \<Rightarrow> bool" where
  "cv_ok E cv \<longleftrightarrow>
     (if cv = r_cv_default E then r_cv_const E \<noteq> 0 \<and> r_cv_volatile E \<noteq> 0
      else cv \<in> {r_cv_const E, r_cv_volatile E} \<and> 0 \<le> cv \<and> cv < 2 ^ 64)"

definition class_ok :: "'s rose \<Rightarrow> string \<Rightarrow> int \<Rightarrow> bool \<Rightarrow> bool" where
  "class_ok E nm ct un \<longleftrightarrow> (\<forall>\<sigma>. case r_find_class E \<sigma> nm of
      None \<Rightarrow> True
    | Some (ct', un', def) \<Rightarrow> ct' = ct \<and> un' = un)"

definition dims_ok :: "int \<Rightarrow> sgnode option \<Rightarrow> sgnode option \<Rightarrow> bool" where
  "dims_ok rnk lst idx \<longleftrightarrow> (case lst of
      None \<Rightarrow> True
    | Some l \<Rightarrow> isSgExprListExp l \<and> idx \<noteq> None \<and> rnk = int (length (succ l)))"

primrec type_shape ::
    "'s rose \<Rightarrow> typecls \<Rightarrow> sgnode option list \<Rightarrow> sgnode option list \<Rightarrow> bool" where
  "type_shape E (SimpleType k) ss ns = (slots [] ss \<and> slots [may isSgExpression] ns \<and> listed (SgType (SimpleType k)))"
| "type_shape E (ArrayType r) ss ns =
     (slots [] ss \<and> slots [reqT, may isSgExprListExp, may isSgExpression] ns \<and> int32 r \<and>
      dims_ok r (slot 1 ns) (slot 2 ns))"
| "type_shape E (ClassType nm ct un) ss ns =
     (slots [] ss \<and> slots [] ns \<and> safe nm \<and> int32 ct \<and> class_ok E nm ct un)"
| "type_shape E (EnumType nm) ss ns = (slots [] ss \<and> slots [] ns \<and> safe nm)"
| "type_shape E FunctionType ss ns = (slots [] ss \<and> slots [reqT, req isSgFunctionParameterTypeList] ns)"
| "type_shape E (ModifierType v cv) ss ns =
     (slots [] ss \<and> slots [reqT] ns \<and> length v = r_modifier_bits E \<and> length v \<le> 64 \<and> cv_ok E cv)"
| "type_shape E PointerType ss ns = (slots [] ss \<and> slots [reqT] ns)"
| "type_shape E TypeComplex ss ns = (slots [] ss \<and> slots [may isSgExpression, reqT] ns)"
| "type_shape E TypeDefault ss ns = (slots [] ss \<and> slots [] ns)"
| "type_shape E TypeEllipse ss ns = (slots [] ss \<and> slots [] ns)"
| "type_shape E TypeImaginary ss ns = (slots [] ss \<and> slots [may isSgExpression, reqT] ns)"
| "type_shape E TypeInt ss ns = (slots [] ss \<and> slots [may isSgExpression] ns)"
| "type_shape E (TypeLabel nm) ss ns = (slots [] ss \<and> slots [may isSgExpression] ns \<and> safe nm)"
| "type_shape E TypeOfType ss ns = (slots [] ss \<and> slots [reqT, none] ns)"
| "type_shape E TypeString ss ns = (slots [] ss \<and> slots [reqE, may isSgExpression] ns)"
| "type_shape E (TypedefType nm) ss ns = (slots [] ss \<and> slots [] ns \<and> safe nm)"

text \<open>The two loops on the children as the writer emits them.\<close>

fun shown :: "kid \<Rightarrow> bool" where
  "shown (KText s) = False"
| "shown k = True"

lemma last_kind_shown: "last_kind e (filter shown ks) = last_kind e ks"
  by (induction e ks rule: last_kind.induct) simp_all

lemma array_loop_shown: "array_loop (filter shown ks) v = array_loop ks v"
  by (induction ks v rule: array_loop.induct) simp_all

lemma filter_shown: "KNull \<notin> set ks \<Longrightarrow> filter shown ks = map KNode (nodes ks)"
  by (induction ks rule: nodes.induct) auto

lemma last_kind_may:
  assumes "KNull \<notin> set ks" "nodes ks = the_list [y]" "may isSgExpression y"
  shows "last_kind None ks = y"
  using assms last_kind_shown [of None ks] by (cases y) (simp_all add: filter_shown)

lemma array_loop_written:
  assumes "isSgType b" "may isSgExprListExp l" "may isSgExpression i" "l \<noteq> None \<longrightarrow> i \<noteq> None"
    and "KNull \<notin> set ks" "nodes ks = b # the_list [l] @ the_list [i]"
  shows "\<exists>v. array_loop ks \<lparr>av_typ = None, av_lst = None, av_iexp = None, av_same = False\<rparr> = v \<and>
    av_typ v = Some b \<and> av_lst v = l \<and> av_iexp v = i"
proof -
  have *: "array_loop ks v = array_loop (map KNode (b # the_list [l] @ the_list [i])) v" for v
    using assms(5,6) by (metis array_loop_shown filter_shown)
  show ?thesis
    using assms(1-4) unfolding *
    by (cases l; cases i) (auto simp: array_round_def Let_def elim!: test_elims)
qed

lemmas type_defs = visitSgVISIT_TYPE_def visitSgTypeDefault_def visitSgTypeEllipse_def
  visitSgTypeInt_def visitSgTypeLabel_def visitSgTypeString_def visitSgTypeComplex_def
  visitSgTypeImaginary_def visitSgClassType_def visitSgEnumType_def visitSgTypedefType_def
  visitSgFunctionType_def visitSgModifierType_def visitSgPointerType_def visitSgTypeOfType_def

lemmas attrib_type_defs = attribSgTypeLabel_def attribSgTypeString_def attribSgArrayType_def
  attribSgClassType_def attribSgEnumType_def attribSgTypedefType_def attribSgModifierType_def

lemmas inode_type_defs = inodeSgType_def inodeSgTypeString_def inodeSgTypeComplex_def
  inodeSgTypeImaginary_def inodeSgArrayType_def inodeSgFunctionType_def inodeSgModifierType_def
  inodeSgPointerType_def inodeSgTypeOfType_def

lemma class_okD: "class_ok E nm ct un \<Longrightarrow> r_find_class E \<sigma> nm = Some (a, b, c) \<Longrightarrow> a = ct \<and> b = un"
  by (force simp: class_ok_def dest: spec [of _ \<sigma>])

lemma scan_mod: "scan_unsigned 64 (show_int (uint (w :: 64 word))) = Some (uint w)"
  using uint_word_range [of w] by simp

lemma read_type:
  assumes shape: "type_shape E t ss ns" and f: "keeps f" and k0: "KNull \<notin> set ks"
    and copy: "\<And>x. slot 2 ns = Some x \<Longrightarrow> f (copy_index x) = f x"
    and kids: "nodes ks = map f (inode_type (Node h (SgType t) ss ns) t)"
  shows "type_handler t E \<sigma> (decode_attrs (attribs_type E (Node h (SgType t) ss ns) t)) ks =
    Inr (built (SgType t) (map (map_option f) ss) (map (map_option f) ns))"
proof -
  note k = kids [unfolded inode_type_defs, simplified]
  note d = type_defs attrib_type_defs look_access
  show ?thesis
  proof (cases t)
    case (SimpleType x)
    then obtain y where y: "ss = []" "ns = [y]" "may isSgExpression y" using shape by auto
    then have "last_kind None ks = map_option f y"
      using k f k0 SimpleType by (cases y) (auto intro!: last_kind_may simp: inode_type_defs)
    then show ?thesis using SimpleType y by (simp add: d)
  next
    case (ArrayType r)
    then obtain b l i where y: "ss = []" "ns = [Some b, l, i]" "isSgType b" "may isSgExprListExp l" "may isSgExpression i"
      "int32 r" "dims_ok r l i" using shape by auto
    have i: "map_option f (map_option copy_index i) = map_option f i"
      using copy y by (cases i) auto
    have "nodes ks = f b # the_list [map_option f l] @ the_list [map_option f i]"
      using kids y i ArrayType by (cases l; cases i) (auto simp: inode_type_defs)
    then obtain v where v: "array_loop ks \<lparr>av_typ = None, av_lst = None, av_iexp = None, av_same = False\<rparr> = v"
      "av_typ v = Some (f b)" "av_lst v = map_option f l" "av_iexp v = map_option f i"
      using array_loop_written[of "f b" "map_option f l" "map_option f i" ks] y f k0
      by (cases l; cases i) (auto simp: dims_ok_def)
    have "length (succ (f x)) = length (succ x)" for x using f by (simp add: keeps_def)
    then show ?thesis using ArrayType y v f
      by (cases l) (auto simp: visitSgArrayType_def d dims_ok_def)
  next
    case (ModifierType v cv)
    then show ?thesis using shape k f
      by (auto simp: d scan_mod unpack_pack cv_ok_def inode_type_defs)
  next
    case (ClassType nm ct un)
    then show ?thesis using shape k f
      by (cases un; cases "r_find_class E \<sigma> nm") (auto simp: d inode_type_defs dest: class_okD)
  next
    case FunctionType
    then show ?thesis using shape k f
      by (auto simp: d inode_type_defs elim!: test_elims)
  next
    case TypeString
    then obtain x y where y: "ss = []" "ns = [Some x, y]" "isSgExpression x" "may isSgExpression y" using shape by auto
    then show ?thesis using TypeString k f
      by (cases y) (auto simp: d inode_type_defs fill_def)
  next
    case TypeComplex
    then obtain x y where y: "ss = []" "ns = [x, Some y]" "may isSgExpression x" "isSgType y" using shape by auto
    then show ?thesis using TypeComplex k f
      by (cases x) (auto simp: d inode_type_defs elim!: test_elims)
  next
    case TypeImaginary
    then obtain x y where y: "ss = []" "ns = [x, Some y]" "may isSgExpression x" "isSgType y" using shape by auto
    then show ?thesis using TypeImaginary k f
      by (cases x) (auto simp: d inode_type_defs elim!: test_elims)
  next
    case TypeInt
    then obtain y where "ss = []" "ns = [y]" "may isSgExpression y" using shape by auto
    then show ?thesis using TypeInt k f by (cases y) (auto simp: d inode_type_defs)
  next
    case (TypeLabel nm)
    then obtain y where "ss = []" "ns = [y]" "may isSgExpression y" "safe nm" using shape by auto
    then show ?thesis using TypeLabel k f by (cases y) (auto simp: d inode_type_defs)
  next
    case TypeOfType
    then show ?thesis using shape k f by (auto simp: d inode_type_defs elim!: test_elims)
  qed (use shape k f in \<open>auto simp: d inode_type_defs\<close>)
qed

end
