(* ===== verification/ValueCodec.thy ===== *)
theory ValueCodec
  imports Codec
begin

text \<open>
  The value expressions of \<open>src/value.cpp\<close>: for each of the three macros and the three classes
  written out, the attribute writer, the internal node writer and the element handler. The lemmas
  say which literals come back as the same node and that the text of a literal always comes back.
\<close>

subsection \<open>Printing and reading a value\<close>

definition int_range :: "valkind \<Rightarrow> (int \<times> int) option" where
  "int_range k = (case k of
     IntVal \<Rightarrow> Some (- (2 ^ 31), 2 ^ 31 - 1)
   | LongIntVal \<Rightarrow> Some (- (2 ^ 63), 2 ^ 63 - 1)
   | LongLongIntVal \<Rightarrow> Some (- (2 ^ 63), 2 ^ 63 - 1)
   | ShortVal \<Rightarrow> Some (- (2 ^ 15), 2 ^ 15 - 1)
   | _ \<Rightarrow> None)"

definition unsigned_width :: "valkind \<Rightarrow> nat option" where
  "unsigned_width k = (case k of
     UnsignedIntVal \<Rightarrow> Some 32
   | UnsignedLongLongIntVal \<Rightarrow> Some 64
   | UnsignedLongVal \<Rightarrow> Some 64
   | UnsignedShortVal \<Rightarrow> Some 16
   | WcharVal \<Rightarrow> Some 16
   | _ \<Rightarrow> None)"

definition is_float :: "valkind \<Rightarrow> bool" where
  "is_float k \<longleftrightarrow> k \<in> {DoubleVal, FloatVal, LongDoubleVal}"

text \<open>\<open>tostring\<close>, the print format of the unparser, and \<open>operator>>\<close> of the base type.\<close>

definition tostring :: "'s rose \<Rightarrow> valkind \<Rightarrow> int \<Rightarrow> string" where
  "tostring E k v = (if is_float k then r_fmt E k v else show_int v)"

definition scan_val :: "'s rose \<Rightarrow> valkind \<Rightarrow> string \<Rightarrow> int option" where
  "scan_val E k s = (if is_float k then r_scan E k s else
     (case int_range k of
        Some (lo, hi) \<Rightarrow> scan_int lo hi s
      | None \<Rightarrow> (case unsigned_width k of Some w \<Rightarrow> scan_unsigned w s | None \<Rightarrow> None)))"

text \<open>\<open>operator>>\<close> on a \<open>bool\<close> reads a number; anything but 0 sets true.\<close>

definition scan_bool :: "string \<Rightarrow> int option" where
  "scan_bool s = map_option (\<lambda>v. of_bool (v \<noteq> 0)) (scan_int (- (2 ^ 63)) (2 ^ 63 - 1) s)"

subsection \<open>Classes with a value string\<close>

definition attribSgVAL :: "'s rose \<Rightarrow> valkind \<Rightarrow> int \<Rightarrow> string \<Rightarrow> chunk list" where
  "attribSgVAL E k v vs =
     (let unparsedString = tostring E k v in
      if vs \<noteq> [] \<and> vs \<noteq> unparsedString then [esc ''value'' vs sp]
      else [raw ''value'' unparsedString sp])"

definition visitSgVAL :: "valkind \<Rightarrow> 's handler" where
  "visitSgVAL k E \<sigma> A ks =
     (if \<not> hasAttr A ''value'' then Inl (Fatal ''value expression needs an attribute, value'')
      else bind_res (getNum (scan_val E k) A ''value'' 0) (\<lambda>ival.
        let vstr = unentity (getStr A ''value'' []);
            vs = (if vstr \<noteq> tostring E k ival then vstr else []);
            oexp = first_of isSgExpression (nodes ks)
        in Inr (built (SgExpr (ValueExp k ival vs)) [] [oexp])))"

subsection \<open>Truth values and characters\<close>

definition attribSgVAL_NO_STRING :: "int \<Rightarrow> chunk list" where
  "attribSgVAL_NO_STRING v = [flag ''value'' (v \<noteq> 0) sp]"

definition visitSgVAL_NO_STRING :: "valkind \<Rightarrow> 's handler" where
  "visitSgVAL_NO_STRING k E \<sigma> A ks =
     (if \<not> hasAttr A ''value'' then Inl (Fatal ''value expression needs an attribute, value'')
      else bind_res (getNum scan_bool A ''value'' 0) (\<lambda>ival.
        Inr (built (SgExpr (ValueExp k ival [])) [] [first_of isSgExpression (nodes ks)])))"

text \<open>
  A character is printed as an \<open>unsigned long\<close> (a negative \<open>char\<close> wraps around) and converted back
  to its type.
\<close>

definition attribSgVAL_CHAR :: "int \<Rightarrow> chunk list" where
  "attribSgVAL_CHAR v = (let temp = v mod 2 ^ 64 in [num ''value'' temp sp])"

definition to_char :: "valkind \<Rightarrow> int \<Rightarrow> int" where
  "to_char k temp = (if k = CharVal then (temp + 128) mod 256 - 128 else temp mod 256)"

definition visitSgVAL_CHAR :: "valkind \<Rightarrow> 's handler" where
  "visitSgVAL_CHAR k E \<sigma> A ks =
     (if \<not> hasAttr A ''value'' then Inl (Fatal ''value expression needs an attribute, value'')
      else bind_res (getULong A ''value'' 0) (\<lambda>temp.
        Inr (built (SgExpr (ValueExp k (to_char k temp) [])) []
              [first_of isSgExpression (nodes ks)])))"

subsection \<open>Dispatch on the kind\<close>

definition attribSgValue :: "'s rose \<Rightarrow> valkind \<Rightarrow> int \<Rightarrow> string \<Rightarrow> chunk list" where
  "attribSgValue E k v vs =
     (if k = BoolValExp then attribSgVAL_NO_STRING v
      else if k \<in> {CharVal, UnsignedCharVal} then attribSgVAL_CHAR v
      else attribSgVAL E k v vs)"

definition visitSgValue :: "valkind \<Rightarrow> 's handler" where
  "visitSgValue k =
     (if k = BoolValExp then visitSgVAL_NO_STRING k
      else if k \<in> {CharVal, UnsignedCharVal} then visitSgVAL_CHAR k
      else visitSgVAL k)"

subsection \<open>Enumerators, complex numbers, strings\<close>

definition attribSgEnumVal :: "int \<Rightarrow> string \<Rightarrow> string option \<Rightarrow> chunk list res" where
  "attribSgEnumVal v nm decl = (case decl of
      None \<Rightarrow> Inl (Undef ''get_name of a null declaration'')
    | Some e \<Rightarrow> Inr [num ''value'' v sp, raw ''name'' nm sp, raw ''enum'' e sp])"

definition visitSgEnumVal :: "'s handler" where
  "visitSgEnumVal E \<sigma> A ks =
     (if \<not> hasAttr A ''name'' then Inl (Fatal ''SgEnumVal needs an attribute, name'')
      else if \<not> hasAttr A ''value'' then Inl (Fatal ''SgEnumVal needs an attribute, value'')
      else bind_res (getInt A ''value'' 0) (\<lambda>ival.
        let ename = getStr A ''enum'' [];
            decl = (if hasAttr A ''enum'' \<and> r_find_enum E \<sigma> ename then Some ename else None)
        in Inr (built (SgExpr (EnumVal ival (getStr A ''name'' []) decl)) []
              [first_of isSgExpression (nodes ks)])))"

definition zero_val :: sgnode where
  "zero_val = built (SgExpr (ValueExp LongDoubleVal 0 [])) [] [None]"

text \<open>
  The third branch of the loop reads its own null variable, so no original expression is kept; a
  single part is taken as the imaginary one.
\<close>

definition visitSgComplexVal :: "'s handler" where
  "visitSgComplexVal E \<sigma> A ks =
     (let v = fill [isSgValueExp, isSgValueExp] (nodes ks); real = slot 0 v; imag = slot 1 v
      in Inr (if real = None \<and> imag = None
              then built (SgExpr ComplexVal) [Some zero_val, Some zero_val] [None]
              else if imag = None then built (SgExpr ComplexVal) [None, real] [None]
              else built (SgExpr ComplexVal) [real, imag] [None]))"

definition attribSgStringVal :: "string \<Rightarrow> bool \<Rightarrow> bool \<Rightarrow> bool \<Rightarrow> bool \<Rightarrow> chunk list" where
  "attribSgStringVal s single wchar s16 s32 =
     [esc ''value'' s sp] @ only single [flag ''single'' True sp] @ only wchar [flag ''wchar'' True sp]
     @ only s16 [flag ''string16'' True sp] @ only s32 [flag ''string32'' True sp]"

definition visitSgStringVal :: "'s handler" where
  "visitSgStringVal E \<sigma> A ks =
     (if \<not> hasAttr A ''value'' then Inl (Fatal ''SgStringVal needs an attribute, value'')
      else bind_res (getFlag A ''single'' False) (\<lambda>a. bind_res (getFlag A ''wchar'' False) (\<lambda>b.
           bind_res (getFlag A ''string16'' False) (\<lambda>c. bind_res (getFlag A ''string32'' False) (\<lambda>d.
             Inr (built (SgExpr (StringVal (unentity (getStr A ''value'' [])) a b c d)) []
                   [first_of isSgExpression (nodes ks)]))))))"

text \<open>The internal node of every value expression but a complex one's parts: the original expression.\<close>

definition inodeSgValue :: "sgnode \<Rightarrow> sgnode list" where
  "inodeSgValue n = the_list [oexp n]"

subsection \<open>Reading back\<close>

text \<open>The text of a literal in the document.\<close>

definition literal :: "'s rose \<Rightarrow> valkind \<Rightarrow> int \<Rightarrow> string \<Rightarrow> string" where
  "literal E k v vs = (if vs \<noteq> [] \<and> vs \<noteq> tostring E k v then vs else tostring E k v)"

text \<open>The literals that come back as they were.\<close>

definition lit_ok :: "'s rose \<Rightarrow> valkind \<Rightarrow> int \<Rightarrow> string \<Rightarrow> bool" where
  "lit_ok E k v vs \<longleftrightarrow>
     (if k = BoolValExp then v \<in> {0, 1} \<and> vs = []
      else if k = CharVal then -128 \<le> v \<and> v < 128 \<and> vs = []
      else if k = UnsignedCharVal then 0 \<le> v \<and> v < 256 \<and> vs = []
      else scan_val E k (literal E k v vs) = Some v \<and> plain (literal E k v vs) \<and> vs \<noteq> tostring E k v
           \<and> (vs = [] \<longrightarrow> xml_refs (tostring E k v) = tostring E k v))"

lemma look_value: "look (attribSgVAL E k v vs) ''value'' =
    Some (if vs \<noteq> [] \<and> vs \<noteq> tostring E k v then vs else xml_refs (tostring E k v))"
  by (simp add: attribSgVAL_def Let_def)

lemma scan_bool_show [simp]: "scan_bool (show_bool b) = Some (of_bool b)"
  by (auto simp: scan_bool_def scan_int_def show_bool_def sign_of_def isspace_def is_digit_def
      digits_val_def digit_val_def)

lemma to_char_wrap:
  "-128 \<le> v \<Longrightarrow> v < 128 \<Longrightarrow> to_char CharVal (v mod 2 ^ 64) = v"
  "0 \<le> v \<Longrightarrow> v < 256 \<Longrightarrow> to_char UnsignedCharVal (v mod 2 ^ 64) = v"
proof -
  assume v: "-128 \<le> v" "v < 128"
  have "(v mod 18446744073709551616 + 128) mod 256 = (v + 128) mod 256"
    using mod_mod_cancel [of 256 18446744073709551616 v] by (simp add: mod_add_left_eq [of "v mod 18446744073709551616", symmetric] mod_add_left_eq)
  with v show "to_char CharVal (v mod 2 ^ 64) = v" by (simp add: to_char_def)
next
  assume "0 \<le> v" "v < 256"
  then show "to_char UnsignedCharVal (v mod 2 ^ 64) = v" by (simp add: to_char_def)
qed

lemma read_value:
  assumes "lit_ok E k v vs" and "nodes ks = map f (the_list [x])" and "keeps f"
    and "\<forall>y. x = Some y \<longrightarrow> isSgExpression y"
  shows "visitSgValue k E \<sigma> (decode_attrs (attribSgValue E k v vs @ cs)) ks =
    Inr (built (SgExpr (ValueExp k v vs)) [] [map_option f x])"
proof -
  have oexp: "first_of isSgExpression (nodes ks) = map_option f x"
    using assms(2-4) by (cases x) simp_all
  consider "k = BoolValExp" | "k = CharVal" | "k = UnsignedCharVal"
    | "k \<notin> {BoolValExp, CharVal, UnsignedCharVal}" by blast
  then show ?thesis
  proof cases
    case 1
    then show ?thesis
      using assms(1) oexp by (auto simp: visitSgValue_def attribSgValue_def lit_ok_def
          visitSgVAL_NO_STRING_def attribSgVAL_NO_STRING_def look_access)
  next
    case 2
    then show ?thesis
      using assms(1) oexp by (simp add: visitSgValue_def attribSgValue_def lit_ok_def Let_def
          visitSgVAL_CHAR_def attribSgVAL_CHAR_def look_access to_char_wrap [simplified])
  next
    case 3
    then show ?thesis
      using assms(1) oexp by (simp add: visitSgValue_def attribSgValue_def lit_ok_def Let_def
          visitSgVAL_CHAR_def attribSgVAL_CHAR_def look_access to_char_def)
  next
    case 4
    then show ?thesis
      using assms(1) oexp by (auto simp: visitSgValue_def attribSgValue_def lit_ok_def Let_def
          visitSgVAL_def look_access look_value literal_def)
  qed
qed

end
