(* ===== verification/Mangle.thy ===== *)
theory Mangle
  imports Codec
begin

text \<open>
  The value of the \<open>type\<close> attribute of an expression: \<open>getMangledTypes\<close> of \<open>src/expr.cpp\<close>. The
  lemmas say for which types the mangled name identifies the type.
\<close>

subsection \<open>The function\<close>

text \<open>The slots of a type node: the type it is built from, a function type's return type and list.\<close>

abbreviation base_type :: "sgnode \<Rightarrow> sgnode option" where
  "base_type t \<equiv> (case cls t of
     SgType TypeComplex \<Rightarrow> slot 1 (inner t)
   | SgType TypeImaginary \<Rightarrow> slot 1 (inner t)
   | _ \<Rightarrow> slot 0 (inner t))"

definition get_arguments :: "sgnode \<Rightarrow> sgnode list" where
  "get_arguments t = (case slot 1 (inner t) of None \<Rightarrow> [] | Some l \<Rightarrow> the_list (inner l))"

text \<open>The built-in types; \<open>None\<close> where the switch has no case.\<close>

fun mangle_simple :: "tykind \<Rightarrow> string option" where
  "mangle_simple TypeVoid = Some ''v''"
| "mangle_simple TypeWchar = Some ''w''"
| "mangle_simple TypeBool = Some ''b''"
| "mangle_simple TypeChar = Some ''c''"
| "mangle_simple TypeSignedChar = Some ''a''"
| "mangle_simple TypeUnsignedChar = Some ''h''"
| "mangle_simple TypeSignedShort = Some ''s''"
| "mangle_simple TypeShort = Some ''s''"
| "mangle_simple TypeUnsignedShort = Some ''t''"
| "mangle_simple TypeSignedInt = Some ''i''"
| "mangle_simple TypeUnsignedInt = Some ''j''"
| "mangle_simple TypeSignedLong = Some ''l''"
| "mangle_simple TypeLong = Some ''l''"
| "mangle_simple TypeUnsignedLong = Some ''m''"
| "mangle_simple TypeSignedLongLong = Some ''x''"
| "mangle_simple TypeLongLong = Some ''x''"
| "mangle_simple TypeUnsignedLongLong = Some ''y''"
| "mangle_simple TypeSigned128bitInteger = Some ''n''"
| "mangle_simple TypeUnsigned128bitInteger = Some ''o''"
| "mangle_simple TypeFloat = Some ''f''"
| "mangle_simple TypeDouble = Some ''d''"
| "mangle_simple TypeLongDouble = Some ''e''"
| "mangle_simple TypeCrayPointer = Some ''u11craypointer''"
| "mangle_simple TypeUnknown = None"

definition mangle_modifier :: "'s rose \<Rightarrow> bool list \<Rightarrow> int \<Rightarrow> string" where
  "mangle_modifier E v cv =
     (let m = [];
          m = (if cv = r_cv_const E then ''K'' @ m else m);
          m = (if cv = r_cv_volatile E then ''V'' @ m else m)
      in if r_restrict E v then ''r'' @ m else m)"

definition mangle_name :: "string \<Rightarrow> string" where
  "mangle_name s = show_nat (length s) @ s"

lemma size_get_arguments: "x \<in> set (get_arguments t) \<Longrightarrow> size x < size t"
  by (auto simp: get_arguments_def set_the_list split: option.splits)
    (metis less_trans size_inner slot_mem)

lemma size_base: "slot i (inner t) = Some x \<Longrightarrow> size x < size t"
  by (meson size_inner slot_mem)

definition unsupported :: "'a res" where
  "unsupported = Inl (Fatal ''unsupported type found'')"

definition null_type :: "'a res" where
  "null_type = Inl (Undef ''variantT of a null type'')"

function getMangledTypes :: "'s rose \<Rightarrow> sgnode \<Rightarrow> string res" where
  "getMangledTypes E typ =
     (let base = (\<lambda>pre. case base_type typ of
            None \<Rightarrow> null_type
          | Some b \<Rightarrow> bind_res (getMangledTypes E b) (\<lambda>m. Inr (pre @ m)))
      in case cls typ of
        SgType t \<Rightarrow> (case t of
          ModifierType v cv \<Rightarrow> base (mangle_modifier E v cv)
        | SimpleType k \<Rightarrow> (case mangle_simple k of None \<Rightarrow> unsupported | Some m \<Rightarrow> Inr m)
        | TypeInt \<Rightarrow> Inr ''i''
        | TypeEllipse \<Rightarrow> Inr ''z''
        | TypeDefault \<Rightarrow> Inr ''Da''
        | TypeString \<Rightarrow> Inr ''Ac''
        | TypeComplex \<Rightarrow> base ''C''
        | TypeImaginary \<Rightarrow> base ''G''
        | PointerType \<Rightarrow> base ''P''
        | ArrayType r \<Rightarrow> base ''A''
        | FunctionType \<Rightarrow> (case slot 0 (inner typ) of
            None \<Rightarrow> null_type
          | Some r \<Rightarrow> bind_res (getMangledTypes E r) (\<lambda>m.
                bind_res (mapR (getMangledTypes E) (get_arguments typ)) (\<lambda>ms.
                  Inr (''F'' @ m @ concat ms))))
        | ClassType nm ct un \<Rightarrow> Inr (mangle_name nm)
        | EnumType nm \<Rightarrow> Inr (mangle_name nm)
        | TypedefType nm \<Rightarrow> Inr (mangle_name nm)
        | TypeLabel nm \<Rightarrow> Inr (mangle_name nm)
        | TypeOfType \<Rightarrow> unsupported)
      | _ \<Rightarrow> unsupported)"
  by pat_completeness auto
termination
  by (relation "measure (\<lambda>(E, t). size t)")
    (auto dest: size_get_arguments size_base split: sgcls.splits typecls.splits)

declare getMangledTypes.simps [simp del]

end
