(* ===== verification/ExprCodec.thy ===== *)
theory ExprCodec
  imports ValueCodec Mangle
begin

text \<open>
  The expression classes of \<open>src/expr.cpp\<close>: what the writer prints as attributes and visits as
  internal nodes, and the element handlers of the reader. \<open>read_expr\<close> is the lemma of the theory:
  a handler given the attributes and the children that the writer emits builds the node again, when
  the node meets the condition \<open>expr_ok\<close> of its class.
\<close>

subsection \<open>Attributes of every expression\<close>

fun explicit_cast :: "sgcls \<Rightarrow> bool option" where
  "explicit_cast (SgExpr (AssignInitializer ex)) = Some ex"
| "explicit_cast c = None"

definition attribSgExpression :: "'s rose \<Rightarrow> sgnode \<Rightarrow> chunk list res" where
  "attribSgExpression E n =
     bind_res
       (case get_type E n of
          None \<Rightarrow> Inr []
        | Some t \<Rightarrow> if cls t = SgType TypeDefault then Inr []
                   else bind_res (getMangledTypes E t) (\<lambda>m. Inr [raw ''type'' m '''']))
       (\<lambda>ty. Inr (ty @ only (h_paren (hd_of n)) [flag ''paren'' True '''']
          @ opt (explicit_cast (cls n)) (\<lambda>ex. [flag ''cast'' ex ''''])))"

text \<open>\<open>EXPR_DEFAULT\<close>, \<open>INODE_EXPR_TYPE\<close>: the original expression, before it the type.\<close>

definition inode_expr_default :: "sgnode \<Rightarrow> sgnode list" where
  "inode_expr_default n = the_list [oexp n]"

definition inode_expr_type :: "'s rose \<Rightarrow> sgnode \<Rightarrow> sgnode list" where
  "inode_expr_type E n = the_list [get_type E n, oexp n]"

subsection \<open>Operators\<close>

text \<open>\<open>VISIT_BOP\<close>: the function returns before it gets to the original expression.\<close>

definition visitSgBOP :: "bop \<Rightarrow> 's handler" where
  "visitSgBOP op E \<sigma> A ks =
     (let v = fill [isSgExpression, isSgExpression, isSgExpression] (nodes ks);
          lhs = slot 0 v; rhs = slot 1 v
      in if lhs \<noteq> None \<and> rhs \<noteq> None then Inr (built (SgExpr (BinaryOp op)) [lhs, rhs] [None])
         else Inl (Fatal ''binary operator needs 2 child nodes of SgExpression''))"

definition inodeSgBOP :: "sgnode \<Rightarrow> sgnode list" where
  "inodeSgBOP n = the_list [oexp n]"

definition visitSgPointerAssignOp :: "'s handler" where
  "visitSgPointerAssignOp E \<sigma> A ks =
     (let v = fill [isSgExpression, isSgExpression] (nodes ks) in
      if slot 0 v = None \<or> slot 1 v = None
      then Inl (Fatal ''SgPointerAssignOp needs 2 child nodes of SgExpression'')
      else Inr (built (SgExpr (BinaryOp PointerAssignOp)) [slot 0 v, slot 1 v] [None]))"

text \<open>The scope stack around the operands of \<open>.\<close> and \<open>->\<close> is the reader's (\<open>after_child\<close>).\<close>

definition visitSgDotExp :: "'s handler" where
  "visitSgDotExp E \<sigma> A ks =
     (let v = fill [isSgExpression, isSgExpression] (nodes ks); lhs = slot 0 v; rhs = slot 1 v in
      if lhs = None \<or> rhs = None then Inl (Fatal ''SgDotExp needs 2 child nodes of SgExpression'')
      else Inr (built (SgExpr (BinaryOp DotExp)) [lhs, rhs] [None]))"

definition visitSgArrowExp :: "'s handler" where
  "visitSgArrowExp E \<sigma> A ks =
     (let v = fill [isSgExpression, isSgExpression] (nodes ks); lhs = slot 0 v; rhs = slot 1 v in
      if lhs = None \<or> rhs = None then Inl (Fatal ''SgArrowExp needs 2 child nodes of SgExpression'')
      else Inr (built (SgExpr (BinaryOp ArrowExp)) [lhs, rhs] [None]))"

definition visitSgBinaryOp :: "bop \<Rightarrow> 's handler" where
  "visitSgBinaryOp op = (case op of
      PointerAssignOp \<Rightarrow> visitSgPointerAssignOp
    | DotExp \<Rightarrow> visitSgDotExp
    | ArrowExp \<Rightarrow> visitSgArrowExp
    | _ \<Rightarrow> visitSgBOP op)"

text \<open>\<open>VISIT_UOP\<close> and \<open>VISIT_UOP_MODE\<close>.\<close>

definition has_mode :: "uop \<Rightarrow> bool" where
  "has_mode op \<longleftrightarrow> op \<in> {MinusMinusOp, MinusOp, PlusPlusOp}"

definition visitSgUOP :: "uop \<Rightarrow> 's handler" where
  "visitSgUOP op E \<sigma> A ks =
     need ''unary operator needs a child node of SgExpression'' (first_of isSgExpression (nodes ks))
       (\<lambda>exp. Inr (built (SgExpr (UnaryOp op 0)) [Some exp] [None]))"

definition visitSgUOP_MODE :: "uop \<Rightarrow> 's handler" where
  "visitSgUOP_MODE op E \<sigma> A ks =
     bind_res (getInt A ''mode'' 0) (\<lambda>imode.
       need ''SgUnaryOp needs a child node of SgExpression'' (first_of isSgExpression (nodes ks))
         (\<lambda>exp. let m = (if hasAttr A ''mode'' then (if imode \<noteq> 0 then 1 else 0) else 0)
                in Inr (built (SgExpr (UnaryOp op m)) [Some exp] [None])))"

definition attribSgUOP_MODE :: "int \<Rightarrow> chunk list" where
  "attribSgUOP_MODE mode = [num ''mode'' mode sp]"

definition visitSgUnaryOp :: "uop \<Rightarrow> 's handler" where
  "visitSgUnaryOp op = (if has_mode op then visitSgUOP_MODE op else visitSgUOP op)"

definition visitSgUserDefinedBinaryOp :: "'s handler" where
  "visitSgUserDefinedBinaryOp E \<sigma> A ks =
     (if \<not> hasAttr A ''name'' then Inl (Fatal ''SgUserDefinedBinaryOp needs an attribute, name'')
      else let name = getStr A ''name'' [] in
        if r_find_fun E \<sigma> name = None then Inl (Fatal ''function symbol not found'')
        else let v = fill [isSgExpression, isSgExpression] (nodes ks) in
          if slot 0 v = None \<or> slot 1 v = None
          then Inl (Fatal ''SgUserDefinedBinaryOp needs 2 child nodes of SgExpression'')
          else Inr (built (SgExpr (UserDefinedBinaryOp name)) [slot 0 v, slot 1 v] [None]))"

definition attribSgUserDefinedOp :: "string \<Rightarrow> chunk list" where
  "attribSgUserDefinedOp nm = [raw ''name'' nm sp]"

text \<open>The type of the operand is asked for while the operand is still null.\<close>

definition visitSgUserDefinedUnaryOp :: "'s handler" where
  "visitSgUserDefinedUnaryOp E \<sigma> A ks =
     (if \<not> hasAttr A ''name'' then Inl (Fatal ''SgUserDefinedUnaryOp needs an attribute, name'')
      else if r_find_fun E \<sigma> (getStr A ''name'' []) = None
        then Inl (Fatal ''function symbol not found'')
        else Inl (Undef ''get_type of a null expression''))"

subsection \<open>Initializers\<close>

definition attribSgAggregateInitializer :: "bool \<Rightarrow> chunk list" where
  "attribSgAggregateInitializer braces = only braces [flag ''need_brace'' True sp]"

definition inodeSgAggregateInitializer :: "'s rose \<Rightarrow> sgnode \<Rightarrow> sgnode list" where
  "inodeSgAggregateInitializer E n = the_list [oexp n, get_type E n]"

definition visitSgAggregateInitializer :: "'s handler" where
  "visitSgAggregateInitializer E \<sigma> A ks =
     need ''SgAggregateInitializer needs a child node of SgExprListExp''
       (first_of isSgExprListExp (nodes ks))
       (\<lambda>lst. let typ = (case first_of isSgType (nodes ks) of Some t \<Rightarrow> Some t | None \<Rightarrow> r_type E lst)
              in bind_res (getFlag A ''need_brace'' False) (\<lambda>brace.
                   Inr (built (SgExpr (AggregateInitializer brace)) [Some lst] [None, typ])))"

definition visitSgAssignInitializer :: "'s handler" where
  "visitSgAssignInitializer E \<sigma> A ks =
     need ''SgAssignInitializer needs a child node of SgExpression''
       (first_of isSgExpression (nodes ks))
       (\<lambda>exp. bind_res (getFlag A ''cast'' False) (\<lambda>expl.
          Inr (built (SgExpr (AssignInitializer expl)) [Some exp] [None])))"

definition attribSgConstructorInitializer :: "bool \<Rightarrow> bool \<Rightarrow> bool \<Rightarrow> bool \<Rightarrow> chunk list" where
  "attribSgConstructorInitializer name qual paren unknown =
     [flag ''name'' name sp, flag ''qual'' qual sp, flag ''paren_after_name'' paren sp,
      flag ''unknown'' unknown sp]"

text \<open>No element builds a member function declaration, so the first variable stays null.\<close>

definition visitSgConstructorInitializer :: "'s handler" where
  "visitSgConstructorInitializer E \<sigma> A ks =
     bind_res (getFlag A ''name'' False) (\<lambda>name. bind_res (getFlag A ''qual'' False) (\<lambda>qual.
     bind_res (getFlag A ''paren_after_name'' False) (\<lambda>paren.
     bind_res (getFlag A ''unknown'' False) (\<lambda>unkc.
       Inr (built (SgExpr (ConstructorInitializer name qual paren unkc))
             [first_of isSgExprListExp (nodes ks)] [None, first_of isSgType (nodes ks)])))))"

text \<open>The handler looks at the first designator, also when there is none.\<close>

definition visitSgDesignatedInitializer :: "'s handler" where
  "visitSgDesignatedInitializer E \<sigma> A ks =
     need ''SgDesignatedInitializer needs a child node of SgInitializer''
       (first_of isSgInitializer (nodes ks)) (\<lambda>ini.
     need ''SgDesignatedInitializer needs a child node of SgExprListExp''
       (first_of isSgExprListExp (nodes ks)) (\<lambda>lst.
       if succ lst = [] then Inl (Undef ''first element of an empty list'')
       else Inr (built (SgExpr DesignatedInitializer) [Some lst, Some ini] [None])))"

definition attribSgCompoundLiteralExp :: "string \<Rightarrow> chunk list" where
  "attribSgCompoundLiteralExp symbol = [raw ''symbol'' symbol sp]"

definition inodeSgCompoundLiteralExp :: "sgnode \<Rightarrow> sgnode list" where
  "inodeSgCompoundLiteralExp n = the_list [slot 1 (inner n)]"

definition visitSgCompoundLiteralExp :: "'s handler" where
  "visitSgCompoundLiteralExp E \<sigma> A ks =
     need ''SgCompoundLiteralExp needs a child node of SgAggregateInitializer''
       (first_of isSgAggregateInitializer (nodes ks))
       (\<lambda>ini. if \<not> hasAttr A ''symbol''
              then Inl (Fatal ''SgCompoundLiteralExp needs an attribute, symbol'')
              else Inr (built (SgExpr (CompoundLiteralExp (getStr A ''symbol'' []))) [] [None, Some ini]))"

subsection \<open>Expressions with operands\<close>

definition attribSgActualArgumentExpression :: "string \<Rightarrow> chunk list" where
  "attribSgActualArgumentExpression name = [raw ''name'' name sp]"

definition visitSgActualArgumentExpression :: "'s handler" where
  "visitSgActualArgumentExpression E \<sigma> A ks =
     (if \<not> hasAttr A ''name''
      then Inl (Fatal ''SgActualArgumentExpression needs an attribute, name'')
      else need ''SgActualArgumentExpression needs a child node of SgExpression''
        (first_of isSgExpression (nodes ks))
        (\<lambda>exp. Inr (built (SgExpr (ActualArgumentExpression (getStr A ''name'' []))) [Some exp] [None])))"

definition attribSgAsmOp :: "int \<Rightarrow> string \<Rightarrow> int \<Rightarrow> bool \<Rightarrow> string \<Rightarrow> bool \<Rightarrow> chunk list" where
  "attribSgAsmOp cons cstr mods record name output =
     only (cons \<noteq> 0) [num ''constraint'' cons []]
     @ only (cstr \<noteq> []) [esc ''constraint_string'' cstr []]
     @ only (mods \<noteq> 0) [num ''modifiers'' mods []]
     @ only (name \<noteq> []) [raw ''name'' name []]
     @ only record [flag ''record'' record []]
     @ only output [flag ''output'' output []]"

definition visitSgAsmOp :: "'s handler" where
  "visitSgAsmOp E \<sigma> A ks =
     bind_res (getInt A ''constraint'' 0) (\<lambda>cons. bind_res (getInt A ''modifiers'' 0) (\<lambda>mods.
     bind_res (getFlag A ''record'' False) (\<lambda>rec. bind_res (getFlag A ''output'' False) (\<lambda>out.
       Inr (built (SgExpr (AsmOp cons (unentity (getStr A ''constraint_string'' [])) mods rec
                             (getStr A ''name'' []) out))
             [first_of isSgExpression (nodes ks)] [None])))))"

text \<open>
  The operand is offered to the original expression in the same round in which it is found, so an
  implicit cast gets its own operand as the original expression.
\<close>

definition attribSgCastExp :: "hdr \<Rightarrow> int \<Rightarrow> chunk list" where
  "attribSgCastExp h ctype =
     [num ''ctype'' ctype sp]
     @ (case h_file h of None \<Rightarrow> [] | Some info \<Rightarrow> only (fi_compgen info) [flag ''implicit'' True sp])"

definition visitSgCastExp :: "'s handler" where
  "visitSgCastExp E \<sigma> A ks =
     bind_res (getInt A ''ctype'' 0) (\<lambda>cty. bind_res (getInt A ''implicit'' 0) (\<lambda>imp.
     need ''SgCastExp needs a child node of SgType'' (first_of isSgType (nodes ks)) (\<lambda>typ.
     need ''SgCastExp needs a child node of SgExpression'' (first_of isSgExpression (nodes ks)) (\<lambda>exp.
       let oexp = (if imp \<noteq> 0 then Some exp else None)
       in Inr (built (SgExpr (CastExp cty)) [Some exp] [oexp, Some typ])))))"

definition visitSgConditionalExp :: "'s handler" where
  "visitSgConditionalExp E \<sigma> A ks =
     (let v = fill [isSgExpression, isSgExpression, isSgExpression] (nodes ks) in
      need ''SgConditionalExp needs 3 child nodes of SgExpression'' (slot 2 v)
        (\<lambda>fstmt. Inr (built (SgExpr ConditionalExp) [slot 0 v, slot 1 v, Some fstmt] [None])))"

definition visitSgExprListExp :: "'s handler" where
  "visitSgExprListExp E \<sigma> A ks =
     Inr (built (SgExpr ExprListExp) (map Some (filter isSgExpression (nodes ks))) [None])"

definition visitSgFunctionCallExp :: "'s handler" where
  "visitSgFunctionCallExp E \<sigma> A ks =
     need ''SgFunctionCall needs a child node of SgExpression'' (first_of isSgExpression (nodes ks))
       (\<lambda>exp. need ''SgFunctionCall needs a child node of SgExprListExp''
          (first_of isSgExprListExp (nodes ks))
          (\<lambda>para. Inr (built (SgExpr FunctionCallExp) [Some exp, Some para] [None])))"

definition visitSgImpliedDo :: "'s handler" where
  "visitSgImpliedDo E \<sigma> A ks =
     (let v = fill [isSgExpression, isSgExpression, isSgExpression, isSgExprListExp] (nodes ks) in
      need ''SgImpliedDo needs 3 child nodes of SgExpression'' (slot 2 v) (\<lambda>inc.
      need ''SgImpliedDo needs a child node of SgExprListExpr'' (slot 3 v) (\<lambda>lst.
        Inr (built (SgExpr ImpliedDo) [slot 0 v, slot 1 v, Some inc, Some lst] [None]))))"

definition visitSgPointerDerefExp :: "'s handler" where
  "visitSgPointerDerefExp E \<sigma> A ks =
     need ''SgPointerDerefExp needs a child node of SgExpression'' (first_of isSgExpression (nodes ks))
       (\<lambda>exp. need ''SgPointerDerefExp needs a child node of SgType'' (first_of isSgType (nodes ks))
          (\<lambda>typ. Inr (built (SgExpr PointerDerefExp) [Some exp] [None, Some typ])))"

definition inodeSgSizeOfOp :: "sgnode \<Rightarrow> sgnode list" where
  "inodeSgSizeOfOp n = the_list [slot 1 (inner n)]"

definition visitSgSizeOfOp :: "'s handler" where
  "visitSgSizeOfOp E \<sigma> A ks =
     (let exp = first_of isSgExpression (nodes ks); typ = first_of isSgType (nodes ks) in
      if typ \<noteq> None then Inr (built (SgExpr SizeOfOp) [None] [None, typ])
      else if exp \<noteq> None then Inr (built (SgExpr SizeOfOp) [exp] [None, None])
      else Inl (Fatal ''SgSizeOfOp needs a child node of either SgType or SgExpression''))"

definition visitSgStatementExpression :: "'s handler" where
  "visitSgStatementExpression E \<sigma> A ks =
     need ''SgStatementExpression needs a child node of SgStatement''
       (first_of isSgStatement (nodes ks))
       (\<lambda>stmt. Inr (built (SgExpr StatementExpression) [Some stmt] [None]))"

definition visitSgSubscriptExpression :: "'s handler" where
  "visitSgSubscriptExpression E \<sigma> A ks =
     (let v = fill [isSgExpression, isSgExpression, isSgExpression] (nodes ks) in
      need ''SgSubscriptExpression needs 3 child nodes of SgExpression'' (slot 2 v)
        (\<lambda>str. Inr (built (SgExpr SubscriptExpression) [slot 0 v, slot 1 v, Some str] [None])))"

definition visitSgVarArgCopyOp :: "'s handler" where
  "visitSgVarArgCopyOp E \<sigma> A ks =
     (let v = fill [isSgExpression, isSgExpression] (nodes ks) in
      need ''SgVarArgCopyOp needs 2 child nodes of SgExpression'' (slot 1 v)
        (\<lambda>rhs. Inr (built (SgExpr VarArgCopyOp) [slot 0 v, Some rhs] [None])))"

definition visitSgVarArgEndOp :: "'s handler" where
  "visitSgVarArgEndOp E \<sigma> A ks =
     need ''SgVarArgEndOp needs a child node of SgExpression'' (first_of isSgExpression (nodes ks))
       (\<lambda>lhs. Inr (built (SgExpr VarArgEndOp) [Some lhs] [None]))"

definition inodeSgVarArgOp :: "sgnode \<Rightarrow> sgnode list" where
  "inodeSgVarArgOp n = the_list [slot 1 (inner n)]"

definition visitSgVarArgOp :: "'s handler" where
  "visitSgVarArgOp E \<sigma> A ks =
     need ''SgVarArgOp needs a child node of SgExpression'' (first_of isSgExpression (nodes ks))
       (\<lambda>lhs. need ''SgVarArgOp needs a child node of SgType'' (first_of isSgType (nodes ks))
          (\<lambda>typ. Inr (built (SgExpr VarArgOp) [Some lhs] [None, Some typ])))"

definition visitSgVarArgStartOp :: "'s handler" where
  "visitSgVarArgStartOp E \<sigma> A ks =
     (let v = fill [isSgExpression, isSgExpression] (nodes ks) in
      need ''SgVarArgStartOp needs 2 child nodes of SgExpression'' (slot 1 v)
        (\<lambda>rhs. Inr (built (SgExpr VarArgStartOp) [slot 0 v, Some rhs] [None])))"

subsection \<open>Leaves\<close>

definition visitSgAsteriskShapeExp :: "'s handler" where
  "visitSgAsteriskShapeExp E \<sigma> A ks = Inr (built (SgExpr AsteriskShapeExp) [] [None])"

definition visitSgColonShapeExp :: "'s handler" where
  "visitSgColonShapeExp E \<sigma> A ks = Inr (built (SgExpr ColonShapeExp) [] [None])"

definition visitSgNullExpression :: "'s handler" where
  "visitSgNullExpression E \<sigma> A ks = Inr (built (SgExpr NullExpression) [] [None])"

text \<open>
  The number of an alternate return is the position of its parameter among the parameters of label
  type; nothing is printed when it is not among them.
\<close>

fun alt_return_number :: "int \<Rightarrow> (bool \<times> bool) list \<Rightarrow> chunk list" where
  "alt_return_number counter [] = []"
| "alt_return_number counter ((is_label, is_ini) # args) =
     (if is_label
      then (if is_ini then [num ''nlabel'' (counter + 1) sp] else alt_return_number (counter + 1) args)
      else alt_return_number counter args)"

definition attribSgLabelRefExp ::
    "'s rose \<Rightarrow> int \<Rightarrow> int \<Rightarrow> (bool \<times> bool) list option \<Rightarrow> chunk list res" where
  "attribSgLabelRefExp E ltype value args =
     bind_res
       (if ltype \<noteq> r_alt_return E then Inr [num ''nlabel'' value sp]
        else case args of
            None \<Rightarrow> Inl (Fatal ''enclosing function definition not found'')
          | Some as \<Rightarrow> Inr (alt_return_number 0 as))
       (\<lambda>cs. Inr (num ''ltype'' ltype sp # cs))"

definition visitSgLabelRefExp :: "'s handler" where
  "visitSgLabelRefExp E \<sigma> A ks =
     bind_res (getInt A ''nlabel'' 0) (\<lambda>ino. bind_res (getInt A ''ltype'' 0) (\<lambda>type.
       Inr (built (SgExpr (LabelRefExp type ino None)) [] [None])))"

text \<open>
  A function that is not declared yet gets a symbol: in Fortran that of a procedure header of kind
  function, in C that of a non-defining declaration.
\<close>

definition function_symbol :: "'s rose \<Rightarrow> 's \<Rightarrow> string \<Rightarrow> int option" where
  "function_symbol E \<sigma> name = (case r_find_fun E \<sigma> name of
      Some decl \<Rightarrow> decl
    | None \<Rightarrow> if r_fortran E then Some (r_function_kind E) else None)"

definition attribSgFunctionRefExp :: "'s rose \<Rightarrow> string \<Rightarrow> int option \<Rightarrow> chunk list" where
  "attribSgFunctionRefExp E name header =
     [raw ''name'' name []]
     @ (case header of None \<Rightarrow> []
        | Some k \<Rightarrow> only (k \<noteq> r_function_kind E) [num ''kind'' k []])"

definition visitSgFunctionRefExp :: "'s handler" where
  "visitSgFunctionRefExp E \<sigma> A ks =
     (if \<not> hasAttr A ''name'' then Inl (Fatal ''SgFunctionRefExp needs an attribute, name'')
      else let name = getStr A ''name'' []; decl = function_symbol E \<sigma> name in
        bind_res (getInt A ''kind'' 0) (\<lambda>kind.
          let header = (if hasAttr A ''kind'' then map_option (\<lambda>_. kind) decl else decl)
          in Inr (built (SgExpr (FunctionRefExp name header)) []
                   [first_of isSgExpression (nodes ks)])))"

definition attribSgVarRefExp :: "string \<Rightarrow> chunk list" where
  "attribSgVarRefExp name = [raw ''name'' name []]"

text \<open>
  Every branch of the search ends with a reference to a symbol of the given name, a made-up one
  when none is found, except that an alias of something else than a variable stops the program.
\<close>

definition visitSgVarRefExp :: "'s handler" where
  "visitSgVarRefExp E \<sigma> A ks =
     (if \<not> hasAttr A ''name'' then Inl (Fatal ''SgVarRefExp needs an attribute, name'')
      else let name = getStr A ''name'' [] in
        if r_alias_clash E \<sigma> name then Inl (Fatal ''[ABORT]'')
        else Inr (built (SgExpr (VarRefExp name)) [] [first_of isSgExpression (nodes ks)]))"

subsection \<open>Dispatch on the class\<close>

fun has_expr_attribs :: "exprcls \<Rightarrow> bool" where
  "has_expr_attribs (ValueExp k v s) = False"
| "has_expr_attribs (EnumVal v m d) = False"
| "has_expr_attribs ComplexVal = False"
| "has_expr_attribs (StringVal s a b c d) = False"
| "has_expr_attribs e = True"

fun own_attribs :: "'s rose \<Rightarrow> hdr \<Rightarrow> exprcls \<Rightarrow> chunk list res" where
  "own_attribs E h (UserDefinedBinaryOp nm) = Inr (attribSgUserDefinedOp nm)"
| "own_attribs E h (UserDefinedUnaryOp nm) = Inr (attribSgUserDefinedOp nm)"
| "own_attribs E h (UnaryOp op m) = Inr (only (has_mode op) (attribSgUOP_MODE m))"
| "own_attribs E h (ValueExp k v s) = Inr (attribSgValue E k v s)"
| "own_attribs E h (EnumVal v m d) = attribSgEnumVal v m d"
| "own_attribs E h (StringVal s a b c d) = Inr (attribSgStringVal s a b c d)"
| "own_attribs E h (ActualArgumentExpression nm) = Inr (attribSgActualArgumentExpression nm)"
| "own_attribs E h (AggregateInitializer b) = Inr (attribSgAggregateInitializer b)"
| "own_attribs E h (AsmOp c s m r nm out) = Inr (attribSgAsmOp c s m r nm out)"
| "own_attribs E h (CastExp ct) = Inr (attribSgCastExp h ct)"
| "own_attribs E h (CompoundLiteralExp s) = Inr (attribSgCompoundLiteralExp s)"
| "own_attribs E h (ConstructorInitializer a b c d) = Inr (attribSgConstructorInitializer a b c d)"
| "own_attribs E h (FunctionRefExp nm k) = Inr (attribSgFunctionRefExp E nm k)"
| "own_attribs E h (LabelRefExp t i a) = attribSgLabelRefExp E t i a"
| "own_attribs E h (VarRefExp nm) = Inr (attribSgVarRefExp nm)"
| "own_attribs E h e = Inr []"

definition attribs_expr :: "'s rose \<Rightarrow> sgnode \<Rightarrow> exprcls \<Rightarrow> chunk list res" where
  "attribs_expr E n e =
     bind_res (own_attribs E (hd_of n) e) (\<lambda>cs.
     bind_res (if has_expr_attribs e then attribSgExpression E n else Inr []) (\<lambda>ds. Inr (cs @ ds)))"

fun inode_expr :: "'s rose \<Rightarrow> sgnode \<Rightarrow> exprcls \<Rightarrow> sgnode list" where
  "inode_expr E n (UnaryOp op m) = []"
| "inode_expr E n (UserDefinedBinaryOp nm) = []"
| "inode_expr E n (UserDefinedUnaryOp nm) = []"
| "inode_expr E n (ValueExp k v s) = inodeSgValue n"
| "inode_expr E n (EnumVal v m d) = inodeSgValue n"
| "inode_expr E n ComplexVal = inodeSgValue n"
| "inode_expr E n (StringVal s a b c d) = inodeSgValue n"
| "inode_expr E n (BinaryOp op) = inodeSgBOP n"
| "inode_expr E n (AggregateInitializer b) = inodeSgAggregateInitializer E n"
| "inode_expr E n (CastExp ct) = inode_expr_type E n"
| "inode_expr E n (CompoundLiteralExp s) = inodeSgCompoundLiteralExp n"
| "inode_expr E n (ConstructorInitializer a b c d) = inode_expr_type E n"
| "inode_expr E n PointerDerefExp = inode_expr_type E n"
| "inode_expr E n SizeOfOp = inodeSgSizeOfOp n"
| "inode_expr E n VarArgOp = inodeSgVarArgOp n"
| "inode_expr E n e = inode_expr_default n"

primrec expr_handler :: "exprcls \<Rightarrow> 's handler" where
  "expr_handler (BinaryOp op) = visitSgBinaryOp op"
| "expr_handler (UserDefinedBinaryOp nm) = visitSgUserDefinedBinaryOp"
| "expr_handler (UserDefinedUnaryOp nm) = visitSgUserDefinedUnaryOp"
| "expr_handler (UnaryOp op m) = visitSgUnaryOp op"
| "expr_handler (ValueExp k v s) = visitSgValue k"
| "expr_handler (EnumVal v m d) = visitSgEnumVal"
| "expr_handler ComplexVal = visitSgComplexVal"
| "expr_handler (StringVal s a b c d) = visitSgStringVal"
| "expr_handler (ActualArgumentExpression nm) = visitSgActualArgumentExpression"
| "expr_handler (AggregateInitializer b) = visitSgAggregateInitializer"
| "expr_handler (AsmOp c s m r nm out) = visitSgAsmOp"
| "expr_handler (AssignInitializer b) = visitSgAssignInitializer"
| "expr_handler AsteriskShapeExp = visitSgAsteriskShapeExp"
| "expr_handler (CastExp ct) = visitSgCastExp"
| "expr_handler ColonShapeExp = visitSgColonShapeExp"
| "expr_handler (CompoundLiteralExp s) = visitSgCompoundLiteralExp"
| "expr_handler ConditionalExp = visitSgConditionalExp"
| "expr_handler (ConstructorInitializer a b c d) = visitSgConstructorInitializer"
| "expr_handler DesignatedInitializer = visitSgDesignatedInitializer"
| "expr_handler ExprListExp = visitSgExprListExp"
| "expr_handler FunctionCallExp = visitSgFunctionCallExp"
| "expr_handler (FunctionRefExp nm k) = visitSgFunctionRefExp"
| "expr_handler ImpliedDo = visitSgImpliedDo"
| "expr_handler (LabelRefExp t i a) = visitSgLabelRefExp"
| "expr_handler NullExpression = visitSgNullExpression"
| "expr_handler PointerDerefExp = visitSgPointerDerefExp"
| "expr_handler SizeOfOp = visitSgSizeOfOp"
| "expr_handler StatementExpression = visitSgStatementExpression"
| "expr_handler SubscriptExpression = visitSgSubscriptExpression"
| "expr_handler VarArgCopyOp = visitSgVarArgCopyOp"
| "expr_handler VarArgEndOp = visitSgVarArgEndOp"
| "expr_handler VarArgOp = visitSgVarArgOp"
| "expr_handler VarArgStartOp = visitSgVarArgStartOp"
| "expr_handler (VarRefExp nm) = visitSgVarRefExp"

subsection \<open>Reading back\<close>

text \<open>
  The expressions that come back as they were, class by class: the operands are there and of their
  kind, numbers fit their type, names need no escape, and the node has no part that the reader
  drops (the original expression of most classes, the parenthesis flag of a value).
\<close>

definition known_fun :: "'s rose \<Rightarrow> string \<Rightarrow> bool" where
  "known_fun E nm \<longleftrightarrow> (\<forall>\<sigma>. r_find_fun E \<sigma> nm \<noteq> None)"

text \<open>The subprogram kind comes back: from the attribute, or from the symbol where none is printed.\<close>

definition kept_header :: "'s rose \<Rightarrow> string \<Rightarrow> int option \<Rightarrow> bool" where
  "kept_header E nm k \<longleftrightarrow> (\<forall>\<sigma>. case k of
      None \<Rightarrow> function_symbol E \<sigma> nm = None
    | Some i \<Rightarrow> int32 i \<and> function_symbol E \<sigma> nm \<noteq> None \<and>
        (i = r_function_kind E \<longrightarrow> function_symbol E \<sigma> nm = Some i))"

primrec expr_shape ::
    "'s rose \<Rightarrow> hdr \<Rightarrow> exprcls \<Rightarrow> sgnode option list \<Rightarrow> sgnode option list \<Rightarrow> bool" where
  "expr_shape E h (BinaryOp op) ss ns = (slots [reqE, reqE] ss \<and> slots [none] ns)"
| "expr_shape E h (UserDefinedBinaryOp nm) ss ns =
     (slots [reqE, reqE] ss \<and> slots [none] ns \<and> safe nm \<and> known_fun E nm)"
| "expr_shape E h (UserDefinedUnaryOp nm) ss ns = False"
| "expr_shape E h (UnaryOp op m) ss ns =
     (slots [reqE] ss \<and> slots [none] ns \<and> m \<in> (if has_mode op then {0, 1} else {0}))"
| "expr_shape E h (ValueExp k v s) ss ns =
     (slots [] ss \<and> slots [may isSgExpression] ns \<and> lit_ok E k v s \<and> \<not> h_paren h)"
| "expr_shape E h (EnumVal v m d) ss ns =
     (slots [] ss \<and> slots [may isSgExpression] ns \<and> int32 v \<and> safe m \<and> \<not> h_paren h \<and>
      (case d of None \<Rightarrow> False | Some e \<Rightarrow> safe e \<and> (\<forall>\<sigma>. r_find_enum E \<sigma> e)))"
| "expr_shape E h ComplexVal ss ns =
     (slots [may isSgValueExp, req isSgValueExp] ss \<and> slots [none] ns \<and> \<not> h_paren h)"
| "expr_shape E h (StringVal s a b c d) ss ns =
     (slots [] ss \<and> slots [may isSgExpression] ns \<and> plain s \<and> \<not> h_paren h)"
| "expr_shape E h (ActualArgumentExpression nm) ss ns = (slots [reqE] ss \<and> slots [none] ns \<and> safe nm)"
| "expr_shape E h (AggregateInitializer b) ss ns =
     (slots [req isSgExprListExp] ss \<and> slots [none, req isSgType] ns)"
| "expr_shape E h (AsmOp c s m r nm out) ss ns =
     (slots [may isSgExpression] ss \<and> slots [none] ns \<and> int32 c \<and> int32 m \<and> plain s \<and> safe nm)"
| "expr_shape E h (AssignInitializer b) ss ns = (slots [reqE] ss \<and> slots [none] ns)"
| "expr_shape E h AsteriskShapeExp ss ns = (slots [] ss \<and> slots [none] ns)"
| "expr_shape E h (CastExp ct) ss ns =
     (slots [reqE] ss \<and> slots [none, req isSgType] ns \<and> int32 ct \<and>
      (case h_file h of None \<Rightarrow> True | Some i \<Rightarrow> \<not> fi_compgen i))"
| "expr_shape E h ColonShapeExp ss ns = (slots [] ss \<and> slots [none] ns)"
| "expr_shape E h (CompoundLiteralExp s) ss ns =
     (slots [] ss \<and> slots [none, req isSgAggregateInitializer] ns \<and> safe s)"
| "expr_shape E h ConditionalExp ss ns = (slots [reqE, reqE, reqE] ss \<and> slots [none] ns)"
| "expr_shape E h (ConstructorInitializer a b c d) ss ns =
     (slots [may isSgExprListExp] ss \<and> slots [none, may isSgType] ns)"
| "expr_shape E h DesignatedInitializer ss ns =
     (slots [req (\<lambda>l. isSgExprListExp l \<and> succ l \<noteq> []), req isSgInitializer] ss \<and> slots [none] ns)"
| "expr_shape E h ExprListExp ss ns = (list_all reqE ss \<and> slots [none] ns)"
| "expr_shape E h FunctionCallExp ss ns =
     (slots [req (\<lambda>e. isSgExpression e \<and> \<not> isSgExprListExp e), req isSgExprListExp] ss \<and> slots [none] ns)"
| "expr_shape E h (FunctionRefExp nm k) ss ns =
     (slots [] ss \<and> slots [may isSgExpression] ns \<and> safe nm \<and>
      kept_header E nm k)"
| "expr_shape E h ImpliedDo ss ns =
     (slots [reqE, reqE, reqE, req isSgExprListExp] ss \<and> slots [none] ns)"
| "expr_shape E h (LabelRefExp t i a) ss ns =
     (slots [] ss \<and> slots [none] ns \<and> int32 t \<and> int32 i \<and> a = None)"
| "expr_shape E h NullExpression ss ns = (slots [] ss \<and> slots [none] ns)"
| "expr_shape E h PointerDerefExp ss ns = (slots [reqE] ss \<and> slots [none, req isSgType] ns)"
| "expr_shape E h SizeOfOp ss ns =
     ((slots [none] ss \<and> slots [none, req isSgType] ns) \<or> (slots [reqE] ss \<and> slots [none, none] ns))"
| "expr_shape E h StatementExpression ss ns = (slots [req isSgStatement] ss \<and> slots [none] ns)"
| "expr_shape E h SubscriptExpression ss ns = (slots [reqE, reqE, reqE] ss \<and> slots [none] ns)"
| "expr_shape E h VarArgCopyOp ss ns = (slots [reqE, reqE] ss \<and> slots [none] ns)"
| "expr_shape E h VarArgEndOp ss ns = (slots [reqE] ss \<and> slots [none] ns)"
| "expr_shape E h VarArgOp ss ns = (slots [reqE] ss \<and> slots [none, req isSgType] ns)"
| "expr_shape E h VarArgStartOp ss ns = (slots [reqE, reqE] ss \<and> slots [none] ns)"
| "expr_shape E h (VarRefExp nm) ss ns =
     (slots [] ss \<and> slots [may isSgExpression] ns \<and> safe nm \<and> (\<forall>\<sigma>. \<not> r_alias_clash E \<sigma> nm))"

text \<open>The attributes of every expression do not hide those of its class.\<close>

lemma look_attribSgExpression:
  assumes "attribSgExpression E n = Inr cs"
  shows "nm \<notin> {''type'', ''paren'', ''cast''} \<Longrightarrow> look cs nm = None"
    "look cs ''paren'' = (if h_paren (hd_of n) then Some (show_bool True) else None)"
    "look cs ''cast'' = map_option show_bool (explicit_cast (cls n))"
proof -
  obtain ty where ty: "ty = [] \<or> (\<exists>m. ty = [raw ''type'' m ''''])" and
    cs: "cs = ty @ only (h_paren (hd_of n)) [flag ''paren'' True '''']
      @ opt (explicit_cast (cls n)) (\<lambda>ex. [flag ''cast'' ex ''''])"
    using assms by (auto simp: attribSgExpression_def bind_res_eq_Inr split: option.splits if_splits)
  then show "nm \<notin> {''type'', ''paren'', ''cast''} \<Longrightarrow> look cs nm = None"
    "look cs ''paren'' = (if h_paren (hd_of n) then Some (show_bool True) else None)"
    "look cs ''cast'' = map_option show_bool (explicit_cast (cls n))"
    by (auto simp: safe_def split: option.splits)
qed

text \<open>What the writer visits below an expression: the operands, then the internal nodes.\<close>

definition emit_expr :: "'s rose \<Rightarrow> sgnode \<Rightarrow> exprcls \<Rightarrow> sgnode list" where
  "emit_expr E n e = the_list (succ n) @ inode_expr E n e"

lemmas expr_defs = visitSgUnaryOp_def visitSgUOP_def visitSgUOP_MODE_def
  visitSgUserDefinedBinaryOp_def
 visitSgEnumVal_def visitSgComplexVal_def visitSgStringVal_def
  visitSgActualArgumentExpression_def visitSgAggregateInitializer_def visitSgAsmOp_def visitSgAssignInitializer_def
  visitSgAsteriskShapeExp_def visitSgCastExp_def visitSgColonShapeExp_def visitSgCompoundLiteralExp_def
  visitSgConditionalExp_def visitSgConstructorInitializer_def visitSgDesignatedInitializer_def visitSgExprListExp_def
  visitSgFunctionCallExp_def visitSgFunctionRefExp_def visitSgImpliedDo_def visitSgLabelRefExp_def visitSgNullExpression_def
  visitSgPointerDerefExp_def visitSgSizeOfOp_def visitSgStatementExpression_def visitSgSubscriptExpression_def
  visitSgVarArgCopyOp_def visitSgVarArgEndOp_def visitSgVarArgOp_def visitSgVarArgStartOp_def visitSgVarRefExp_def

lemmas attrib_defs = attribSgUserDefinedOp_def attribSgUOP_MODE_def attribSgEnumVal_def attribSgStringVal_def
  attribSgActualArgumentExpression_def attribSgAggregateInitializer_def attribSgAsmOp_def attribSgCastExp_def
  attribSgCompoundLiteralExp_def attribSgConstructorInitializer_def attribSgFunctionRefExp_def
  attribSgLabelRefExp_def attribSgVarRefExp_def

lemmas inode_defs = inodeSgValue_def inodeSgBOP_def inodeSgAggregateInitializer_def inode_expr_type_def
  inodeSgCompoundLiteralExp_def inodeSgSizeOfOp_def inodeSgVarArgOp_def inode_expr_default_def

lemma attribs_expr_Inr:
  "attribs_expr E n e = Inr cs \<Longrightarrow>
    \<exists>own gen. own_attribs E (hd_of n) e = Inr own \<and> cs = own @ gen \<and>
      generic gen \<and>
      look gen ''paren'' = (if has_expr_attribs e \<and> h_paren (hd_of n) then Some (show_bool True) else None) \<and>
      look gen ''cast'' = (if has_expr_attribs e then map_option show_bool (explicit_cast (cls n)) else None)"
  by (auto simp: attribs_expr_def bind_res_eq_Inr generic_def look_attribSgExpression split: if_splits)

lemma read_binary:
  "nodes ks = [l, r] \<Longrightarrow> isSgExpression l \<Longrightarrow> isSgExpression r \<Longrightarrow>
    visitSgBinaryOp op E \<sigma> A ks = Inr (built (SgExpr (BinaryOp op)) [Some l, Some r] [None])"
  by (cases op) (simp_all add: visitSgBinaryOp_def visitSgBOP_def visitSgPointerAssignOp_def
      visitSgDotExp_def visitSgArrowExp_def fill_def Let_def)

text \<open>The classes whose attributes need a case distinction of their own.\<close>

lemma read_asm_op:
  assumes "attribSgAsmOp c s m r nm out = own"
    and "may isSgExpression y" "plain s" "safe nm" "int32 c" "int32 m" "generic gen" "keeps f"
    and "nodes ks = map f (the_list [y])"
  shows "visitSgAsmOp E \<sigma> (decode_attrs (own @ gen @ only u [flag ''unparse'' False sp])) ks =
    Inr (built (SgExpr (AsmOp c s m r nm out)) [map_option f y] [None])"
  using assms
  by (cases r; cases out; cases "c = 0"; cases "m = 0"; cases "s = []"; cases "nm = []")
    (auto simp: visitSgAsmOp_def attribSgAsmOp_def look_access)

lemma read_constructor_initializer:
  assumes "attribSgConstructorInitializer a b c d = own"
    and "may isSgExprListExp x" "may isSgType y" "generic gen" "keeps f"
    and "nodes ks = map f (the_list [x] @ the_list [y])"
  shows "visitSgConstructorInitializer E \<sigma>
      (decode_attrs (own @ gen @ only u [flag ''unparse'' False sp])) ks =
    Inr (built (SgExpr (ConstructorInitializer a b c d)) [map_option f x] [None, map_option f y])"
  using assms
  by (cases x; cases y) (auto simp: visitSgConstructorInitializer_def attribSgConstructorInitializer_def
      look_access elim!: test_elims)

lemma read_function_ref:
  assumes "attribSgFunctionRefExp E nm k = own"
    and "may isSgExpression y" "safe nm" "kept_header E nm k" "generic gen" "keeps f"
    and "nodes ks = map f (the_list [y])"
  shows "visitSgFunctionRefExp E \<sigma>
      (decode_attrs (own @ gen @ only u [flag ''unparse'' False sp])) ks =
    Inr (built (SgExpr (FunctionRefExp nm k)) [] [map_option f y])"
proof (cases k)
  case None
  then have "function_symbol E \<sigma> nm = None" using assms(4) by (simp add: kept_header_def)
  then show ?thesis using None assms
    by (auto simp: visitSgFunctionRefExp_def attribSgFunctionRefExp_def look_access)
next
  case (Some i)
  then obtain j where "int32 i" "function_symbol E \<sigma> nm = Some j" "i = r_function_kind E \<longrightarrow> j = i"
    using assms(4) by (fastforce simp: kept_header_def)
  then show ?thesis using Some assms
    by (cases "i = r_function_kind E")
      (auto simp: visitSgFunctionRefExp_def attribSgFunctionRefExp_def look_access)
qed

lemma read_expr:
  assumes shape: "expr_shape E h e ss ns"
    and attrs: "attribs_expr E (Node h (SgExpr e) ss ns) e = Inr cs"
    and kids: "nodes ks = map f (emit_expr E (Node h (SgExpr e) ss ns) e)" and f: "keeps f"
  shows "expr_handler e E \<sigma> (decode_attrs (cs @ only u [flag ''unparse'' False sp])) ks =
    Inr (built (SgExpr e) (map (map_option f) ss) (map (map_option f) ns))"
proof -
  obtain own gen where own: "own_attribs E h e = Inr own" and cs: "cs = own @ gen"
    and gen: "generic gen"
    and cast: "look gen ''cast'' = (if has_expr_attribs e then map_option show_bool (explicit_cast (SgExpr e)) else None)"
    using attribs_expr_Inr [OF attrs] by auto
  note k = kids [unfolded emit_expr_def inode_defs, simplified]
  show ?thesis
  proof (cases e)
    case (BinaryOp op)
    then show ?thesis using shape k f by (auto simp: read_binary inode_defs)
  next
    case (UserDefinedBinaryOp nm)
    then obtain l r where s: "ss = [Some l, Some r]" "ns = [None]" "isSgExpression l" "isSgExpression r"
      "safe nm" "known_fun E nm"
      using shape by auto
    then obtain y where "r_find_fun E \<sigma> nm = Some y" by (auto simp: known_fun_def)
    moreover have "own = [raw ''name'' nm sp]"
      using own UserDefinedBinaryOp by (simp add: attribSgUserDefinedOp_def)
    ultimately show ?thesis using UserDefinedBinaryOp k f s
      by (simp add: cs visitSgUserDefinedBinaryOp_def look_access fill_def)
  next
    case (UnaryOp op m)
    then show ?thesis using shape own k f gen
      by (auto simp: cs visitSgUnaryOp_def visitSgUOP_def visitSgUOP_MODE_def look_access int32_def attribSgUOP_MODE_def split: if_splits)
  next
    case (ValueExp k v s)
    then obtain y where y: "ss = []" "ns = [y]" "may isSgExpression y" "lit_ok E k v s"
      using shape by auto
    moreover have "\<forall>z. y = Some z \<longrightarrow> isSgExpression z" using y(3) by auto
    ultimately show ?thesis using ValueExp own k f
      by (auto simp: cs inode_defs intro!: read_value)
  next
    case ComplexVal
    then obtain y x where y: "ss = [y, Some x]" "ns = [None]" "may isSgValueExp y" "isSgValueExp x"
      using shape by auto
    then show ?thesis using ComplexVal k f
      by (cases y) (simp_all add: visitSgComplexVal_def inode_defs fill_def)
  next
    case (StringVal s a b c d)
    then obtain y where y: "ss = []" "ns = [y]" "may isSgExpression y" "plain s"
      using shape by auto
    moreover have "own = attribSgStringVal s a b c d" using own StringVal by simp
    ultimately show ?thesis using StringVal k f gen
      by (cases a; cases b; cases c; cases d)
        (simp_all add: cs visitSgStringVal_def attribSgStringVal_def inode_defs look_access)
  next
    case (AggregateInitializer b)
    then show ?thesis using shape own k f gen
      by (cases b) (auto simp: cs visitSgAggregateInitializer_def attribSgAggregateInitializer_def
          get_type_def inode_defs look_access elim!: test_elims)
  next
    case (AsmOp c s m r nm out)
    then obtain y where "ss = [y]" "ns = [None]" "may isSgExpression y" "plain s" "safe nm" "int32 c"
        "int32 m" using shape by auto
    then show ?thesis using AsmOp own k f gen
      by (auto simp: cs inode_defs intro!: read_asm_op)
  next
    case (ConstructorInitializer a b c d)
    then obtain x y where y: "ss = [x]" "ns = [None, y]" "may isSgExprListExp x" "may isSgType y"
      using shape by auto
    moreover have "nodes ks = map f (the_list [x] @ the_list [y])"
      using k ConstructorInitializer y by (cases y) (simp_all add: inode_defs get_type_def)
    moreover have "attribSgConstructorInitializer a b c d = own" using own ConstructorInitializer by simp
    ultimately show ?thesis using ConstructorInitializer f gen
      by (simp add: cs read_constructor_initializer)
  next
    case ExprListExp
    then show ?thesis using shape k f
      by (simp add: visitSgExprListExp_def inode_defs) (auto intro!: filter_req)
  next
    case (FunctionRefExp nm k)
    then obtain y where "ss = []" "ns = [y]" "may isSgExpression y" "safe nm" "kept_header E nm k"
      using shape by auto
    then show ?thesis using FunctionRefExp own kids [unfolded emit_expr_def] f gen
      by (auto simp: cs inode_defs intro!: read_function_ref)
  next
    case (LabelRefExp t i a)
    then have y: "ss = []" "ns = [None]" "int32 t" "int32 i" "a = None"
      using shape by auto
    then have "own = [num ''ltype'' t sp, num ''nlabel'' i sp]"
      using own LabelRefExp by (auto simp: attribSgLabelRefExp_def bind_res_eq_Inr split: if_splits)
    then show ?thesis using LabelRefExp y gen
      by (simp add: cs visitSgLabelRefExp_def look_access)
  next
    case SizeOfOp
    from SizeOfOp shape consider t where "ss = [None]" "ns = [None, Some t]" "isSgType t"
      | x where "ss = [Some x]" "ns = [None, None]" "isSgExpression x" by auto
    then show ?thesis using SizeOfOp k f
      by cases (auto simp: visitSgSizeOfOp_def inode_defs elim!: test_elims)
  qed (use shape own k f cast gen in
      \<open>auto simp: cs expr_defs attrib_defs inode_defs get_type_def look_access fill_def Let_def
         elim!: test_elims split: option.splits\<close>)
qed

end
