(* ===== verification/Samples.thy ===== *)
theory Samples
  imports SageTree
begin

text \<open>
  Two concrete environments on which properties are evaluated: \<open>rose_C\<close>, a C program with a builder
  that keeps no state, and \<open>rose_stack\<close>, whose builder keeps the scope stack as the list of the names
  of the open scopes.
\<close>

definition new_mods :: declmods where
  "new_mods = \<lparr>dm_vec = [True, False, False], dm_type = [True, False, False], dm_cv = 1, dm_align = - 1,
     dm_access = 1, dm_storage = 1, dm_tls = False, dm_visibility = 1, dm_bind = [], dm_link = [],
     dm_fun = [True, False, False], dm_end = False, dm_asm = [], dm_regparm = 0\<rparr>"

fun internal_types :: "typecls \<Rightarrow> bool" where
  "internal_types PointerType = True"
| "internal_types (ArrayType r) = True"
| "internal_types FunctionType = True"
| "internal_types (ModifierType v cv) = True"
| "internal_types t = False"

text \<open>An environment by what its builder does to the scopes.\<close>

abbreviation sample_rose ::
    "(string \<Rightarrow> (string \<times> string) list \<Rightarrow> 's \<Rightarrow> 's) \<Rightarrow> ('s \<Rightarrow> 's) \<Rightarrow> (sgnode \<Rightarrow> 's \<Rightarrow> 's option) \<Rightarrow> 's rose" where
  "sample_rose push pop scope \<equiv> \<lparr>r_fortran = False, r_skip = False, r_type = (\<lambda>n. None),
     r_internal = internal_types, r_removed = (\<lambda>f p. False), r_fmt = (\<lambda>k v. show_int v),
     r_scan = (\<lambda>k. scan_int (- (2 ^ 63)) (2 ^ 63 - 1)), r_function_kind = 1, r_alt_return = 3,
     r_cv_default = 1, r_cv_const = 2, r_cv_volatile = 3, r_restrict = (\<lambda>v. False),
     r_push = push, r_pop = pop, r_class_scope = scope, r_built = (\<lambda>n s. s),
     r_find_fun = (\<lambda>s nm. Some None), r_find_enum = (\<lambda>s nm. True), r_alias_clash = (\<lambda>s nm. False),
     r_find_class = (\<lambda>s nm. None), r_alt_params = (\<lambda>s. None), r_before = 2, r_after = 3,
     r_inside = 4, r_linemarker = 20, r_modifier_bits = 4, r_default_lang = 0, r_default_format = 0,
     r_version = ''1.0'', r_xml_format = ''1.0'', r_modifiers = (\<lambda>t. False), r_autonomous = (\<lambda>t. False),
     r_clang = True, r_mods = new_mods, r_type_default = [True, False, False], r_storage_default = 1,
     r_visibility = 1, r_gnu_visibility = 1, r_gnu_declaration = 1, r_in_module = (\<lambda>n. False),
     r_declare = (\<lambda>nm A ns s. s), r_defined_class = (\<lambda>s nm. None), r_struct = 1, r_enum_self = True,
     r_attr_kind = (\<lambda>k. AttrUnknown), r_dimension = (\<lambda>s n. None), r_find_var = (\<lambda>s nm. None),
     r_find_module = (\<lambda>s nm. None), r_name_align = - 1, r_name_attribs = [True, False]\<rparr>"

definition rose_C :: "unit rose" where
  "rose_C = sample_rose (\<lambda>nm A s. s) (\<lambda>s. s) (\<lambda>n s. None)"

lemma rose_C_simps [simp]:
  "r_fortran rose_C = False" "r_skip rose_C = False" "r_type rose_C n = None" "r_removed rose_C f p = False"
  "r_default_format rose_C = 0" "r_alias_clash rose_C \<sigma> nm = False" "r_before rose_C = 2" "r_after rose_C = 3"
  "r_clang rose_C = True" "r_mods rose_C = new_mods" "r_type_default rose_C = [True, False, False]"
  "r_storage_default rose_C = 1" "r_visibility rose_C = 1" "r_modifiers rose_C t = False"
  "r_name_attribs rose_C = [True, False]" "r_name_align rose_C = - 1" "r_defined_class rose_C \<sigma> nm = None"
  "r_autonomous rose_C t = False" "r_internal rose_C = internal_types" "r_cv_default rose_C = 1"
  by (simp_all add: rose_C_def)

definition rose_stack :: "string list rose" where
  "rose_stack = sample_rose (\<lambda>nm A s. nm # s) tl (\<lambda>n s. Some (''class'' # s))"

end
