(* ===== verification/CodecProperties.thy ===== *)
theory CodecProperties
  imports SuppCodec StmtCodec TypeCodec ExprCodec Samples
begin

text \<open>
  What the readers and writers of single classes promise, and where they fall short: what is written
  by \<open>attribSgX\<close> and \<open>inodeSgX\<close> against what \<open>visitSgX\<close> makes of it.
\<close>




text \<open>a number attribute is read back as the number it was printed from when that fits an \<open>int\<close>.\<close>
theorem number_roundtrip:
  "int32 v \<Longrightarrow> getInt (decode_attrs [num nm v t]) nm dflt = Inr v"
  by (simp add: getNum_look)

lemma number_roundtrip_witness: "getInt (decode_attrs [num ''rank'' (- 7) sp]) ''rank'' 0 = Inr (- 7)"
  by (rule number_roundtrip) (simp add: int32_def)



text \<open>an attribute that is there but blank leaves the stream nothing to extract: the variable is set
  from one that was never initialised.\<close>
theorem blank_number_undefined:
  "getInt [(nm, ''  '')] nm dflt = Inl (Undef ''uninitialised value read'')"
  by (simp add: getNum_def scan_int32_def scan_int_def isspace_def)



text \<open>a literal the stream cannot read as its number, such as \<open>0xff\<close>, keeps its text and loses its
  value: the stream stops at the \<open>x\<close>.\<close>
theorem hex_literal_value_lost:
  "visitSgVAL IntVal E \<sigma> (decode_attrs (attribSgVAL E IntVal 255 ''0xff'')) [] =
    Inr (built (SgExpr (ValueExp IntVal 0 ''0xff'')) [] [None])"
proof -
  have "show_int 255 = ''255''" "show_int 0 = ''0''"
    by (simp_all add: show_int_def show_nat.simps digit_def)
  then show ?thesis
    by (simp add: visitSgVAL_def attribSgVAL_def look_access tostring_def is_float_def scan_val_def int_range_def
        scan_int_def sign_of_def isspace_def is_digit_def digits_val_def digit_val_def no_amp_plain)
qed

text \<open>C36: every character value comes back from the number it is printed as, although a negative
  \<open>char\<close> is printed as an \<open>unsigned long\<close>.\<close>
theorem char_roundtrip:
  assumes "- 128 \<le> v" "v < 128"
  shows "visitSgVAL_CHAR CharVal E \<sigma> (decode_attrs (attribSgVAL_CHAR v)) [] =
    Inr (built (SgExpr (ValueExp CharVal v [])) [] [None])"
  using assms by (simp add: visitSgVAL_CHAR_def attribSgVAL_CHAR_def look_access to_char_wrap [simplified])

lemma char_roundtrip_witness: "visitSgVAL_CHAR CharVal rose_C () (decode_attrs (attribSgVAL_CHAR (- 1))) [] =
    Inr (built (SgExpr (ValueExp CharVal (- 1) [])) [] [None])"
  by (rule char_roundtrip) simp_all

text \<open>an array type whose dimensions are listed but that has no index expression loses them: the
  reader takes the list of dimensions for the index.\<close>
theorem array_dims_taken_for_index:
  assumes "isSgType t" "isSgExprListExp l"
  shows "visitSgArrayType E \<sigma> [(''rank'', ''1'')] [KNode t, KNode l] =
    Inr (built (SgType (ArrayType 1)) [] [Some t, None, Some l])"
proof -
  have "scan_int32 ''1'' = Some 1"
    by (simp add: scan_int32_def scan_int_def sign_of_def isspace_def is_digit_def digits_val_def digit_val_def)
  moreover have "isSgExpression l" using assms(2) by (auto elim!: test_elims)
  ultimately show ?thesis using assms
    by (simp add: visitSgArrayType_def getNum_def array_round_def Let_def)
qed

lemma array_dims_taken_for_index_witness:
  "visitSgArrayType rose_C () [(''rank'', ''1'')]
     [KNode (built (SgType TypeInt) [] [None]), KNode (built (SgExpr ExprListExp) [] [None])] =
   Inr (built (SgType (ArrayType 1)) []
     [Some (built (SgType TypeInt) [] [None]), None, Some (built (SgExpr ExprListExp) [] [None])])"
  by (rule array_dims_taken_for_index) simp_all

text \<open>the kind of a built-in type is the last child that the reader sees, so a kind followed by a
  child that is no expression is lost.\<close>
theorem kind_is_last_child:
  "visitSgVISIT_TYPE k E \<sigma> A (ks @ [KNode n]) =
    Inr (built (SgType (SimpleType k)) [] [if isSgExpression n then Some n else None])"
proof -
  have "last_kind e (ks @ [KNode n]) = (if isSgExpression n then Some n else None)" for e
    by (induction e ks rule: last_kind.induct) simp_all
  then show ?thesis by (simp add: visitSgVISIT_TYPE_def)
qed

text \<open>names of a group come back in order when none is empty and none has a comma.\<close>
theorem name_group_roundtrip:
  assumes "nl \<noteq> []" "list_all name_ok nl" "safe g" "safe (join_names nl)"
  shows "visitSgNameGroup E \<sigma> (decode_attrs (attribSgNameGroup g nl)) ks =
    Inr (built (SgSupp (NameGroup g nl)) [] [])"
  using assms by (simp add: visitSgNameGroup_def attribSgNameGroup_def look_access strtok_join)

lemma name_group_roundtrip_witness:
  "visitSgNameGroup rose_C () (decode_attrs (attribSgNameGroup ''grp'' [''a'', ''bc''])) [] =
    Inr (built (SgSupp (NameGroup ''grp'' [''a'', ''bc''])) [] [])"
  by (rule name_group_roundtrip) (simp_all add: name_ok_def safe_def)

text \<open>a data value whose initializer list is missing loses its repeat and constant expressions,
  which the writer does print: the reader's chain of variables waits for the list.\<close>
theorem data_value_lost_without_list:
  assumes "isSgExpression r" "\<not> isSgExprListExp r" "isSgExpression c" "\<not> isSgExprListExp c" "int32 fmt"
  shows "visitSgDataStatementValue E \<sigma> (decode_attrs (attribSgDataStatementValue fmt))
      (map KNode (inodeSgDataStatementValue (built (SgSupp (DataStatementValue fmt)) [] [None, Some r, Some c]))) =
    Inr (built (SgSupp (DataStatementValue fmt)) [] [None, None, None])"
  using assms by (simp add: visitSgDataStatementValue_def attribSgDataStatementValue_def
      inodeSgDataStatementValue_def look_access fill_def)

lemma data_value_lost_without_list_witness:
  "visitSgDataStatementValue rose_C () (decode_attrs (attribSgDataStatementValue 2))
      (map KNode (inodeSgDataStatementValue (built (SgSupp (DataStatementValue 2)) []
        [None, Some (built (SgExpr (VarRefExp ''n'')) [] [None]), Some (built (SgExpr (VarRefExp ''x'')) [] [None])]))) =
    Inr (built (SgSupp (DataStatementValue 2)) [] [None, None, None])"
  by (rule data_value_lost_without_list) (simp_all add: int32_def)

text \<open>a document without the language of the source file makes the reader branch on a variable that
  has no value.\<close>
theorem source_file_language_uninitialised:
  assumes "hasAttr A ''file''" "hasAttr A ''version''" "hasAttr A ''format''" "\<not> hasAttr A ''lang''"
    "getInt A ''ofmt'' 0 = Inr fmt"
  shows "visitSgSourceFile E \<sigma> A ks = Inl (Undef ''uninitialised variable read'')"
  using assms by (simp add: visitSgSourceFile_def uninitialised_def getNum_def hasAttr_def)

lemma source_file_language_uninitialised_witness:
  "visitSgSourceFile rose_C () [(''file'', ''a.c''), (''version'', ''1''), (''format'', ''1'')] [] =
    Inl (Undef ''uninitialised variable read'')"
  by (rule source_file_language_uninitialised) (simp_all add: hasAttr_def getNum_def)

text \<open>between the statements of a block, white space leaves no trace: the block has exactly the
  statements among its children, in order.\<close>
theorem blank_text_no_trace:
  "(\<forall>s. KText s \<in> set ks \<longrightarrow> blank s) \<Longrightarrow>
     traverseStatementsAndTexts E c ks = built (SgStmt c) (map Some (filter isSgStatement (nodes ks))) []"
  by (rule traverse_blank) (simp add: blank_kids_def)

lemma blank_text_no_trace_witness:
  "traverseStatementsAndTexts rose_C BasicBlock
     [KText [CHR 0x0A], KNode (built (SgStmt NullStatement) [] []), KText '' ''] =
   built (SgStmt BasicBlock) [Some (built (SgStmt NullStatement) [] [])] []"
  using blank_text_no_trace [of "[KText [CHR 0x0A], KNode (built (SgStmt NullStatement) [] []), KText '' '']"
      rose_C BasicBlock]
  by (simp add: blank_def isspace_def)

text \<open>The visible lines of a run of text nodes; what is attached around a statement.\<close>

definition visible_texts :: "string list \<Rightarrow> string list" where
  "visible_texts ts = filter (\<lambda>t. t \<noteq> []) (map (visible_lines [] False) ts)"

definition attach_after :: "'s rose \<Rightarrow> string list \<Rightarrow> sgnode \<Rightarrow> sgnode" where
  "attach_after E ts n = foldl (\<lambda>m t. attachRawText E (r_after E) t m) n (visible_texts ts)"

definition attach_before :: "'s rose \<Rightarrow> string list \<Rightarrow> sgnode \<Rightarrow> sgnode" where
  "attach_before E ts n =
     (if visible_texts ts = [] then n else attachRawText E (r_before E) (last (visible_texts ts)) n)"

lemma texts_after_statement:
  "done \<noteq> [] \<Longrightarrow> statements_and_texts E (map KText ts @ ks) done remain =
     statements_and_texts E ks (butlast done @ [attach_after E ts (last done)]) remain"
proof (induction ts arbitrary: "done")
  case Nil
  then show ?case by (simp add: attach_after_def visible_texts_def)
next
  case (Cons t ts)
  then show ?case
    by (cases "visible_lines [] False t = []") (simp_all add: attach_after_def visible_texts_def Let_def)
qed

lemma texts_before_statements:
  "statements_and_texts E (map KText ts @ ks) [] remain =
     statements_and_texts E ks [] (if visible_texts ts = [] then remain else last (visible_texts ts))"
proof (induction ts arbitrary: remain)
  case (Cons t ts)
  then show ?case by (cases "visible_lines [] False t = []") (simp_all add: visible_texts_def Let_def)
qed (simp add: visible_texts_def)

lemma statements_with_texts:
  "done \<noteq> [] \<Longrightarrow> \<forall>(n, ts) \<in> set xs. isSgStatement n \<Longrightarrow>
     statements_and_texts E (concat (map (\<lambda>(n, ts). KNode n # map KText ts) xs)) done [] =
     (done @ map (\<lambda>(n, ts). attach_after E ts n) xs, [])"
proof (induction xs arbitrary: "done")
  case (Cons x xs)
  then show ?case by (cases x) (simp add: texts_after_statement)
qed simp

text \<open>C13: text between the statements of a block: every text node with a visible line is attached behind
  the statement it follows; of the text nodes before the first statement only the last with a visible line
  is attached, in front of it, and the others are lost.\<close>
theorem block_text_attached:
  assumes "isSgStatement n0" "\<forall>(n, ts) \<in> set xs. isSgStatement n"
  shows "traverseStatementsAndTexts E c
      (map KText before @ concat (map (\<lambda>(n, ts). KNode n # map KText ts) ((n0, ts0) # xs))) =
    built (SgStmt c)
      (map Some (attach_after E ts0 (attach_before E before n0) # map (\<lambda>(n, ts). attach_after E ts n) xs)) []"
proof -
  have "last ts \<noteq> []" if "ts = visible_texts before" "ts \<noteq> []" for ts
    using that last_in_set [of ts] by (auto simp: visible_texts_def)
  then have "statements_and_texts E (map KText before @ concat (map (\<lambda>(n, ts). KNode n # map KText ts) ((n0, ts0) # xs))) [] [] =
      statements_and_texts E (concat (map (\<lambda>(n, ts). KNode n # map KText ts) xs))
        [attach_after E ts0 (attach_before E before n0)] []"
    using assms(1) by (simp add: texts_before_statements texts_after_statement attach_before_def)
  then show ?thesis
    using statements_with_texts [OF _ assms(2), of "[attach_after E ts0 (attach_before E before n0)]" E]
    by (simp add: traverseStatementsAndTexts_def comp_def)
qed

lemma block_text_attached_witness:
  "traverseStatementsAndTexts rose_C BasicBlock
      [KText ''a'', KText ''b'', KNode (built (SgStmt NullStatement) [] []), KText ''c''] =
    built (SgStmt BasicBlock)
      [Some (attachRawText rose_C 3 ''c'' (attachRawText rose_C 2 ''b'' (built (SgStmt NullStatement) [] [])))] []"
  using block_text_attached [of "built (SgStmt NullStatement) [] []" "[]" rose_C BasicBlock "[''a'', ''b'']" "[''c'']"]
  by (simp add: attach_after_def attach_before_def visible_texts_def isspace_def rose_C_def)

text \<open>C15: every control expression of an input/output statement comes back to the field it was written
  from, when no field is set whose name the two sides disagree on.\<close>
theorem io_statement_roundtrip:
  assumes "io_shape k ss"
  shows "io_handler k E \<sigma> A (map KNode (inode_io k (Node h c ss ns))) =
    Inr (built (SgStmt (IOStatement k)) ss [])"
proof -
  have n: "nodes (map KNode xs) = xs" for xs by (induction xs) simp_all
  have "keeps_args id" by (simp add: keeps_args_def keeps_def io_arg_def)
  from read_io [OF assms this, of "map KNode (inode_io k (Node h c ss ns))" h c ns E \<sigma> A]
  show ?thesis by (simp add: n option.map_id0)
qed

lemma io_statement_roundtrip_witness:
  "io_handler Print rose_C () [] (map KNode (inode_io Print (Node hdr0 (SgStmt (IOStatement Print))
      [Some (built (SgExpr ExprListExp) [] [None]), Some (built (SgExpr AsteriskShapeExp) [] [None])] []))) =
    Inr (built (SgStmt (IOStatement Print))
      [Some (built (SgExpr ExprListExp) [] [None]), Some (built (SgExpr AsteriskShapeExp) [] [None])] [])"
  by (rule io_statement_roundtrip) (simp add: io_shape_def has_list_def io_get_def io_pos_def
      sound_writes_def writes_Print_def g_iostmtAttrib_def slot_def)

text \<open>the message variable of a close statement is written under the name of the error label, so
  it is read back as the error label.\<close>
theorem close_iomsg_becomes_err:
  "io_handler Close E \<sigma> A (map KNode (inode_io Close (Node h c
      (store Close None ((\<lambda>fd. None)(IOSTMT_IOMSG := Some m))) []))) =
    Inr (built (SgStmt (IOStatement Close)) (store Close None ((\<lambda>fd. None)(IOSTMT_ERR := Some m))) [])"
  by (simp add: visitSgCloseStatement_def io_statement_def inodeSgCloseStatement_def traverse_if_exists_def
      io_get_def io_pos_def store_def io_common_def writes_Close_def io_arg_def io_round_def io_argument_def
      io_name_def g_iostmtAttrib_def cases_Close_def io_set_def has_list_def slot_def)

text \<open>an inquire statement with a \<open>pending\<close> variable is written under a name that the reader does
  not know: the process ends.\<close>
theorem inquire_pending_fatal:
  "io_handler Inquire E \<sigma> A (map KNode (inode_io Inquire (Node h c
      (store Inquire None ((\<lambda>fd. None)(IOSTMT_PENDING := Some m))) []))) =
    Inl (Fatal ''Unknown attribute'')"
  by (simp add: visitSgInquireStatement_def io_statement_def inodeSgInquireStatement_def traverse_if_exists_def
      io_get_def io_pos_def store_def io_common_def writes_Inquire_def io_arg_def io_round_def io_argument_def
      io_name_def g_iostmtAttrib_def cases_Inquire_def io_set_def has_list_def slot_def)

text \<open>the end label of a where statement is written and never read.\<close>
theorem where_end_label_lost:
  assumes "safe s" "isSgExpression x" "isSgBasicBlock b"
  shows "visitSgWhereStatement E \<sigma> (decode_attrs (attribSgWhereStatement h e s l)) [KNode x, KNode b] =
    Inr (built (SgStmt (WhereStatement e s None)) [Some x, Some b, None] [])"
  using assms by (cases e) (simp_all add: visitSgWhereStatement_def attribSgWhereStatement_def look_access fill_def)

lemma where_end_label_lost_witness:
  "visitSgWhereStatement rose_C () (decode_attrs (attribSgWhereStatement hdr0 True [] (Some 10)))
      [KNode (built (SgExpr NullExpression) [] [None]), KNode (built (SgStmt BasicBlock) [] [])] =
    Inr (built (SgStmt (WhereStatement True [] None))
      [Some (built (SgExpr NullExpression) [] [None]), Some (built (SgStmt BasicBlock) [] []), None] [])"
  by (rule where_end_label_lost) simp_all

text \<open>a complex literal with only a real part is read back with that part as its imaginary one.\<close>
theorem complex_real_becomes_imaginary:
  assumes "isSgValueExp r"
  shows "visitSgComplexVal E \<sigma> A (map KNode (the_list [Some r, None])) =
    Inr (built (SgExpr ComplexVal) [None, Some r] [None])"
  using assms by (simp add: visitSgComplexVal_def fill_def)

lemma complex_real_becomes_imaginary_witness:
  "visitSgComplexVal rose_C () [] (map KNode (the_list [Some zero_val, None])) =
    Inr (built (SgExpr ComplexVal) [None, Some zero_val] [None])"
  by (rule complex_real_becomes_imaginary) (simp add: zero_val_def)

text \<open>the mangled name tells the built-in types apart up to the sign that C leaves out: two with the
  same name are the same or a type and its \<open>signed\<close> variant.\<close>
theorem mangled_names_distinct:
  assumes "mangle_simple k = Some m" "mangle_simple k' = Some m"
  shows "k = k' \<or> {k, k'} \<in> {{TypeShort, TypeSignedShort}, {TypeLong, TypeSignedLong},
      {TypeLongLong, TypeSignedLongLong}}"
proof -
  have "mangle_simple k \<noteq> None" "mangle_simple k = mangle_simple k'" using assms by simp_all
  then show ?thesis by (cases k; cases k'; auto)
qed

lemma mangled_names_distinct_witness: "TypeVoid = TypeVoid \<or> {TypeVoid, TypeVoid} \<in>
    {{TypeShort, TypeSignedShort}, {TypeLong, TypeSignedLong}, {TypeLongLong, TypeSignedLongLong}}"
  by (rule mangled_names_distinct [of _ "''v''"]) simp_all

end
