(* ===== verification/SageWriter.thy ===== *)
theory SageWriter
  imports ExprCodec StmtCodec TypeCodec SuppCodec ClassNames
begin

text \<open>
  The writer, \<open>XevSageVisitor\<close> of \<open>src/rose2xml.cpp\<close>: which nodes belong to the file, which have a
  body, the order in which successors and internal nodes are visited, and the preprocessing
  information of \<open>src/preproc.cpp\<close>. The Fortran pragma option is off.
\<close>

subsection \<open>Dispatch on the class\<close>

text \<open>The two switches over \<open>include/sgnode.hpp\<close>: \<open>attribSgX\<close> and \<open>inodeSgX\<close>.\<close>

definition attribs :: "'s rose \<Rightarrow> sgnode \<Rightarrow> chunk list res" where
  "attribs E n =
     (if \<not> listed (cls n) then Inl (Fatal ''unknown Sage AST node found'')
      else case cls n of
        SgExpr e \<Rightarrow> attribs_expr E n e
      | SgStmt s \<Rightarrow> Inr (attribs_stmt E n s)
      | SgType t \<Rightarrow> Inr (attribs_type E n t)
      | SgSupp s \<Rightarrow> Inr (attribs_supp E n s)
      | SgLSup s \<Rightarrow> Inr (attribs_lsupp E n s))"

definition inodes :: "'s rose \<Rightarrow> sgnode \<Rightarrow> sgnode list" where
  "inodes E n = (case cls n of
     SgExpr e \<Rightarrow> inode_expr E n e
   | SgStmt s \<Rightarrow> inode_stmt E n s
   | SgType t \<Rightarrow> inode_type n t
   | SgSupp s \<Rightarrow> inode_supp n s
   | SgLSup s \<Rightarrow> inode_lsupp n s)"

subsection \<open>Which nodes are written\<close>

text \<open>
  \<open>par\<close> is the class of the parent node. A node without a file position is a type or a support
  node; a frontend-specific node counts only by its file or, in C, as part of other code.
\<close>

definition isInCppFile :: "'s rose \<Rightarrow> finfo \<Rightarrow> bool" where
  "isInCppFile E info \<longleftrightarrow> r_fortran E \<and> fi_cpp info"

definition isInSameFile :: "'s rose \<Rightarrow> sgcls option \<Rightarrow> sgnode \<Rightarrow> bool res" where
  "isInSameFile E par n = (case h_file (hd_of n) of
     None \<Rightarrow> if isSgType n \<or> isSgSupport n then Inr True
             else Inl (Fatal ''unexpected kind of SgNode found'')
   | Some info \<Rightarrow>
       let isCompilerGenerated = (\<not> fi_frontend info \<and>
             (fi_compgen info \<or> fi_transf info \<or> fi_output info));
           isCode = (\<not> r_fortran E \<and> par \<noteq> None \<and> par \<noteq> Some (SgStmt Global));
           isRightFile = (fi_same info \<or> isInCppFile E info)
       in Inr (isCompilerGenerated \<or> isRightFile \<or> isCode))"

definition compgen :: "sgnode \<Rightarrow> bool" where
  "compgen n = (case h_file (hd_of n) of None \<Rightarrow> False | Some info \<Rightarrow> fi_compgen info)"

definition get_type_kind :: "sgnode \<Rightarrow> sgnode option" where
  "get_type_kind n = (case cls n of
     SgType t \<Rightarrow> (case t of
        SimpleType k \<Rightarrow> slot 0 (inner n)
      | TypeInt \<Rightarrow> slot 0 (inner n)
      | TypeLabel nm \<Rightarrow> slot 0 (inner n)
      | TypeComplex \<Rightarrow> slot 0 (inner n)
      | TypeImaginary \<Rightarrow> slot 0 (inner n)
      | TypeString \<Rightarrow> slot 1 (inner n)
      | _ \<Rightarrow> None)
   | _ \<Rightarrow> None)"

text \<open>The classes that always have a body, by the switch of \<open>hasInode\<close>.\<close>

fun always_inode :: "sgcls \<Rightarrow> bool" where
  "always_inode (SgExpr (AggregateInitializer b)) = True"
| "always_inode (SgExpr (CompoundLiteralExp s)) = True"
| "always_inode (SgExpr PointerDerefExp) = True"
| "always_inode (SgExpr SizeOfOp) = True"
| "always_inode (SgExpr VarArgOp) = True"
| "always_inode (SgStmt ArithmeticIfStatement) = True"
| "always_inode (SgStmt (Declaration (AttributeSpecificationStatement k i p b nms))) = True"
| "always_inode (SgStmt (Declaration EquivalenceStatement)) = True"
| "always_inode (SgStmt (Declaration FormatStatement)) = True"
| "always_inode (SgStmt (Declaration NamelistStatement)) = True"
| "always_inode (SgStmt (Declaration (TypedefDeclaration nm l))) = True"
| "always_inode (SgStmt (IOStatement Inquire)) = True"
| "always_inode (SgStmt (StopOrPauseStatement t)) = True"
| "always_inode (SgSupp (DataStatementGroup k)) = True"
| "always_inode (SgSupp DataStatementObject) = True"
| "always_inode (SgSupp (DataStatementValue f)) = True"
| "always_inode (SgSupp (FormatItem d r)) = True"
| "always_inode (SgSupp FunctionParameterTypeList) = True"
| "always_inode (SgSupp (Pragma p)) = True"
| "always_inode (SgType TypeComplex) = True"
| "always_inode (SgType TypeImaginary) = True"
| "always_inode (SgType TypeString) = True"
| "always_inode (SgLSup (InterfaceBody nm)) = (nm = None)"
| "always_inode c = False"

text \<open>
  A type with modifiers has a body; \<open>inodeSgType\<close> visits their node, of a class that is not listed.
\<close>

fun writes_modifiers :: "typecls \<Rightarrow> bool" where
  "writes_modifiers (SimpleType k) = True"
| "writes_modifiers TypeComplex = True"
| "writes_modifiers TypeImaginary = True"
| "writes_modifiers TypeInt = True"
| "writes_modifiers (TypeLabel nm) = True"
| "writes_modifiers TypeString = True"
| "writes_modifiers t = False"

definition modifiers_visited :: "'s rose \<Rightarrow> sgnode \<Rightarrow> bool" where
  "modifiers_visited E n = (case cls n of SgType t \<Rightarrow> r_modifiers E t \<and> writes_modifiers t | _ \<Rightarrow> False)"

fun is_class_type :: "typecls \<Rightarrow> bool" where
  "is_class_type (ClassType nm ct un) = True"
| "is_class_type t = False"

definition hasPreprocessingInfo :: "sgnode \<Rightarrow> bool" where
  "hasPreprocessingInfo n \<longleftrightarrow> isSgLocatedNode n \<and> h_ppi (hd_of n) \<noteq> []"

definition hasInode :: "'s rose \<Rightarrow> sgnode \<Rightarrow> bool" where
  "hasInode E n \<longleftrightarrow>
     (case cls n of SgType t \<Rightarrow> r_internal E t \<or> get_type_kind n \<noteq> None \<or> r_modifiers E t \<or>
          (is_class_type t \<and> r_autonomous E t) \<or> t = TypeOfType
      | _ \<Rightarrow> succ n \<noteq> [])
     \<or> hasPreprocessingInfo n
     \<or> (isSgExpression n \<and> oexp n \<noteq> None \<and> \<not> r_fortran E)
     \<or> always_inode (cls n)"

text \<open>Types and input/output statements are not traversed by their successors.\<close>

definition visitSuccessors :: "sgnode \<Rightarrow> sgnode list" where
  "visitSuccessors n = (if isSgType n \<or> isIO (cls n) then [] else the_list (succ n))"

subsection \<open>Preprocessing information\<close>

definition removeIncludeDirectives :: "'s rose \<Rightarrow> sgnode \<Rightarrow> ppinfo list" where
  "removeIncludeDirectives E n =
     filter (\<lambda>p. \<not> r_removed E (h_file (hd_of n)) p) (h_ppi (hd_of n))"

definition ppi_item :: "ppinfo \<Rightarrow> xitem list" where
  "ppi_item p =
     [XElem ''PreprocessingInfo'' [num ''pos'' (pp_pos p) sp, num ''type'' (pp_type p) []]
        (Some [XText (entity (pp_text p))]), XText newline]"

definition writePreprocessingInfo :: "'s rose \<Rightarrow> sgnode \<Rightarrow> xitem list" where
  "writePreprocessingInfo E n =
     (if isSgLocatedNode n then concat (map ppi_item (removeIncludeDirectives E n)) else [])"

subsection \<open>Termination\<close>

text \<open>
  The temporary arguments around the control expressions of an input/output statement and the string
  literals for the names of an attribute specification are one level more than the tree has there,
  hence the extra step for such statements.
\<close>

fun extra :: "sgcls \<Rightarrow> nat" where
  "extra (SgStmt (IOStatement k)) = 1"
| "extra (SgStmt (Declaration (AttributeSpecificationStatement k i p b nms))) = 1"
| "extra c = 0"

fun depth :: "sgnode \<Rightarrow> nat" where
  "depth (Node h c ss ns) = Suc (extra c +
     (foldr max (map (\<lambda>x. case x of None \<Rightarrow> 0 | Some n \<Rightarrow> depth n) ss) 0 +
      foldr max (map (\<lambda>x. case x of None \<Rightarrow> 0 | Some n \<Rightarrow> depth n) ns) 0))"

lemma foldr_max_ge: "(x :: nat) \<in> set xs \<Longrightarrow> x \<le> foldr max xs 0"
  by (induction xs) auto

lemma depth_slot:
  "Some x \<in> set (succ n) \<Longrightarrow> extra (cls n) + depth x < depth n"
  "Some x \<in> set (inner n) \<Longrightarrow> extra (cls n) + depth x < depth n"
proof -
  have *: "Some x \<in> set xs \<Longrightarrow> depth x \<le> foldr max (map (\<lambda>x. case x of None \<Rightarrow> 0 | Some n \<Rightarrow> depth n) xs) 0"
    for xs
    by (rule foldr_max_ge) force
  show "Some x \<in> set (succ n) \<Longrightarrow> extra (cls n) + depth x < depth n"
    "Some x \<in> set (inner n) \<Longrightarrow> extra (cls n) + depth x < depth n"
    using * [of "succ n"] * [of "inner n"] by (cases n; auto)+
qed

lemma depth_extra: "extra (cls n) < depth n"
  by (cases n) simp

lemma depth_as_transformation [simp]: "depth (as_transformation n) = depth n"
proof (induction n rule: as_transformation.induct)
  case (1 h c ss ns)
  have "map (\<lambda>x. case x of None \<Rightarrow> 0 | Some n \<Rightarrow> depth n) (map (map_option as_transformation) ss) =
      map (\<lambda>x. case x of None \<Rightarrow> 0 | Some n \<Rightarrow> depth n) ss"
    using 1 by (auto split: option.splits)
  then show ?case by (simp del: list.map_comp map_map)
qed

lemma depth_copy_index [simp]: "depth (copy_index n) = depth n"
  by (simp add: copy_index_def split: option.splits)

lemma depth_string_val: "depth (buildStringVal s) = 1"
  by (simp add: buildStringVal_def)

lemma depth_io_arg: "depth (io_arg nm x) = Suc (depth x)"
  by (simp add: io_arg_def)

text \<open>What is visited below a node is smaller.\<close>

lemma the_list_slot: "x \<in> set (the_list [slot i xs]) \<Longrightarrow> Some x \<in> set xs"
proof -
  assume "x \<in> set (the_list [slot i xs])"
  then have "slot i xs = Some x" by (cases "slot i xs") simp_all
  then show "Some x \<in> set xs" by (rule slot_mem)
qed

lemma the_list_slots:
  "x \<in> set (the_list [slot i xs, slot j xs]) \<Longrightarrow> Some x \<in> set xs"
  by (auto simp: set_the_list dest: slot_mem [OF sym])

lemma inode_expr_slots:
  assumes "cls n = SgExpr e" "x \<in> set (inode_expr E n e)"
  shows "Some x \<in> set (inner n)"
  using assms
  by (cases "(E, n, e)" rule: inode_expr.cases)
    (auto simp: inode_defs get_type_def dest: the_list_slot the_list_slots)

lemma inode_type_slots:
  assumes "x \<in> set (inode_type n t)"
  shows "\<exists>y. Some y \<in> set (inner n) \<and> (x = y \<or> x = copy_index y)"
  using assms
proof -
  have i: "\<exists>y. Some y \<in> set (inner n) \<and> (x = y \<or> x = copy_index y)"
    if "x \<in> set (the_list [map_option copy_index (slot 2 (inner n))])"
    using that by (cases "slot 2 (inner n)") (auto dest: slot_mem)
  show ?thesis
    using assms by (cases t) (auto simp: inode_type_defs dest: the_list_slot i)
qed

lemma in_set_tlD: "x \<in> set (tl xs) \<Longrightarrow> x \<in> set xs"
  by (cases xs) auto

lemma inode_supp_slots:
  assumes "x \<in> set (inode_supp n s)"
  shows "Some x \<in> set (inner n)"
  using assms
  by (cases "(n, s)" rule: inode_supp.cases)
    (auto simp: inodeSgDataStatementGroup_def inodeSgDataStatementObject_def
      inodeSgDataStatementValue_def inodeSgFunctionParameterTypeList_def set_the_list [of "inner n"]
      set_the_list [of "take _ _"] set_the_list [of "drop _ _"]
      inodeSgFormatItem_def set_the_list [of "tl _"]
      dest: the_list_slot in_set_takeD in_set_dropD in_set_tlD)

lemma inode_io_slots:
  assumes "x \<in> set (inode_io k n)"
  shows "\<exists>y. Some y \<in> set (succ n) \<and> (x = y \<or> (\<exists>nm. x = io_arg nm y))"
  using assms
  by (auto simp: inode_io_traverse traverse_if_exists_def io_get_def opt_def
      dest: the_list_slot slot_mem slot_mem [OF sym] split: option.splits if_splits)

lemma inode_decl_slots:
  assumes "x \<in> set (inode_decl E n d)"
  shows "Some x \<in> set (inner n) \<or> (extra (SgStmt (Declaration d)) = 1 \<and> (\<exists>nm. x = buildStringVal nm))"
  using assms
  by (cases "(E, n, d)" rule: inode_decl.cases)
    (auto simp: inode_decl_defs set_the_list [of "inner n"] dest: the_list_slot split: if_splits)

lemma inode_stmt_slots:
  assumes "x \<in> set (inode_stmt E n s)" "\<not> isIO (SgStmt s)"
  shows "Some x \<in> set (inner n) \<or> (extra (SgStmt s) = 1 \<and> (\<exists>nm. x = buildStringVal nm))"
  using assms inode_decl_slots [of x E n]
  by (cases "(E, n, s)" rule: inode_stmt.cases)
    (auto simp: inode_stmt_defs dest: the_list_slot)

lemma inode_lsupp_slots:
  assumes "x \<in> set (inode_lsupp n s)"
  shows "Some x \<in> set (inner n)"
  using assms by (cases s) (auto simp: inodeSgInitializedName_def inodeSgInterfaceBody_def dest: the_list_slot split: if_splits)

lemma visited_depth:
  assumes "x \<in> set (visitSuccessors n @ inodes E n)"
  shows "depth x < depth n"
proof -
  have S: "depth x < depth n" if "Some x \<in> set (succ n)" for x
    using depth_slot(1) [OF that] by simp
  have I: "depth x < depth n" if "Some x \<in> set (inner n)" for x
    using depth_slot(2) [OF that] by simp
  from assms consider "Some x \<in> set (succ n)" | "x \<in> set (inodes E n)"
    by (auto simp: visitSuccessors_def set_the_list split: if_splits)
  then show ?thesis
  proof cases
    case 2
    show ?thesis
    proof (cases "cls n")
      case (SgExpr e)
      then show ?thesis using 2 inode_expr_slots [of n e x E] I by (simp add: inodes_def)
    next
      case (SgStmt s)
      show ?thesis
      proof (cases "isIO (SgStmt s)")
        case True
        then obtain k where k: "s = IOStatement k" by (cases s) auto
        then obtain y where y: "Some y \<in> set (succ n)" "x = y \<or> (\<exists>nm. x = io_arg nm y)"
          using 2 SgStmt inode_io_slots [of x k n] by (auto simp: inodes_def)
        then show ?thesis
          using depth_slot(1) [OF y(1)] SgStmt k by (auto simp: depth_io_arg)
      next
        case False
        then consider "Some x \<in> set (inner n)" | nm where "extra (cls n) = 1" "x = buildStringVal nm"
          using 2 SgStmt inode_stmt_slots [of x E n s] by (auto simp: inodes_def)
        then show ?thesis using I depth_extra [of n] by cases (auto simp: depth_string_val)
      qed
    next
      case (SgType t)
      then have "x \<in> set (inode_type n t)" using 2 by (simp add: inodes_def)
      then show ?thesis using inode_type_slots [of x n t] I by auto
    next
      case (SgSupp s)
      then show ?thesis using 2 inode_supp_slots [of x n s] I by (simp add: inodes_def)
    next
      case (SgLSup s)
      then show ?thesis using 2 inode_lsupp_slots [of x n s] I by (simp add: inodes_def)
    qed
  qed (rule S)
qed

lemma successor_depth: "x \<in> set (visitSuccessors n) \<Longrightarrow> depth x < depth n"
  using visited_depth [of x n] by auto

subsection \<open>The visitor\<close>

text \<open>
  \<open>XevSageVisitor::visit\<close> as the text it appends: \<open>d\<close> is the depth of indentation, \<open>par\<close> the class of
  the parent.
\<close>

definition unparse_attr :: "sgcls option \<Rightarrow> sgnode \<Rightarrow> chunk list" where
  "unparse_attr par n =
     only (par \<in> {Some (SgStmt BasicBlock), Some (SgStmt Global)} \<and> compgen n)
       [flag ''unparse'' False sp]"

function (sequential) visit_sage :: "'s rose \<Rightarrow> sgcls option \<Rightarrow> nat \<Rightarrow> sgnode \<Rightarrow> xitem list res" where
  "visit_sage E par d n =
     bind_res (isInSameFile E par n) (\<lambda>here.
       if \<not> here then Inr []
       else if r_skip E \<and> compgen n
       then bind_res (mapR (visit_sage E (Some (cls n)) d) (visitSuccessors n)) (\<lambda>xs. Inr (concat xs))
       else bind_res (attribs E n) (\<lambda>cs.
         let elem = XElem (class_name (cls n)) (cs @ unparse_attr par n) in
         if hasInode E n
         then bind_res (mapR (visit_sage E (Some (cls n)) (Suc d)) (visitSuccessors n @ inodes E n)) (\<lambda>xs.
           if modifiers_visited E n then Inl (Fatal ''unknown Sage AST node found'')
           else Inr [XText (indent d),
                elem (Some (XText newline # concat xs @ writePreprocessingInfo E n @ [XText (indent d)])),
                XText newline])
         else Inr [XText (indent d), elem None, XText newline]))"
  by pat_completeness auto
termination
  by (relation "measure (\<lambda>(E, par, d, n). depth n)") (auto dest: successor_depth intro: visited_depth)

declare visit_sage.simps [simp del]

text \<open>
  \<open>XevSageVisitor::write\<close>: the declaration with the encoding of the environment, then the file.
\<close>

definition xml_decl :: "string option \<Rightarrow> string" where
  "xml_decl enc =
     ''<?xml version='' @ [CHR 0x22] @ ''1.0'' @ [CHR 0x22] @ '' encoding='' @ [CHR 0x22]
     @ (case enc of None \<Rightarrow> ''UTF-8'' | Some e \<Rightarrow> e) @ [CHR 0x22] @ ''?>'' @ newline"

definition write_xml :: "'s rose \<Rightarrow> string option \<Rightarrow> sgnode \<Rightarrow> string res" where
  "write_xml E enc file =
     bind_res (visit_sage E None 0 file) (\<lambda>xs. Inr (xml_decl enc @ render_all xs))"

end
