(* ===== verification/XmlReader.thy ===== *)
theory XmlReader
  imports ExprCodec StmtCodec TypeCodec SuppCodec ClassNames
begin

text \<open>
  The reader, \<open>XevXmlVisitor\<close> of \<open>src/xml2rose.cpp\<close>: dispatch on the element name, the order in which
  children are visited, the scope stack around them, and the checks that finish a node. \<open>'s\<close> is the
  state of \<open>SageBuilder\<close> that is threaded through. Preprocessing information is that of
  \<open>src/preproc.cpp\<close>.
\<close>

subsection \<open>Dispatch\<close>

definition handler :: "sgcls \<Rightarrow> 's handler" where
  "handler c = (case c of
     SgExpr e \<Rightarrow> expr_handler e
   | SgStmt s \<Rightarrow> stmt_handler s
   | SgType t \<Rightarrow> type_handler t
   | SgSupp s \<Rightarrow> supp_handler s
   | SgLSup s \<Rightarrow> lsupp_handler s)"

text \<open>
  An element that no line of the list matches ends the process. A listed class that is not modelled
  is an error of its own here.
\<close>

definition unknown_element :: "string \<Rightarrow> 'a res" where
  "unknown_element nm =
     (if list_ex (\<lambda>n. nm = ''Sg'' @ n) sgnode_hpp then Inl (Undef ''class not modelled'')
      else Inl (Fatal ''unknown AST node found''))"

subsection \<open>How the handlers visit children\<close>

text \<open>Handlers without a loop over the children.\<close>

fun visits_no_children :: "sgcls \<Rightarrow> bool" where
  "visits_no_children (SgExpr AsteriskShapeExp) = True"
| "visits_no_children (SgExpr ColonShapeExp) = True"
| "visits_no_children (SgExpr (LabelRefExp t i a)) = True"
| "visits_no_children (SgExpr NullExpression) = True"
| "visits_no_children (SgStmt (BreakStmt s)) = True"
| "visits_no_children (SgStmt (ContinueStmt s)) = True"
| "visits_no_children (SgStmt (GotoStatement s l)) = True"
| "visits_no_children (SgStmt NullStatement) = True"
| "visits_no_children (SgStmt (Declaration ContainsStatement)) = True"
| "visits_no_children (SgStmt (Declaration (FortranIncludeLine f))) = True"
| "visits_no_children (SgType TypeDefault) = True"
| "visits_no_children (SgType TypeEllipse) = True"
| "visits_no_children (SgType (EnumType nm)) = True"
| "visits_no_children (SgType (TypedefType nm)) = True"
| "visits_no_children (SgSupp (NameGroup g ns)) = True"
| "visits_no_children (SgSupp (Pragma p)) = True"
| "visits_no_children (SgSupp TypedefSeq) = True"
| "visits_no_children (SgLSup (RenamePair l u)) = True"
| "visits_no_children c = False"

text \<open>
  A class type or declaration does not look at its children when the class found has a definition.
\<close>

definition ignores_children :: "'s rose \<Rightarrow> 's \<Rightarrow> sgcls \<Rightarrow> attrs \<Rightarrow> bool" where
  "ignores_children E \<sigma> c A \<longleftrightarrow> visits_no_children c \<or>
     (case c of
        SgType (ClassType nm ct un) \<Rightarrow> (case r_find_class E \<sigma> (getStr A ''name'' []) of
            Some (ct', un', def) \<Rightarrow> def
          | None \<Rightarrow> False)
      | SgStmt (Declaration (ClassDeclaration nm ct un au)) \<Rightarrow>
          r_defined_class E \<sigma> (getStr A ''name'' []) \<noteq> None
      | _ \<Rightarrow> False)"

text \<open>
  What the reader knows of the parent: none, a class declaration or something else. \<open>SgModifierType\<close>
  has no node yet when it visits its children; other types and some declarations pass on their own
  parent, a function for all but its body. Expressions and statements that do so have one, or the
  process ends at themselves.
\<close>

datatype parent = NoParent | ClassDecl | OtherParent

fun gives_parent :: "parent \<Rightarrow> sgcls \<Rightarrow> parent" where
  "gives_parent np (SgType (ModifierType v cv)) = NoParent"
| "gives_parent np (SgType (SimpleType k)) = np"
| "gives_parent np (SgType FunctionType) = np"
| "gives_parent np (SgType TypeString) = np"
| "gives_parent np (SgType TypeComplex) = np"
| "gives_parent np (SgType TypeImaginary) = np"
| "gives_parent np (SgType TypeInt) = np"
| "gives_parent np (SgType (TypeLabel nm)) = np"
| "gives_parent np (SgType (ClassType nm ct un)) = ClassDecl"
| "gives_parent np (SgSupp FunctionParameterTypeList) = np"
| "gives_parent np (SgLSup (InitializedName nm p s e a g)) = np"
| "gives_parent np (SgStmt (Declaration (ClassDeclaration nm t u a))) = ClassDecl"
| "gives_parent np (SgStmt (Declaration (DerivedTypeStatement nm t u a))) = ClassDecl"
| "gives_parent np (SgStmt (Declaration FormatStatement)) = np"
| "gives_parent np (SgStmt (Declaration (FunctionDeclaration nm b p v a))) = np"
| "gives_parent np (SgStmt (Declaration PragmaDeclaration)) = np"
| "gives_parent np (SgStmt (Declaration (TypedefDeclaration nm l))) = np"
| "gives_parent np (SgStmt (Declaration (VariableDeclaration v d s a))) = np"
| "gives_parent np c = OtherParent"

text \<open>The macros \<open>FUNCTION_HEADER_VISIT_BEGIN\<close> and \<open>FUNCTION_BODY_VISIT_BEGIN\<close> share the children by name.\<close>

definition body_element :: "string \<Rightarrow> bool" where
  "body_element nm \<longleftrightarrow> nm = ''SgFunctionDefinition'' \<or> nm = ''SgBasicBlock''"

text \<open>Handlers that declare something before they visit their children.\<close>

fun declares_first :: "sgcls \<Rightarrow> bool" where
  "declares_first (SgStmt (Declaration (ClassDeclaration nm t u a))) = True"
| "declares_first (SgStmt (Declaration (EnumDeclaration nm u))) = True"
| "declares_first c = False"

text \<open>Handlers that push their node on the scope stack and pop it after the children.\<close>

fun opens_scope :: "sgcls \<Rightarrow> bool" where
  "opens_scope (SgStmt BasicBlock) = True"
| "opens_scope (SgStmt (ClassDefinition s p a)) = True"
| "opens_scope (SgStmt (FortranDo s e l n)) = True"
| "opens_scope (SgStmt FunctionDefinition) = True"
| "opens_scope (SgStmt Global) = True"
| "opens_scope (SgStmt (IfStmt e t el ll s)) = True"
| "opens_scope (SgStmt (SwitchStatement l s)) = True"
| "opens_scope c = False"

text \<open>
  The loop of \<open>visitSgDotExp\<close> and \<open>visitSgArrowExp\<close>: once the left operand is there, the class of its
  type becomes the scope for the right one; every child after it pops the stack until a right
  operand is found.
\<close>

record operands =
  has_lhs :: bool
  has_rhs :: bool
  pushed :: bool

definition operands0 :: operands where
  "operands0 = \<lparr>has_lhs = False, has_rhs = False, pushed = False\<rparr>"

definition member_access :: "sgcls \<Rightarrow> bool" where
  "member_access c \<longleftrightarrow> c \<in> {SgExpr (BinaryOp DotExp), SgExpr (BinaryOp ArrowExp)}"

definition after_child :: "'s rose \<Rightarrow> sgcls \<Rightarrow> kid \<Rightarrow> operands \<times> 's \<Rightarrow> operands \<times> 's" where
  "after_child E c k = (\<lambda>(v, \<sigma>).
     let exp = (case k of KNode n \<Rightarrow> if isSgExpression n then Some n else None | _ \<Rightarrow> None) in
     if \<not> member_access c then (v, \<sigma>)
     else if \<not> has_lhs v
     then (case exp of
         None \<Rightarrow> (v, \<sigma>)
       | Some lhs \<Rightarrow> (case r_class_scope E lhs \<sigma> of
             None \<Rightarrow> (v\<lparr>has_lhs := True\<rparr>, \<sigma>)
           | Some \<sigma>' \<Rightarrow> (v\<lparr>has_lhs := True, pushed := True\<rparr>, \<sigma>')))
     else if \<not> has_rhs v
     then (v\<lparr>has_rhs := exp \<noteq> None\<rparr>, if pushed v then r_pop E \<sigma> else \<sigma>)
     else (v, \<sigma>))"

subsection \<open>Finishing a node\<close>

text \<open>
  \<open>visitPreprocessingInfo\<close> on a child element: the text is the value of its first child, decoded
  once more.
\<close>

definition read_ppi :: "attrs \<Rightarrow> dom list \<Rightarrow> ppinfo res" where
  "read_ppi A ks =
     (if \<not> hasAttr A ''pos'' then Inl (Fatal ''PreprocessingInfo needs an attribute, pos'')
      else if \<not> hasAttr A ''type'' then Inl (Fatal ''PreprocessingInfo needs an attribute, type'')
      else bind_res (getInt A ''pos'' 0) (\<lambda>pos. bind_res (getInt A ''type'' 0) (\<lambda>typ.
        bind_res (case ks of
            [] \<Rightarrow> Inr []
          | TextNode s # _ \<Rightarrow> Inr s
          | _ \<Rightarrow> Inl (Undef ''string from a null pointer''))
          (\<lambda>content. Inr \<lparr>pp_pos = pos, pp_type = typ, pp_text = unentity content\<rparr>))))"

fun checkPreprocInfo :: "dom list \<Rightarrow> ppinfo list res" where
  "checkPreprocInfo [] = Inr []"
| "checkPreprocInfo (Element nm A ks # ds) =
     (if nm = ''PreprocessingInfo''
      then bind_res (read_ppi A ks) (\<lambda>p. bind_res (checkPreprocInfo ds) (\<lambda>ps. Inr (p # ps)))
      else checkPreprocInfo ds)"
| "checkPreprocInfo (d # ds) = checkPreprocInfo ds"

text \<open>\<open>checkExpression\<close>: the flag is set from the attribute, to false without one.\<close>

definition checkExpression :: "attrs \<Rightarrow> sgnode \<Rightarrow> sgnode res" where
  "checkExpression A n =
     (if isSgExpression n
      then bind_res (getFlag A ''paren'' False) (\<lambda>p. case n of Node h c ss ns \<Rightarrow>
             Inr (Node (h\<lparr>h_paren := p\<rparr>) c ss ns))
      else Inr n)"

definition checkStatement :: "parent \<Rightarrow> attrs \<Rightarrow> sgnode \<Rightarrow> sgnode res" where
  "checkStatement np A n =
     (if isSgStatement n \<and> hasAttr A ''label''
      then bind_res (getInt A ''label'' 0) (\<lambda>ino.
             if np = NoParent then Inl (Fatal ''statement does not have a parent node'')
             else case n of Node h c ss ns \<Rightarrow> Inr (Node (h\<lparr>h_label := Some ino\<rparr>) c ss ns))
      else Inr n)"

text \<open>
  \<open>checkLocatedNode\<close>: every located node becomes a transformation, one with \<open>unparse="0"\<close> a
  frontend-specific, compiler-generated node that is not output.
\<close>

definition generated :: finfo where
  "generated = \<lparr>fi_frontend = True, fi_compgen = True, fi_transf = False, fi_output = False,
     fi_same = False, fi_cpp = False\<rparr>"

definition checkLocatedNode :: "attrs \<Rightarrow> sgnode \<Rightarrow> sgnode res" where
  "checkLocatedNode A n =
     (if isSgLocatedNode n
      then bind_res (getFlag A ''unparse'' True) (\<lambda>unp. case n of Node h c ss ns \<Rightarrow>
             Inr (Node (h\<lparr>h_file := Some (if unp then transformation else generated)\<rparr>) c ss ns))
      else Inr n)"

definition attach_ppi :: "ppinfo list \<Rightarrow> sgnode \<Rightarrow> sgnode" where
  "attach_ppi ps n = (case n of Node h c ss ns \<Rightarrow> Node (h\<lparr>h_ppi := h_ppi h @ ps\<rparr>) c ss ns)"

definition no_parent :: "'a res" where
  "no_parent = Inl (Fatal ''SgNode with no parent is found'')"

definition finish :: "'s rose \<Rightarrow> parent \<Rightarrow> attrs \<Rightarrow> dom list \<Rightarrow> sgnode \<Rightarrow> sgnode res" where
  "finish E np A ks n =
     bind_res (if isSgLocatedNode n then checkPreprocInfo ks else Inr []) (\<lambda>ps.
     bind_res (checkExpression A (attach_ppi ps n)) (\<lambda>n.
     bind_res (checkStatement np A n) (\<lambda>n.
     bind_res (checkDeclStmt E A n) (\<lambda>n.
     bind_res (checkLocatedNode A n) (\<lambda>n.
       if \<not> isSgType n \<and> \<not> isSgSourceFile n \<and> np = NoParent then no_parent else Inr n)))))"

subsection \<open>The visitor\<close>

text \<open>
  \<open>XevXmlVisitor::visit\<close> on an element and the loop of a handler over the children of the names \<open>sel\<close>.
  An element \<open>PreprocessingInfo\<close> yields no node. A function visits its header, declares itself and
  visits its body. What a handler checks of its own attributes and of the children it has seen so far
  is checked after all children here, so that of two fatal messages the other one may be printed.
  Below the document itself every child is visited, comments too.
\<close>

definition around :: "'s rose \<Rightarrow> sgcls \<Rightarrow> string \<Rightarrow> attrs \<Rightarrow> 's \<Rightarrow> 's" where
  "around E c nm A \<sigma> =
     (if opens_scope c then r_push E nm A \<sigma> else if declares_first c then r_declare E nm A [] \<sigma> else \<sigma>)"

fun visit_xml :: "'s rose \<Rightarrow> parent \<Rightarrow> dom \<Rightarrow> 's \<Rightarrow> (kid \<times> 's) res"
and visit_kids :: "'s rose \<Rightarrow> sgcls \<Rightarrow> (string \<Rightarrow> bool) \<Rightarrow> parent \<Rightarrow> dom list \<Rightarrow> operands \<times> 's \<Rightarrow>
      (kid list \<times> operands \<times> 's) res"
and visit_document :: "'s rose \<Rightarrow> dom list \<Rightarrow> 's \<Rightarrow> 's res"
where
  "visit_xml E np (Element nm A ks) \<sigma> =
     (case class_of nm of
        None \<Rightarrow> if nm = ''PreprocessingInfo'' then (if np \<noteq> NoParent then Inr (KNull, \<sigma>) else no_parent)
                else unknown_element nm
      | Some c \<Rightarrow>
          bind_res
            (if ignores_children E \<sigma> c A then Inr ([], \<sigma>)
             else if c_ClassDefinition c \<and> np \<noteq> ClassDecl
             then Inl (Fatal ''SgClassDefinition's parent must to be SgClassDeclaration'')
             else if c_Function c
             then bind_res (visit_kids E c (\<lambda>x. \<not> body_element x) (gives_parent np c) ks (operands0, \<sigma>)) (\<lambda>(hd, v, \<sigma>).
                  bind_res (visit_kids E c body_element OtherParent ks
                             (operands0, r_declare E nm A (nodes hd) \<sigma>)) (\<lambda>(bd, v, \<sigma>).
                    Inr (hd @ bd, \<sigma>)))
             else bind_res (visit_kids E c (\<lambda>x. True) (gives_parent np c) ks (operands0, around E c nm A \<sigma>))
                    (\<lambda>(kids, v, \<sigma>). Inr (kids, if opens_scope c then r_pop E \<sigma> else \<sigma>)))
            (\<lambda>(kids, \<sigma>). bind_res (handler c E \<sigma> A kids) (\<lambda>n.
               bind_res (finish E np A ks n) (\<lambda>n. Inr (KNode n, r_built E n \<sigma>)))))"
| "visit_xml E np (TextNode s) \<sigma> = unknown_element ''#text''"
| "visit_xml E np OtherNode \<sigma> = unknown_element ''#comment''"
| "visit_xml E np (Document ks) \<sigma> =
     bind_res (visit_document E ks \<sigma>) (\<lambda>\<sigma>. Inr (KNull, \<sigma>))"
| "visit_kids E c sel np [] s = Inr ([], s)"
| "visit_kids E c sel np (Element nm A ks # ds) (v, \<sigma>) =
     (if sel nm
      then bind_res (visit_xml E np (Element nm A ks) \<sigma>) (\<lambda>(k, \<sigma>).
           bind_res (visit_kids E c sel np ds (after_child E c k (v, \<sigma>))) (\<lambda>(kids, s). Inr (k # kids, s)))
      else visit_kids E c sel np ds (v, \<sigma>))"
| "visit_kids E c sel np (TextNode t # ds) s =
     bind_res (visit_kids E c sel np ds s) (\<lambda>(kids, s). Inr (KText t # kids, s))"
| "visit_kids E c sel np (d # ds) s = visit_kids E c sel np ds s"
| "visit_document E [] \<sigma> = Inr \<sigma>"
| "visit_document E (d # ds) \<sigma> =
     bind_res (visit_xml E NoParent d \<sigma>) (\<lambda>(k, \<sigma>). visit_document E ds \<sigma>)"

end
