(* ===== verification/RoundTrip.thy ===== *)
theory RoundTrip
  imports SageWriter XmlReader
begin

text \<open>
  Writing a tree and reading the document gives the tree back, up to what the reader normalises.
  \<open>canon\<close> says what that is: every located node becomes a transformation (or a generated node where
  the writer printed \<open>unparse="0"\<close>), and the include directives that the writer leaves out are gone.
  \<open>rt\<close> is the condition, node by node; \<open>visit_sage_xml\<close> is the theorem.
\<close>

subsection \<open>The normal form\<close>

definition is_block :: "sgcls \<Rightarrow> bool" where
  "is_block c \<longleftrightarrow> c \<in> {SgStmt BasicBlock, SgStmt Global}"

definition in_block :: "sgcls option \<Rightarrow> bool" where
  "in_block par \<longleftrightarrow> (case par of None \<Rightarrow> False | Some c \<Rightarrow> is_block c)"

definition h_compgen :: "hdr \<Rightarrow> bool" where
  "h_compgen h \<longleftrightarrow> (case h_file h of None \<Rightarrow> False | Some info \<Rightarrow> fi_compgen info)"

fun is_file :: "sgcls \<Rightarrow> bool" where
  "is_file (SgSupp (SourceFile f l fmt)) = True"
| "is_file c = False"

fun is_expr :: "sgcls \<Rightarrow> bool" where
  "is_expr (SgExpr e) = True"
| "is_expr c = False"

fun is_stmt :: "sgcls \<Rightarrow> bool" where
  "is_stmt (SgStmt s) = True"
| "is_stmt c = False"

definition canon_hdr :: "'s rose \<Rightarrow> bool \<Rightarrow> hdr \<Rightarrow> sgcls \<Rightarrow> hdr" where
  "canon_hdr E b h c =
     \<lparr>h_file = (if located c then Some (if b \<and> h_compgen h then generated else transformation)
                else if is_file c then Some transformation else None),
      h_ppi = (if located c then filter (\<lambda>p. \<not> r_removed E (h_file h) p) (h_ppi h) else []),
      h_paren = (is_expr c \<and> h_paren h),
      h_label = (if is_stmt c then h_label h else None),
      h_mods = canon_mods E h c\<rparr>"

fun canon :: "'s rose \<Rightarrow> bool \<Rightarrow> sgnode \<Rightarrow> sgnode" where
  "canon E b (Node h c ss ns) =
     Node (canon_hdr E b h c) c (map (map_option (canon E (is_block c))) ss)
       (map (map_option (canon E (is_block c))) ns)"

lemma canon_simps [simp]: "cls (canon E b n) = cls n"
  "succ (canon E b n) = map (map_option (canon E (is_block (cls n)))) (succ n)"
  by (cases n; simp)+

lemma keeps_canon [simp]: "keeps (canon E b)"
  by (simp add: keeps_def)

lemma rebuilds_canon [simp]: "rebuilds (canon E b)"
proof -
  have "slot 0 (inner (canon E b n)) = None \<longleftrightarrow> slot 0 (inner n) = None" for n
    by (cases n) (simp add: slot_map)
  moreover have "canon E b n = built (cls n) [] []" if "isSgPragma n" "succ n = []" "inner n = []" for n
    using that by (cases n rule: isSgPragma.cases) (auto simp: canon_hdr_def canon_mods_def hdr0_def)
  ultimately show ?thesis by (simp add: rebuilds_def)
qed

lemma keeps_args_canon: "\<not> b \<Longrightarrow> keeps_args (canon E b)"
  by (simp add: keeps_args_def io_arg_def is_block_def)

subsection \<open>Which trees\<close>

definition shape :: "'s rose \<Rightarrow> sgnode \<Rightarrow> bool" where
  "shape E n = (case n of Node h c ss ns \<Rightarrow> (case c of
     SgExpr e \<Rightarrow> expr_shape E h e ss ns
   | SgStmt s \<Rightarrow> stmt_shape E h s ss ns
   | SgType t \<Rightarrow> type_shape E t ss ns
   | SgSupp s \<Rightarrow> supp_shape E s ss ns
   | SgLSup s \<Rightarrow> lsupp_shape E s ss ns))"

definition ppi_ok :: "ppinfo \<Rightarrow> bool" where
  "ppi_ok p \<longleftrightarrow> int32 (pp_pos p) \<and> int32 (pp_type p) \<and> plain (pp_text p)"

text \<open>A label needs a parent for its symbol.\<close>

definition label_fits :: "parent \<Rightarrow> sgnode \<Rightarrow> bool" where
  "label_fits np n \<longleftrightarrow> (case h_label (hd_of n) of None \<Rightarrow> True | Some l \<Rightarrow> isSgStatement n \<longrightarrow> int32 l \<and> np \<noteq> NoParent)"

text \<open>The index of an array type may be written as a copy.\<close>

definition index_ok :: "'s rose \<Rightarrow> sgnode \<Rightarrow> bool" where
  "index_ok E n \<longleftrightarrow> (case cls n of
     SgType (ArrayType r) \<Rightarrow> (case slot 2 (inner n) of
        None \<Rightarrow> True
      | Some x \<Rightarrow> canon E False (copy_index x) = canon E False x)
   | _ \<Rightarrow> True)"

definition visited :: "'s rose \<Rightarrow> sgnode \<Rightarrow> sgnode list" where
  "visited E n = visitSuccessors n @ inodes E n"

text \<open>A declaration keeps its modifiers; the body of a function has the function as its parent.\<close>

definition mods_fit :: "'s rose \<Rightarrow> sgnode \<Rightarrow> bool" where
  "mods_fit E n \<longleftrightarrow> (case cls n of SgStmt (Declaration d) \<Rightarrow> mods_ok E n d | _ \<Rightarrow> True)"

definition child_parent :: "parent \<Rightarrow> sgcls \<Rightarrow> sgnode \<Rightarrow> parent" where
  "child_parent np c x = (if c_Function c \<and> is_body x then OtherParent else gives_parent np c)"

definition node_ok :: "'s rose \<Rightarrow> sgcls option \<Rightarrow> parent \<Rightarrow> sgnode \<Rightarrow> bool" where
  "node_ok E par np n \<longleftrightarrow>
     isInSameFile E par n = Inr True \<and> \<not> (r_skip E \<and> compgen n) \<and>
     listed (cls n) \<and> \<not> isl (attribs E n) \<and> shape E n \<and> label_fits np n \<and> index_ok E n \<and> mods_fit E n \<and>
     (located (cls n) \<longrightarrow> list_all ppi_ok (removeIncludeDirectives E n)) \<and>
     (\<not> located (cls n) \<longrightarrow> unparse_attr par n = []) \<and>
     (hasInode E n \<or> visited E n = []) \<and> \<not> modifiers_visited E n \<and>
     (c_ClassDefinition (cls n) \<longrightarrow> np = ClassDecl) \<and>
     (np \<noteq> NoParent \<or> isSgType n \<or> isSgSourceFile n)"

function rt :: "'s rose \<Rightarrow> sgcls option \<Rightarrow> parent \<Rightarrow> sgnode \<Rightarrow> bool" where
  "rt E par np n \<longleftrightarrow> node_ok E par np n \<and>
     list_all (\<lambda>x. rt E (Some (cls n)) (child_parent np (cls n) x) x) (visited E n)"
  by pat_completeness auto
termination
  by (relation "measure (\<lambda>(E, par, np, n). depth n)") (auto simp: visited_def intro: visited_depth)

declare rt.simps [simp del]

subsection \<open>The children in the document\<close>

text \<open>Character data between the children changes nothing but the text the handler sees.\<close>

definition picks :: "(string \<Rightarrow> bool) \<Rightarrow> dom \<Rightarrow> bool" where
  "picks sel d \<longleftrightarrow> (case d of Element nm A ks \<Rightarrow> sel nm | _ \<Rightarrow> False)"

lemma picks_simps [simp]:
  "picks sel (Element nm A ks) = sel nm" "\<not> picks sel (TextNode t)" "\<not> picks sel OtherNode"
  "\<not> picks sel (Document ds)"
  by (simp_all add: picks_def)

lemma visit_kids_elements:
  "visit_kids E c sel np (filter (picks sel) ds) s = Inr (kids, s') \<Longrightarrow>
     \<exists>kids'. visit_kids E c sel np ds s = Inr (kids', s') \<and> filter shown kids' = filter shown kids \<and>
       (\<forall>t. KText t \<in> set kids' \<longrightarrow> TextNode t \<in> set ds \<or> KText t \<in> set kids)"
proof (induction ds arbitrary: s kids)
  case Nil
  then show ?case by auto
next
  case (Cons d ds)
  show ?case
  proof (cases d)
    case (Element nm A ks)
    obtain v \<sigma> where s: "s = (v, \<sigma>)" by (cases s)
    show ?thesis
    proof (cases "sel nm")
      case True
      with Cons.prems Element s obtain k \<sigma>1 kids1 where
        1: "visit_xml E np (Element nm A ks) \<sigma> = Inr (k, \<sigma>1)"
          "visit_kids E c sel np (filter (picks sel) ds) (after_child E c k (v, \<sigma>1)) = Inr (kids1, s')"
          "kids = k # kids1"
        by (auto simp: bind_res_eq_Inr)
      from Cons.IH [OF 1(2)] 1 Element s True show ?thesis by (auto simp del: visit_xml.simps)
    next
      case False
      then show ?thesis using Cons.IH [of s kids] Cons.prems Element s by auto
    qed
  next
    case (TextNode t)
    with Cons.IH Cons.prems show ?thesis by fastforce
  next
    case OtherNode
    with Cons.IH Cons.prems show ?thesis by fastforce
  next
    case (Document xs)
    with Cons.IH Cons.prems show ?thesis by fastforce
  qed
qed

lemma nodes_shown: "nodes (filter shown ks) = nodes ks"
  by (induction ks rule: nodes.induct) auto

lemma KNull_shown: "KNull \<in> set (filter shown ks) \<longleftrightarrow> KNull \<in> set ks"
  by auto

lemma visit_kids_Cons:
  "picks sel d \<Longrightarrow> visit_kids E c sel np (d # ds) (v, \<sigma>) =
     bind_res (visit_xml E np d \<sigma>) (\<lambda>(k, \<sigma>).
     bind_res (visit_kids E c sel np ds (after_child E c k (v, \<sigma>))) (\<lambda>(kids, s). Inr (k # kids, s)))"
  by (cases d) simp_all

text \<open>A list of elements of which each is read into a node, whatever the state.\<close>

lemma visit_kids_nodes:
  assumes "\<And>x \<sigma>. x \<in> set xs \<Longrightarrow> \<exists>\<sigma>'. visit_xml E np (g x) \<sigma> = Inr (KNode (f x), \<sigma>')"
    and "\<And>x. x \<in> set xs \<Longrightarrow> picks sel (g x)"
  shows "\<exists>s'. visit_kids E c sel np (map g xs @ ds) s =
    bind_res (visit_kids E c sel np ds s') (\<lambda>(kids, s). Inr (map (KNode \<circ> f) xs @ kids, s))"
  using assms
proof (induction xs arbitrary: s)
  case Nil
  then show ?case by (intro exI [of _ s], cases "visit_kids E c sel np ds s") auto
next
  case (Cons x xs)
  obtain v \<sigma> where s: "s = (v, \<sigma>)" by (cases s)
  have g: "picks sel (g x)" using Cons.prems(2) [of x] by simp
  obtain \<sigma>1 where "visit_xml E np (g x) \<sigma> = Inr (KNode (f x), \<sigma>1)"
    using Cons.prems(1) [of x \<sigma>] by auto
  moreover obtain s1 where "visit_kids E c sel np (map g xs @ ds) (after_child E c (KNode (f x)) (v, \<sigma>1)) =
      bind_res (visit_kids E c sel np ds s1) (\<lambda>(kids, s). Inr (map (KNode \<circ> f) xs @ kids, s))"
    using Cons.IH [of "after_child E c (KNode (f x)) (v, \<sigma>1)"] Cons.prems by (metis list.set_intros(2))
  ultimately show ?case
    using s by (intro exI [of _ s1]) (simp add: visit_kids_Cons g bind_res_def split: sum.splits)
qed

subsection \<open>Preprocessing information in the document\<close>

lemma ppi_not_listed [simp]: "class_of ''PreprocessingInfo'' = None"
  using class_of_listed [of "''PreprocessingInfo''"] by (cases "class_of ''PreprocessingInfo''") (auto simp: class_name_def)

definition ppi_dom :: "ppinfo \<Rightarrow> dom" where
  "ppi_dom p = Element ''PreprocessingInfo'' [(''pos'', show_int (pp_pos p)), (''type'', show_int (pp_type p))]
     (if pp_text p = [] then [] else [TextNode (pp_text p)])"

lemma dom_ppi_item: "map dom_of (ppi_item p) = [ppi_dom p, TextNode newline]"
  by (simp add: ppi_item_def ppi_dom_def num_def)

lemma ppi_dom_element [simp]: "is_element (ppi_dom p)"
  by (simp add: ppi_dom_def)

lemma ppi_dom_picks [simp]: "picks sel (ppi_dom p) = sel ''PreprocessingInfo''"
  by (simp add: ppi_dom_def)

lemma visit_ppi_dom: "np \<noteq> NoParent \<Longrightarrow> visit_xml E np (ppi_dom p) \<sigma> = Inr (KNull, \<sigma>)"
  by (simp add: ppi_dom_def)

lemma visit_kids_ppi:
  "np \<noteq> NoParent \<Longrightarrow> \<exists>s'. visit_kids E c sel np (filter (picks sel) (map ppi_dom ps)) s =
     Inr (map (\<lambda>_. KNull) (if sel ''PreprocessingInfo'' then ps else []), s')"
proof (induction ps arbitrary: s)
  case (Cons p ps)
  obtain v \<sigma> where s: "s = (v, \<sigma>)" by (cases s)
  have "\<exists>s1. visit_kids E c sel np (filter (picks sel) (map ppi_dom ps)) (after_child E c KNull (v, \<sigma>)) =
      Inr (map (\<lambda>_. KNull) (if sel ''PreprocessingInfo'' then ps else []), s1)"
    using Cons by blast
  moreover have "\<not> sel ''PreprocessingInfo'' \<Longrightarrow> filter (picks sel) (map ppi_dom ps) = []"
    by (simp add: filter_empty_conv)
  ultimately show ?case
    using s Cons.prems by (cases "sel ''PreprocessingInfo''") (auto simp: visit_kids_Cons visit_ppi_dom)
qed simp

lemma read_ppi_dom:
  "ppi_ok p \<Longrightarrow> ppi_dom p = Element ''PreprocessingInfo'' A ks \<Longrightarrow> read_ppi A ks = Inr p"
  by (auto simp: ppi_ok_def ppi_dom_def read_ppi_def hasAttr_def getNum_def)

lemma checkPreprocInfo_Cons_ppi:
  "ppi_ok p \<Longrightarrow> checkPreprocInfo (ppi_dom p # ds) = bind_res (checkPreprocInfo ds) (\<lambda>ps. Inr (p # ps))"
  using read_ppi_dom [of p] by (auto simp: ppi_dom_def)

lemma checkPreprocInfo_ppi:
  "list_all ppi_ok ps \<Longrightarrow> checkPreprocInfo (map ppi_dom ps) = Inr ps"
  by (induction ps) (auto simp: checkPreprocInfo_Cons_ppi)

lemma checkPreprocInfo_elements: "checkPreprocInfo (filter is_element ds) = checkPreprocInfo ds"
  by (induction ds rule: checkPreprocInfo.induct) (auto simp: bind_res_def split: sum.splits)

lemma checkPreprocInfo_skip:
  "(\<And>d. d \<in> set ds \<Longrightarrow> \<exists>nm A ks. d = Element nm A ks \<and> nm \<noteq> ''PreprocessingInfo'') \<Longrightarrow>
     checkPreprocInfo (ds @ es) = checkPreprocInfo es"
proof (induction ds)
  case (Cons d ds)
  then show ?case by (metis append_Cons checkPreprocInfo.simps(2) list.set_intros)
qed simp

lemma class_name_not_ppi: "class_name c \<noteq> ''PreprocessingInfo''"
  by (simp add: class_name_def)

subsection \<open>The class found for a name\<close>

text \<open>The reader knows the class without its fields, which is all its dispatch looks at.\<close>

lemma decl_proto_tests [simp]:
  "gives_parent np (SgStmt (Declaration (decl_proto d))) = gives_parent np (SgStmt (Declaration d))"
  "visits_no_children (SgStmt (Declaration (decl_proto d))) = visits_no_children (SgStmt (Declaration d))"
  "declares_first (SgStmt (Declaration (decl_proto d))) = declares_first (SgStmt (Declaration d))"
  "c_Function (SgStmt (Declaration (decl_proto d))) = c_Function (SgStmt (Declaration d))"
  "decl_handler (decl_proto d) = decl_handler d"
  by (cases d; simp)+

lemma decl_proto_ignores [simp]: "ignores_children E \<sigma> (SgStmt (Declaration (decl_proto d))) A =
    ignores_children E \<sigma> (SgStmt (Declaration d)) A"
  by (cases d) (simp_all add: ignores_children_def)

lemma proto_tests [simp]:
  "gives_parent np (proto c) = gives_parent np c"
  "visits_no_children (proto c) = visits_no_children c"
  "opens_scope (proto c) = opens_scope c"
  "declares_first (proto c) = declares_first c"
  "c_Function (proto c) = c_Function c"
  "c_ClassDefinition (proto c) = c_ClassDefinition c"
  by (cases c; (rename_tac x, case_tac x); simp)+

lemma proto_ignores [simp]: "ignores_children E \<sigma> (proto c) A = ignores_children E \<sigma> c A"
  by (cases c; (rename_tac x, case_tac x); (simp only: proto.simps stmt_proto.simps decl_proto_ignores)?)
    (simp_all add: ignores_children_def)

lemma proto_around [simp]: "around E (proto c) nm A \<sigma> = around E c nm A \<sigma>"
  by (simp add: around_def)

lemma handler_proto [simp]: "handler (proto c) = handler c"
  by (cases c; (rename_tac x, case_tac x)) (simp_all add: handler_def)

lemma gives_parent_located: "located c \<Longrightarrow> np \<noteq> NoParent \<Longrightarrow> gives_parent np c \<noteq> NoParent"
  by (cases "(np, c)" rule: gives_parent.cases) simp_all

text \<open>The names that the two passes over a function ask for.\<close>

lemma same_name: "class_name c = class_name c' \<Longrightarrow> listed c \<Longrightarrow> listed c' \<Longrightarrow> proto c = proto c'"
  using class_of_name [of c] class_of_name [of c'] by simp

lemma body_element_iff: "body_element (class_name (cls x)) \<longleftrightarrow> is_body x"
proof
  assume b: "body_element (class_name (cls x))"
  have "listed (cls x)"
    using b by (auto simp: listed_iff unlisted_def body_element_def class_name_def)
  moreover have "class_name (cls x) = class_name (SgStmt FunctionDefinition) \<or> class_name (cls x) = class_name (SgStmt BasicBlock)"
    using b by (simp add: body_element_def class_name_def)
  ultimately have "proto (cls x) = SgStmt FunctionDefinition \<or> proto (cls x) = SgStmt BasicBlock"
    using same_name [of "cls x" "SgStmt FunctionDefinition"] same_name [of "cls x" "SgStmt BasicBlock"]
    by (auto simp: listed_iff)
  then show "is_body x"
    by (cases "cls x"; (rename_tac y, case_tac y); simp add: is_body_def is_cls_def)
qed (auto simp: body_element_def is_body_def is_cls_def class_name_def)

subsection \<open>The attributes that finish a node\<close>

definition built_hdr :: "sgcls \<Rightarrow> hdr \<Rightarrow> hdr" where
  "built_hdr c h = (case c of SgStmt s \<Rightarrow> stmt_hdr s h | SgSupp s \<Rightarrow> supp_hdr s | _ \<Rightarrow> hdr0)"

lemma look_alt_return_number: "nm \<noteq> ''nlabel'' \<Longrightarrow> look (alt_return_number k args) nm = None"
  by (induction k args rule: alt_return_number.induct) auto

lemma look_own_attribs:
  assumes "own_attribs E h e = Inr cs" "nm \<in> {''paren'', ''unparse''}"
  shows "look cs nm = None"
  using assms
  by (cases e) (auto simp: attrib_defs attribSgValue_def attribSgVAL_def attribSgVAL_CHAR_def
      attribSgVAL_NO_STRING_def look_alt_return_number Let_def bind_res_eq_Inr
      split: if_splits option.splits)

lemma shape_paren: "expr_shape E h e ss ns \<Longrightarrow> \<not> has_expr_attribs e \<Longrightarrow> \<not> h_paren h"
  by (cases e) auto

lemma look_paren:
  assumes "attribs_expr E n e = Inr cs" "expr_shape E (hd_of n) e ss ns"
  shows "look cs ''paren'' = (if h_paren (hd_of n) then Some (show_bool True) else None)"
    "look cs ''unparse'' = None"
proof -
  obtain own gen where own: "own_attribs E (hd_of n) e = Inr own" and cs: "cs = own @ gen"
    and gen: "generic gen"
    and paren: "look gen ''paren'' = (if has_expr_attribs e \<and> h_paren (hd_of n) then Some (show_bool True) else None)"
    using attribs_expr_Inr [OF assms(1)] by blast
  show "look cs ''paren'' = (if h_paren (hd_of n) then Some (show_bool True) else None)"
    using look_own_attribs [OF own] paren shape_paren [OF assms(2)] by (simp add: cs)
  show "look cs ''unparse'' = None"
    using look_own_attribs [OF own] gen by (simp add: cs)
qed

lemma look_name_other: "k \<noteq> nm \<Longrightarrow> look (name_attr nm s t) k = None"
  by (simp add: name_attr_def)

text \<open>The label in the attribute of that name; a label statement has its own.\<close>

definition stmt_label :: "stmtcls \<Rightarrow> hdr \<Rightarrow> int option" where
  "stmt_label s h = (case s of LabelStatement nm \<Rightarrow> None | _ \<Rightarrow> h_label h)"

lemma look_label_of_stmt:
  "look (attribs_stmt E n s) ''label'' = map_option show_int (stmt_label s (hd_of n))"
  by (cases s) (simp_all add: stmt_label_def attrib_stmt_defs look_decl_rest look_name_other split: option.splits)

lemma look_unparse_of_stmt: "look (attribs_stmt E n s) ''unparse'' = None"
  by (cases s) (simp_all add: attrib_stmt_defs look_decl_rest look_name_other split: option.splits)

lemma look_lsupp: "look (attribs_lsupp E n s) ''unparse'' = None"
  by (cases s) (simp_all add: attribSgCommonBlockObject_def attribSgRenamePair_def
      attribSgInitializedName_def attribSgInterfaceBody_def opt_def split: option.splits)

text \<open>The four checks after a handler, on a located node and on another one.\<close>

lemma getFlag_written:
  "look cs nm = (if b then Some (show_bool True) else None) \<Longrightarrow> getFlag (decode_attrs cs) nm False = Inr b"
  by (simp add: getFlag_look)

lemma checkExpression_written:
  assumes "look cs ''paren'' = (if b then Some (show_bool True) else None)"
  shows "checkExpression (decode_attrs cs) (Node h (SgExpr e) ss ns) =
    Inr (Node (h\<lparr>h_paren := b\<rparr>) (SgExpr e) ss ns)"
  using assms by (simp add: checkExpression_def getFlag_written)

lemma checkStatement_written:
  assumes "look cs ''label'' = map_option show_int l" "\<And>v. l = Some v \<Longrightarrow> int32 v \<and> np \<noteq> NoParent"
  shows "checkStatement np (decode_attrs cs) (Node h (SgStmt s) ss ns) =
    Inr (Node (case l of None \<Rightarrow> h | Some v \<Rightarrow> h\<lparr>h_label := Some v\<rparr>) (SgStmt s) ss ns)"
  using assms by (cases l) (simp_all add: checkStatement_def look_access)

lemma checkLocatedNode_written:
  assumes "look cs ''unparse'' = None" "located c"
  shows "checkLocatedNode (decode_attrs (cs @ only u [flag ''unparse'' False sp])) (Node h c ss ns) =
    Inr (Node (h\<lparr>h_file := Some (if u then generated else transformation)\<rparr>) c ss ns)"
  using assms by (simp add: checkLocatedNode_def getFlag_look)

lemma unparse_attr_only:
  "unparse_attr par n = only (in_block par \<and> h_compgen (hd_of n)) [flag ''unparse'' False sp]"
  by (cases par) (auto simp: unparse_attr_def in_block_def is_block_def compgen_def h_compgen_def)

subsection \<open>One node\<close>

lemma handler_reads:
  assumes shape: "shape E n" and attrs: "attribs E n = Inr cs" and ix: "index_ok E n"
    and kids: "nodes ks = map (canon E (is_block (cls n))) (in_order (cls n) (visited E n))" "blank_kids ks"
    and k0: "\<not> located (cls n) \<Longrightarrow> KNull \<notin> set ks"
    and u: "\<not> located (cls n) \<Longrightarrow> unparse_attr par n = []"
  shows "handler (cls n) E \<sigma> (decode_attrs (cs @ unparse_attr par n)) ks =
    Inr (Node (built_hdr (cls n) (hd_of n)) (cls n)
      (map (map_option (canon E (is_block (cls n)))) (succ n))
      (map (map_option (canon E (is_block (cls n)))) (inner n)))"
proof -
  obtain h c ss ns where n: "n = Node h c ss ns" by (cases n)
  have l: "listed c" using attrs by (simp add: attribs_def n split: if_splits)
  show ?thesis
  proof (cases c)
    case (SgExpr e)
    then show ?thesis
      using shape attrs kids l
      by (auto simp: n shape_def handler_def attribs_def built_hdr_def unparse_attr_only visited_def
          emit_expr_def visitSuccessors_def inodes_def intro!: read_expr)
  next
    case (SgStmt s)
    have b: "isIO (SgStmt s) \<Longrightarrow> keeps_args (canon E (is_block (SgStmt s)))"
      by (cases s) (simp_all add: keeps_args_canon is_block_def)
    show ?thesis
      using shape attrs kids l SgStmt b
      by (auto simp: n shape_def handler_def attribs_def built_hdr_def unparse_attr_only visited_def
          emit_stmt_def visitSuccessors_def inodes_def intro!: read_stmt)
  next
    case (SgType t)
    have "canon E (is_block (SgType t)) (copy_index x) = canon E (is_block (SgType t)) x"
      if x: "slot 2 ns = Some x" for x
    proof -
      have "\<exists>r. t = ArrayType r"
        using shape x SgType by (cases t) (auto simp: shape_def n)
      then show ?thesis using ix x SgType by (auto simp: index_ok_def n is_block_def)
    qed
    then show ?thesis
      using shape attrs kids l SgType k0 u
      by (auto simp: n shape_def handler_def attribs_def built_hdr_def visited_def
          visitSuccessors_def inodes_def intro!: read_type)
  next
    case (SgSupp s)
    then show ?thesis
      using shape attrs kids l u
      by (auto simp: n shape_def handler_def attribs_def built_hdr_def visited_def
          visitSuccessors_def inodes_def intro!: read_supp)
  next
    case (SgLSup s)
    then show ?thesis
      using shape attrs kids l
      by (auto simp: n shape_def handler_def attribs_def built_hdr_def unparse_attr_only visited_def
          visitSuccessors_def inodes_def intro!: read_lsupp)
  qed
qed


lemma finish_reads:
  assumes ok: "node_ok E par np n" and attrs: "attribs E n = Inr cs"
    and ppi: "located (cls n) \<Longrightarrow> checkPreprocInfo ks = Inr (removeIncludeDirectives E n)"
  shows "finish E np (decode_attrs (cs @ unparse_attr par n)) ks
      (Node (built_hdr (cls n) (hd_of n)) (cls n) ss' ns') =
    Inr (Node (canon_hdr E (in_block par) (hd_of n) (cls n)) (cls n) ss' ns')"
proof -
  obtain h c ss ns where n: "n = Node h c ss ns" by (cases n)
  note sh = ok [unfolded node_ok_def, THEN conjunct2, THEN conjunct2, THEN conjunct2, THEN conjunct2, THEN conjunct1]
  have np: "np \<noteq> NoParent \<or> isSgType n \<or> isSgSourceFile n" and lf: "label_fits np n"
    using ok by (simp_all add: node_ok_def)
  have l: "listed c" using attrs by (simp add: attribs_def n split: if_splits)
  let ?A = "decode_attrs (cs @ unparse_attr par n)"
  show ?thesis
  proof (cases c)
    case (SgExpr e)
    have e: "attribs_expr E n e = Inr cs" "expr_shape E h e ss ns"
      using attrs sh SgExpr l by (simp_all add: attribs_def shape_def n)
    have "look (cs @ unparse_attr par n) ''paren'' = (if h_paren h then Some (show_bool True) else None)"
      using look_paren [of E n e cs ss ns] e by (simp add: n unparse_attr_only)
    then show ?thesis
      using look_paren(2) [of E n e cs ss ns] e ppi np SgExpr
      by (simp add: n finish_def attach_ppi_def built_hdr_def hdr0_def checkExpression_written
          checkStatement_def checkDeclStmt_other unparse_attr_only checkLocatedNode_written canon_hdr_def
          canon_mods_def removeIncludeDirectives_def)
  next
    case (SgStmt s)
    have s: "cs = attribs_stmt E n s" using attrs SgStmt l by (simp add: attribs_def n)
    let ?l = "stmt_label s h"
    have "look (cs @ unparse_attr par n) ''label'' = map_option show_int ?l"
      by (cases ?l) (simp_all add: s look_label_of_stmt unparse_attr_only n)
    moreover have "\<And>v. ?l = Some v \<Longrightarrow> int32 v \<and> np \<noteq> NoParent"
      using lf SgStmt by (auto simp: label_fits_def stmt_label_def n split: stmtcls.splits option.splits)
    ultimately have st: "checkStatement np ?A (Node h' (SgStmt s) ss' ns') =
        Inr (Node (case ?l of None \<Rightarrow> h' | Some v \<Rightarrow> h'\<lparr>h_label := Some v\<rparr>) (SgStmt s) ss' ns')" for h'
      by (rule checkStatement_written)
    have de: "checkDeclStmt E ?A (Node h' (SgStmt s) ss' ns') =
        Inr (Node (h'\<lparr>h_mods := canon_mods E h (SgStmt s)\<rparr>) (SgStmt s) ss' ns')" if "h_mods h' = None" for h'
    proof (cases "c_Declaration (SgStmt s)")
      case True
      then obtain d where d: "s = Declaration d" by (cases s) simp_all
      moreover have "mods_ok E n d" using ok SgStmt d by (simp add: node_ok_def mods_fit_def n)
      ultimately show ?thesis
        using checkDeclStmt_written [of E n d _ h' ss' ns'] s by (simp add: unparse_attr_only n)
    next
      case False
      moreover have "canon_mods E h (SgStmt s) = None" using False by (cases s) (simp_all add: canon_mods_def)
      ultimately show ?thesis using that by (cases h') (simp add: checkDeclStmt_other)
    qed
    have lo: "checkLocatedNode ?A (Node h' (SgStmt s) ss' ns') =
        Inr (Node (h'\<lparr>h_file := Some (if in_block par \<and> h_compgen h then generated else transformation)\<rparr>) (SgStmt s) ss' ns')" for h'
      using checkLocatedNode_written [OF look_unparse_of_stmt [of E n s]] by (simp add: s unparse_attr_only n)
    have bh: "(case ?l of None \<Rightarrow> stmt_hdr s h | Some v \<Rightarrow> (stmt_hdr s h)\<lparr>h_label := Some v\<rparr>) = hdr0\<lparr>h_label := h_label h\<rparr>"
      by (cases s; cases "h_label h"; simp add: stmt_label_def hdr0_def)
    have bh': "h_ppi (stmt_hdr s h) = [] \<and> h_mods (stmt_hdr s h) = None"
      by (cases s) (simp_all add: hdr0_def)
    then have bp: "(case ?l of None \<Rightarrow> (stmt_hdr s h)\<lparr>h_ppi := ps\<rparr> | Some v \<Rightarrow> (stmt_hdr s h)\<lparr>h_ppi := ps, h_label := Some v\<rparr>) =
        hdr0\<lparr>h_label := h_label h, h_ppi := ps\<rparr>" for ps
      by (cases s; cases "h_label h"; simp add: stmt_label_def hdr0_def)
    show ?thesis
      using ppi np SgStmt bh'
      by (simp add: n finish_def attach_ppi_def built_hdr_def checkExpression_def st [unfolded n SgStmt]
          de [unfolded n SgStmt] lo [unfolded n SgStmt] bp canon_hdr_def
          removeIncludeDirectives_def hdr0_def)
  next
    case (SgType t)
    then show ?thesis
      by (simp add: n finish_def checkExpression_def checkStatement_def checkDeclStmt_other canon_mods_def checkLocatedNode_def
          built_hdr_def hdr0_def canon_hdr_def attach_ppi_def)
  next
    case (SgSupp s)
    then show ?thesis using np
      by (cases s) (simp_all add: n finish_def checkExpression_def checkStatement_def checkDeclStmt_other canon_mods_def
          checkLocatedNode_def built_hdr_def hdr0_def canon_hdr_def attach_ppi_def)
  next
    case (SgLSup s)
    then have "cs = attribs_lsupp E n s" using attrs l by (simp add: attribs_def n)
    then show ?thesis using ppi np SgLSup look_lsupp [of E n s]
      by (simp add: n finish_def checkExpression_def checkStatement_def checkDeclStmt_other canon_mods_def attach_ppi_def
          unparse_attr_only checkLocatedNode_written built_hdr_def hdr0_def canon_hdr_def
          removeIncludeDirectives_def)
  qed
qed

subsection \<open>The whole tree\<close>

text \<open>
  \<open>conveys E par np d n e\<close>: at depth \<open>d\<close> below \<open>par\<close> the writer prints for \<open>n\<close> the element \<open>e\<close>, and from
  every state the reader makes of \<open>e\<close> the normal form of \<open>n\<close>.
\<close>

definition conveys :: "'s rose \<Rightarrow> sgcls option \<Rightarrow> parent \<Rightarrow> nat \<Rightarrow> sgnode \<Rightarrow> xitem \<Rightarrow> bool" where
  "conveys E par np d n e \<longleftrightarrow>
     visit_sage E par d n = Inr [XText (indent d), e, XText newline] \<and>
     (\<exists>cs body. e = XElem (class_name (cls n)) cs body) \<and>
     (\<forall>\<sigma>. \<exists>\<sigma>'. visit_xml E np (dom_of e) \<sigma> = Inr (KNode (canon E (in_block par) n), \<sigma>'))"

definition body_of :: "'s rose \<Rightarrow> nat \<Rightarrow> sgnode \<Rightarrow> xitem list \<Rightarrow> xitem list option" where
  "body_of E d n es =
     (if hasInode E n
      then Some (XText newline # concat (map (\<lambda>e. [XText (indent (Suc d)), e, XText newline]) es)
             @ writePreprocessingInfo E n @ [XText (indent d)])
      else None)"

definition ppis :: "'s rose \<Rightarrow> sgnode \<Rightarrow> ppinfo list" where
  "ppis E n = (if located (cls n) then removeIncludeDirectives E n else [])"

lemma writes_ppis: "writePreprocessingInfo E n = concat (map ppi_item (ppis E n))"
  by (simp add: writePreprocessingInfo_def ppis_def)

lemma elements_of_ppis: "filter is_element (map dom_of (concat (map ppi_item ps))) = map ppi_dom ps"
  by (induction ps) (simp_all add: dom_ppi_item)

lemma elements_of_body:
  assumes "\<And>e. e \<in> set es \<Longrightarrow> is_element (dom_of e)" "hasInode E n \<or> es = []"
  shows "filter is_element (case body_of E d n es of None \<Rightarrow> [] | Some xs \<Rightarrow> merge_text (map dom_of xs)) =
    map dom_of es @ map ppi_dom (if hasInode E n then ppis E n else [])"
proof -
  have "filter is_element (map dom_of (concat (map (\<lambda>e. [XText (indent (Suc d)), e, XText newline]) es))) =
      map dom_of es"
    using assms(1) by (induction es) auto
  then show ?thesis
    using assms(2) by (auto simp: body_of_def writes_ppis elements_of_ppis)
qed

lemma blank_texts_simps [simp]:
  "blank_texts []"
  "blank_texts (xs @ ys) \<longleftrightarrow> blank_texts xs \<and> blank_texts ys"
  "blank_texts (Element nm A ks # xs) \<longleftrightarrow> blank_texts xs"
  "blank_texts (TextNode s # xs) \<longleftrightarrow> blank s \<and> blank_texts xs"
  by (auto simp: blank_texts_def)

lemma blank_texts_ppis: "blank_texts (map dom_of (concat (map ppi_item ps)))"
  by (induction ps) (simp_all add: dom_ppi_item ppi_dom_def)

lemma blank_body:
  assumes "\<And>e. e \<in> set es \<Longrightarrow> is_element (dom_of e)"
  shows "blank_texts (case body_of E d n es of None \<Rightarrow> [] | Some xs \<Rightarrow> merge_text (map dom_of xs))"
proof -
  have "blank_texts (map dom_of (concat (map (\<lambda>e. [XText (indent d), e, XText newline]) es)))" for d
    using assms
  proof (induction es)
    case (Cons e es)
    then have "is_element (dom_of e)" by simp
    then show ?case using Cons by (cases "dom_of e") simp_all
  qed simp
  then show ?thesis
    by (auto simp: body_of_def writes_ppis blank_texts_ppis intro!: blank_texts_merge
        simp del: merge_text.simps)
qed

lemma no_ppis_without_body: "\<not> hasInode E n \<Longrightarrow> ppis E n = []"
  by (auto simp: hasInode_def hasPreprocessingInfo_def ppis_def removeIncludeDirectives_def)

lemma ignored_decl_childless:
  assumes "decl_shape E d ss ns" "ignores_children E \<sigma> (decl d) (decode_attrs (attribs_decl E n d @ only u [flag ''unparse'' False sp]))"
  shows "the_list ss = [] \<and> inode_decl E n d = []"
proof (cases d)
  case (ClassDeclaration nm t un au)
  then show ?thesis
    using assms by (cases un; cases au) (simp_all add: ignores_children_def attribSgClassDeclaration_def look_access)
qed (use assms in \<open>simp_all add: ignores_children_def\<close>)

lemma ignored_childless:
  assumes "shape E n" "attribs E n = Inr cs" "ignores_children E \<sigma> (cls n) (decode_attrs (cs @ unparse_attr par n))"
  shows "visited E n = []"
proof -
  obtain h c ss ns where n: "n = Node h c ss ns" by (cases n)
  show ?thesis
  proof (cases "c_Declaration c")
    case True
    then obtain d where c: "c = decl d" by (cases c rule: c_Declaration.cases) simp_all
    moreover have "listed c" using assms(2) by (simp add: attribs_def n split: if_splits)
    ultimately show ?thesis
      using assms ignored_decl_childless [of E d ss ns \<sigma> n]
      by (simp add: n shape_def attribs_def unparse_attr_only visited_def visitSuccessors_def inodes_def)
  next
    case False
    then show ?thesis
      using assms(1,3) unfolding n
      by (cases c; (rename_tac x, case_tac x))
        (auto simp: shape_def ignores_children_def visited_def visitSuccessors_def inodes_def
          inode_defs inode_type_defs slot_def)
  qed
qed

text \<open>One pass over the children, of the names \<open>sel\<close>.\<close>

definition selected :: "(string \<Rightarrow> bool) \<Rightarrow> sgnode list \<Rightarrow> sgnode list" where
  "selected sel xs = filter (\<lambda>x. sel (class_name (cls x))) xs"

lemma picks_elements: "filter (picks sel) (filter is_element ds) = filter (picks sel) ds"
proof -
  have "is_element d" if "picks sel d" for d using that by (cases d) simp_all
  then show ?thesis by (auto simp: filter_filter intro: filter_cong)
qed

lemma picks_nodes:
  assumes "\<And>x. x \<in> set xs \<Longrightarrow> \<exists>A ks. dom_of (el x) = Element (class_name (cls x)) A ks"
  shows "filter (picks sel) (map (\<lambda>x. dom_of (el x)) xs) = map (\<lambda>x. dom_of (el x)) (selected sel xs)"
  using assms by (induction xs) (fastforce simp: selected_def)+

lemma visits_children:
  assumes kids: "\<forall>x \<in> set (selected sel (visited E n)). conveys E (Some (cls n)) np d x (el x)"
    and heads: "\<forall>x \<in> set (visited E n). \<exists>A ks. dom_of (el x) = Element (class_name (cls x)) A ks"
    and np: "located (cls n) \<longrightarrow> np \<noteq> NoParent"
    and body: "hasInode E n \<or> visited E n = []" and shape: "shape E n"
    and A: "ds = (case body_of E d' n (map el (visited E n)) of None \<Rightarrow> [] | Some xs \<Rightarrow> merge_text (map dom_of xs))"
  shows "\<exists>ks s'. visit_kids E (proto (cls n)) sel np ds s = Inr (ks, s') \<and>
    nodes ks = map (canon E (is_block (cls n))) (selected sel (visited E n)) \<and> blank_kids ks \<and>
    (\<not> located (cls n) \<longrightarrow> KNull \<notin> set ks)"
proof -
  let ?f = "canon E (is_block (cls n))" and ?ps = "ppis E n" and ?xs = "selected sel (visited E n)"
  let ?qs = "if sel ''PreprocessingInfo'' then ?ps else []"
  have conv: "\<exists>\<sigma>'. visit_xml E np (dom_of (el x)) \<sigma> = Inr (KNode (?f x), \<sigma>')" if "x \<in> set ?xs" for x \<sigma>
    using kids that by (auto simp: conveys_def in_block_def)
  have el: "is_element (dom_of (el x))" if "x \<in> set (visited E n)" for x
    using heads that by auto
  have picked: "picks sel (dom_of (el x))" if "x \<in> set ?xs" for x
    using heads that by (auto simp: selected_def)
  have ps: "(if hasInode E n then ?ps else []) = ?ps"
    using no_ppis_without_body [of E n] by simp
  have "filter is_element ds = map (\<lambda>x. dom_of (el x)) (visited E n) @ map ppi_dom ?ps"
    using elements_of_body [of "map el (visited E n)" E n d'] el body ps by (auto simp: A comp_def)
  then have ds: "filter (picks sel) ds = map (\<lambda>x. dom_of (el x)) ?xs @ filter (picks sel) (map ppi_dom ?ps)"
    using picks_nodes [of "visited E n" el sel] heads by (metis filter_append picks_elements)
  have bt: "blank_texts ds"
    using blank_body [of "map el (visited E n)" E d' n] el by (auto simp: A)
  obtain s1 where s1: "visit_kids E (proto (cls n)) sel np (filter (picks sel) ds) s =
      bind_res (visit_kids E (proto (cls n)) sel np (filter (picks sel) (map ppi_dom ?ps)) s1)
        (\<lambda>(ks, s). Inr (map (KNode \<circ> ?f) ?xs @ ks, s))"
    using visit_kids_nodes [of ?xs E np "\<lambda>x. dom_of (el x)" ?f sel "proto (cls n)"] conv picked
    unfolding ds by blast
  obtain s2 where s2: "visit_kids E (proto (cls n)) sel np (filter (picks sel) (map ppi_dom ?ps)) s1 =
      Inr (map (\<lambda>_. KNull) ?qs, s2)"
    using visit_kids_ppi [of np E "proto (cls n)" sel ?ps s1] np
    by (cases "located (cls n)") (auto simp: ppis_def)
  obtain ks where ks: "visit_kids E (proto (cls n)) sel np ds s = Inr (ks, s2)"
    "filter shown ks = filter shown (map (KNode \<circ> ?f) ?xs @ map (\<lambda>_. KNull) ?qs)"
    "\<forall>t. KText t \<in> set ks \<longrightarrow> TextNode t \<in> set ds \<or>
       KText t \<in> set (map (KNode \<circ> ?f) ?xs @ map (\<lambda>_. KNull) ?qs)"
    using visit_kids_elements [of E "proto (cls n)" sel np ds s] s1 s2 by auto
  have n1: "nodes (map (KNode \<circ> ?f) xs @ map (\<lambda>_. KNull) ys) = map ?f xs" for xs and ys :: "ppinfo list"
  proof -
    have "nodes (map (\<lambda>_. KNull) ys) = []" by (induction ys) auto
    then show ?thesis by (induction xs) auto
  qed
  have "nodes ks = map ?f ?xs"
    using ks(2) n1 nodes_shown by metis
  moreover have "blank_kids ks"
    using ks(3) bt by (auto simp: blank_kids_def blank_texts_def)
  moreover have "KNull \<notin> set ks" if "\<not> located (cls n)"
    using arg_cong [OF ks(2), of set] that by (auto simp: ppis_def)
  ultimately show ?thesis using ks(1) by blast
qed

lemma mapR_items:
  "(\<And>x. x \<in> set xs \<Longrightarrow> g x = Inr [XText i, el x, XText newline]) \<Longrightarrow>
     mapR g xs = Inr (map (\<lambda>x. [XText i, el x, XText newline]) xs)"
  by (rule mapR_Inr)

lemma reads_ppis:
  assumes kids: "\<And>x. x \<in> set (visited E n) \<Longrightarrow> conveys E (Some (cls n)) (child_parent np (cls n) x) d x (el x)"
    and ok: "node_ok E par np n" and l: "located (cls n)"
    and A: "ds = (case body_of E d' n (map el (visited E n)) of None \<Rightarrow> [] | Some xs \<Rightarrow> merge_text (map dom_of xs))"
  shows "checkPreprocInfo ds = Inr (removeIncludeDirectives E n)"
proof -
  have el: "\<exists>nm A ks. dom_of (el x) = Element nm A ks \<and> nm \<noteq> ''PreprocessingInfo''"
    if "x \<in> set (visited E n)" for x
    using kids [OF that] class_name_not_ppi by (auto simp: conveys_def)
  have p: "list_all ppi_ok (ppis E n)" and body: "hasInode E n \<or> visited E n = []"
    using ok l by (simp_all add: node_ok_def ppis_def)
  have "filter is_element ds = map dom_of (map el (visited E n)) @ map ppi_dom (ppis E n)"
    using elements_of_body [of "map el (visited E n)" E n d'] el body no_ppis_without_body [of E n]
    by (fastforce simp: A)
  then have "checkPreprocInfo ds = checkPreprocInfo (map dom_of (map el (visited E n)) @ map ppi_dom (ppis E n))"
    by (metis checkPreprocInfo_elements)
  also have "\<dots> = checkPreprocInfo (map ppi_dom (ppis E n))"
    using el by (intro checkPreprocInfo_skip) auto
  also have "\<dots> = Inr (ppis E n)" using p by (rule checkPreprocInfo_ppi)
  finally show ?thesis using l by (simp add: ppis_def)
qed

text \<open>What \<open>visit_xml\<close> does before it calls the handler.\<close>

definition children :: "'s rose \<Rightarrow> parent \<Rightarrow> sgcls \<Rightarrow> string \<Rightarrow> attrs \<Rightarrow> dom list \<Rightarrow> 's \<Rightarrow> (kid list \<times> 's) res" where
  "children E np c nm A ds \<sigma> =
     (if ignores_children E \<sigma> c A then Inr ([], \<sigma>)
      else if c_ClassDefinition c \<and> np \<noteq> ClassDecl
      then Inl (Fatal ''SgClassDefinition's parent must to be SgClassDeclaration'')
      else if c_Function c
      then bind_res (visit_kids E c (\<lambda>x. \<not> body_element x) (gives_parent np c) ds (operands0, \<sigma>)) (\<lambda>(hd, v, \<sigma>).
           bind_res (visit_kids E c body_element OtherParent ds
                      (operands0, r_declare E nm A (nodes hd) \<sigma>)) (\<lambda>(bd, v, \<sigma>).
             Inr (hd @ bd, \<sigma>)))
      else bind_res (visit_kids E c (\<lambda>x. True) (gives_parent np c) ds (operands0, around E c nm A \<sigma>))
             (\<lambda>(kids, v, \<sigma>). Inr (kids, if opens_scope c then r_pop E \<sigma> else \<sigma>)))"

lemma visit_xml_children:
  "class_of nm = Some c \<Longrightarrow> visit_xml E np (Element nm A ds) \<sigma> =
     bind_res (children E np c nm A ds \<sigma>) (\<lambda>(kids, \<sigma>). bind_res (handler c E \<sigma> A kids) (\<lambda>n.
       bind_res (finish E np A ds n) (\<lambda>n. Inr (KNode n, r_built E n \<sigma>))))"
  by (simp add: children_def)

lemma blank_kids_append [simp]: "blank_kids (ks @ ls) \<longleftrightarrow> blank_kids ks \<and> blank_kids ls"
  by (auto simp: blank_kids_def)

lemma children_visited:
  assumes kids: "\<And>x. x \<in> set (visited E n) \<Longrightarrow>
      conveys E (Some (cls n)) (child_parent np (cls n) x) d x (el x)"
    and ok: "node_ok E par np n" and cs: "attribs E n = Inr cs" and A: "A = decode_attrs (cs @ unparse_attr par n)"
    and ds: "ds = (case body_of E d' n (map el (visited E n)) of None \<Rightarrow> [] | Some xs \<Rightarrow> merge_text (map dom_of xs))"
  shows "\<exists>ks \<sigma>'. children E np (proto (cls n)) nm A ds \<sigma> = Inr (ks, \<sigma>') \<and>
    nodes ks = map (canon E (is_block (cls n))) (in_order (cls n) (visited E n)) \<and> blank_kids ks \<and>
    (\<not> located (cls n) \<longrightarrow> KNull \<notin> set ks)"
proof (cases "ignores_children E \<sigma> (cls n) A")
  case True
  then have "visited E n = []" using ok cs ignored_childless [of E n cs \<sigma> par] by (simp add: node_ok_def A)
  then show ?thesis using True by (simp add: children_def blank_kids_def in_order_def)
next
  case False
  have body: "hasInode E n \<or> visited E n = []" and shp: "shape E n"
    and cd: "c_ClassDefinition (cls n) \<longrightarrow> np = ClassDecl"
    and np: "np \<noteq> NoParent \<or> \<not> located (cls n)"
    using ok by (auto simp: node_ok_def test_cls elim!: isSgSourceFile.elims)
  have heads: "\<forall>x \<in> set (visited E n). \<exists>A ks. dom_of (el x) = Element (class_name (cls x)) A ks"
    using kids by (fastforce simp: conveys_def)
  have gp: "located (cls n) \<longrightarrow> gives_parent np (cls n) \<noteq> NoParent"
    using np gives_parent_located by auto
  note pass = visits_children [OF _ heads _ body shp ds]
  show ?thesis
  proof (cases "c_Function (cls n)")
    case fn: True
    then have l: "located (cls n)" by (cases "cls n" rule: c_Function.cases) simp_all
    let ?hd = "\<lambda>x. \<not> body_element x"
    have sel: "selected ?hd xs = filter (\<lambda>x. \<not> is_body x) xs" "selected body_element xs = filter is_body xs" for xs
      by (simp_all add: selected_def body_element_iff)
    have k1: "\<forall>x \<in> set (selected ?hd (visited E n)). conveys E (Some (cls n)) (gives_parent np (cls n)) d x (el x)"
      using kids fn by (fastforce simp: sel child_parent_def)
    have k2: "\<forall>x \<in> set (selected body_element (visited E n)). conveys E (Some (cls n)) OtherParent d x (el x)"
      using kids fn by (fastforce simp: sel child_parent_def)
    obtain k1 s1 where 1: "visit_kids E (proto (cls n)) ?hd (gives_parent np (cls n)) ds (operands0, \<sigma>) = Inr (k1, s1)"
      "nodes k1 = map (canon E (is_block (cls n))) (selected ?hd (visited E n))" "blank_kids k1"
      using pass [OF k1 gp] by blast
    obtain k2 s2 where 2: "visit_kids E (proto (cls n)) body_element OtherParent ds
        (operands0, r_declare E nm A (nodes k1) (snd s1)) = Inr (k2, s2)"
      "nodes k2 = map (canon E (is_block (cls n))) (selected body_element (visited E n))" "blank_kids k2"
      using pass [OF k2] by blast
    have "c_ClassDefinition (cls n) = False" using fn by (cases "cls n" rule: c_Function.cases) simp_all
    then show ?thesis
      using False fn 1 2 l by (cases s1; cases s2) (auto simp: children_def in_order_def sel)
  next
    case nf: False
    have all: "selected (\<lambda>x. True) xs = xs" for xs by (simp add: selected_def)
    have k: "\<forall>x \<in> set (selected (\<lambda>x. True) (visited E n)). conveys E (Some (cls n)) (gives_parent np (cls n)) d x (el x)"
      using kids nf by (fastforce simp: all child_parent_def)
    obtain ks s' where ks: "visit_kids E (proto (cls n)) (\<lambda>x. True) (gives_parent np (cls n)) ds
        (operands0, around E (cls n) nm A \<sigma>) = Inr (ks, s')"
      "nodes ks = map (canon E (is_block (cls n))) (visited E n)" "blank_kids ks"
      "\<not> located (cls n) \<longrightarrow> KNull \<notin> set ks"
      using pass [OF k gp, unfolded all] by blast
    then show ?thesis using False nf cd by (cases s') (auto simp: children_def)
  qed
qed

lemma node_conveys:
  assumes ok: "node_ok E par np n"
    and kids: "\<And>x. x \<in> set (visited E n) \<Longrightarrow>
      conveys E (Some (cls n)) (child_parent np (cls n) x) (Suc d) x (el x)"
    and cs: "attribs E n = Inr cs"
  shows "conveys E par np d n
    (XElem (class_name (cls n)) (cs @ unparse_attr par n) (body_of E d n (map el (visited E n))))"
    (is "conveys _ _ _ _ _ (XElem _ ?cs ?body)")
proof -
  obtain h c ss ns where n: "n = Node h c ss ns" by (cases n)
  have here: "isInSameFile E par n = Inr True" "\<not> (r_skip E \<and> compgen n)" and shp: "shape E n"
    and l: "listed (cls n)" and ix: "index_ok E n" and body: "hasInode E n \<or> visited E n = []"
    and u: "\<not> located (cls n) \<Longrightarrow> unparse_attr par n = []" and nm: "\<not> modifiers_visited E n"
    using ok by (simp_all add: node_ok_def)
  have "mapR (visit_sage E (Some (cls n)) (Suc d)) (visited E n) =
      Inr (map (\<lambda>x. [XText (indent (Suc d)), el x, XText newline]) (visited E n))"
    using kids by (intro mapR_items) (simp add: conveys_def)
  then have sage: "visit_sage E par d n =
      Inr [XText (indent d), XElem (class_name (cls n)) ?cs ?body, XText newline]"
    using here cs nm by (auto simp: visit_sage.simps [of E par d n] body_of_def comp_def
        Let_def visited_def [symmetric])
  define ds where "ds = (case ?body of None \<Rightarrow> [] | Some xs \<Rightarrow> merge_text (map dom_of xs))"
  have xml: "\<exists>\<sigma>'. visit_xml E np (Element (class_name (cls n)) (decode_attrs ?cs) ds) \<sigma> =
      Inr (KNode (canon E (in_block par) n), \<sigma>')" for \<sigma>
  proof -
    obtain ks \<sigma>1 where ks:
      "children E np (proto (cls n)) (class_name (cls n)) (decode_attrs ?cs) ds \<sigma> = Inr (ks, \<sigma>1)"
      "nodes ks = map (canon E (is_block (cls n))) (in_order (cls n) (visited E n))" "blank_kids ks"
      "\<not> located (cls n) \<Longrightarrow> KNull \<notin> set ks"
      using children_visited [OF kids ok cs refl ds_def] by blast
    have "handler (cls n) E \<sigma>1 (decode_attrs ?cs) ks =
        Inr (Node (built_hdr (cls n) (hd_of n)) (cls n)
          (map (map_option (canon E (is_block (cls n)))) (succ n))
          (map (map_option (canon E (is_block (cls n)))) (inner n)))"
      using handler_reads [OF shp cs ix ks(2,3) ks(4) u] by blast
    moreover have "finish E np (decode_attrs ?cs) ds (Node (built_hdr (cls n) (hd_of n)) (cls n) ss' ns') =
        Inr (Node (canon_hdr E (in_block par) (hd_of n) (cls n)) (cls n) ss' ns')" for ss' ns'
      using ok cs reads_ppis [OF kids ok _ ds_def] by (intro finish_reads) auto
    moreover have e: "class_of (class_name c) = Some (proto c)"
      using class_of_name [OF l] by (simp add: n)
    ultimately show ?thesis
      using ks(1) by (simp add: visit_xml_children [OF e] n del: visit_xml.simps)
  qed
  show ?thesis
    using sage xml by (simp add: conveys_def ds_def)
qed

theorem rt_conveys:
  assumes "rt E par np n"
  shows "\<exists>e. conveys E par np d n e"
  using assms
proof (induction E par np n arbitrary: d rule: rt.induct)
  case (1 E par np n)
  from "1.prems" have ok: "node_ok E par np n"
    and all: "list_all (\<lambda>x. rt E (Some (cls n)) (child_parent np (cls n) x) x) (visited E n)"
    by (simp_all add: rt.simps [of E par np n])
  have "\<forall>x \<in> set (visited E n). \<exists>e. conveys E (Some (cls n)) (child_parent np (cls n) x) (Suc d) x e"
    using "1.IH" all by (auto simp: list_all_iff)
  then obtain el where "\<And>x. x \<in> set (visited E n) \<Longrightarrow>
      conveys E (Some (cls n)) (child_parent np (cls n) x) (Suc d) x (el x)"
    by (metis bchoice)
  moreover obtain cs where "attribs E n = Inr cs"
    using ok by (cases "attribs E n") (auto simp: node_ok_def)
  ultimately show ?case using node_conveys [OF ok] by blast
qed

end
