(* ===== verification/Dispatch.thy ===== *)
theory Dispatch
  imports RoundTrip Samples
begin

text \<open>
  What \<open>XevXmlVisitor::visit\<close> makes of an element: a node of the class it is named after, or the end of
  the process.
\<close>


lemma class_name_cases:
  "class_name c = ''Sg'' @ sage_name c" by (simp add: class_name_def)

lemma io_statement_class: "io_statement k cs ks = Inr n \<Longrightarrow> cls n = SgStmt (IOStatement k)"
  by (auto simp: io_statement_def bind_res_eq_Inr)

lemma traverse_class: "cls (traverseStatementsAndTexts E c ks) = SgStmt c"
  by (simp add: traverseStatementsAndTexts_def attachRawText_def Let_def split: prod.splits)

lemma binary_handler_class: "visitSgBinaryOp op E \<sigma> A ks = Inr n \<Longrightarrow> cls n = SgExpr (BinaryOp op)"
  by (cases op) (auto simp: visitSgBinaryOp_def visitSgBOP_def visitSgPointerAssignOp_def visitSgDotExp_def
      visitSgArrowExp_def Let_def split: if_splits option.splits)

lemma expr_handler_class: "expr_handler e E \<sigma> A ks = Inr n \<Longrightarrow> \<exists>e'. cls n = SgExpr e' \<and> expr_name e' = expr_name e"
  by (cases e) (auto dest!: binary_handler_class simp: expr_defs visitSgUserDefinedUnaryOp_def visitSgValue_def visitSgVAL_def
      visitSgVAL_CHAR_def visitSgVAL_NO_STRING_def bind_res_eq_Inr need_eq_Inr Let_def split: if_splits option.splits)

text \<open>\<open>makes P r\<close>: a value of \<open>r\<close> has the property \<open>P\<close>, whatever happens on the way.\<close>

definition makes :: "('a \<Rightarrow> bool) \<Rightarrow> 'a res \<Rightarrow> bool" where
  "makes P r \<longleftrightarrow> (\<forall>n. r = Inr n \<longrightarrow> P n)"

lemma makes_simps:
  "makes P (Inl er)" "makes P (Inr n) \<longleftrightarrow> P n"
  "makes P (bind_res m k) \<longleftrightarrow> (\<forall>x. m = Inr x \<longrightarrow> makes P (k x))"
  "makes P (need msg v k) \<longleftrightarrow> (\<forall>x. v = Some x \<longrightarrow> makes P (k x))"
  by (cases m; cases v; simp add: makes_def)+

lemma decl_handler_makes:
  "makes (\<lambda>n. \<exists>d'. cls n = SgStmt (Declaration d') \<and> decl_name d' = decl_name d) (decl_handler d E \<sigma> A ks)"
  by (cases d; simp add: decl_defs makes_simps Let_def split: option.split attrkind.split prod.split bool.split)

lemma decl_handler_class: "decl_handler d E \<sigma> A ks = Inr n \<Longrightarrow> \<exists>d'. cls n = SgStmt (Declaration d') \<and> decl_name d' = decl_name d"
  using decl_handler_makes [of d E \<sigma> A ks] by (simp add: makes_def)

lemma stmt_handler_class: "stmt_handler e E \<sigma> A ks = Inr n \<Longrightarrow> \<exists>e'. cls n = SgStmt e' \<and> stmt_name e' = stmt_name e"
  by (cases e; auto simp: stmt_defs visitSgWhereStatement_def io_handler_statement traverse_class
      bind_res_eq_Inr need_eq_Inr Let_def dest: io_statement_class decl_handler_class split: if_splits option.splits)

lemma type_handler_class: "type_handler e E \<sigma> A ks = Inr n \<Longrightarrow> \<exists>e'. cls n = SgType e' \<and> type_name e' = type_name e"
  by (cases e) (auto simp: type_defs visitSgArrayType_def bind_res_eq_Inr need_eq_Inr Let_def
    simp del: split_paired_Ex split_paired_All split: if_splits option.splits)

lemma supp_handler_class: "supp_handler e E \<sigma> A ks = Inr n \<Longrightarrow> \<exists>e'. cls n = SgSupp e' \<and> supp_name e' = supp_name e"
  by (cases e; auto simp: supp_defs uninitialised_def bind_res_eq_Inr need_eq_Inr Let_def
      split: if_splits option.splits)

lemma lsupp_handler_class: "lsupp_handler e E \<sigma> A ks = Inr n \<Longrightarrow> \<exists>e'. cls n = SgLSup e' \<and> lsupp_name e' = lsupp_name e"
proof -
  have "makes (\<lambda>n. \<exists>e'. cls n = SgLSup e' \<and> lsupp_name e' = lsupp_name e) (lsupp_handler e E \<sigma> A ks)"
    by (cases e; simp add: supp_defs makes_simps Let_def split: option.split)
  moreover assume "lsupp_handler e E \<sigma> A ks = Inr n"
  ultimately show ?thesis by (simp add: makes_def)
qed

lemma handler_class: "handler c E \<sigma> A ks = Inr n \<Longrightarrow> class_name (cls n) = class_name c"
  by (cases c) (auto simp: handler_def class_name_def dest: expr_handler_class stmt_handler_class
      type_handler_class supp_handler_class lsupp_handler_class)

lemma checkDeclStmt_class: "checkDeclStmt E A n = Inr m \<Longrightarrow> cls m = cls n"
  by (cases n) (auto simp: checkDeclStmt_def bind_res_eq_Inr split: if_splits)

lemma check_class:
  "checkExpression A n = Inr m \<Longrightarrow> cls m = cls n"
  "checkStatement np A n = Inr m \<Longrightarrow> cls m = cls n"
  "cls (attach_ppi ps n) = cls n"
  by (cases n; auto simp: checkExpression_def checkStatement_def attach_ppi_def bind_res_eq_Inr
      split: if_splits)+

lemma checkLocatedNode_result:
  "checkLocatedNode A n = Inr m \<Longrightarrow> cls m = cls n \<and>
    (located (cls n) \<longrightarrow> h_file (hd_of m) \<in> {Some transformation, Some generated})"
  by (cases n) (auto simp: checkLocatedNode_def bind_res_eq_Inr split: if_splits)

lemma finish_result:
  assumes "finish E np A ks n = Inr m"
  shows "cls m = cls n" "located (cls n) \<Longrightarrow> h_file (hd_of m) \<in> {Some transformation, Some generated}"
    "np \<noteq> NoParent \<or> isSgType m \<or> isSgSourceFile m"
proof -
  obtain ps n1 n2 n3 where 1: "checkExpression A (attach_ppi ps n) = Inr n1" and 2: "checkStatement np A n1 = Inr n2"
    and d: "checkDeclStmt E A n2 = Inr n3" and 3: "checkLocatedNode A n3 = Inr m" and np: "np \<noteq> NoParent \<or> isSgType m \<or> isSgSourceFile m"
    using assms by (auto simp: finish_def no_parent_def bind_res_eq_Inr split: if_splits)
  have "cls n1 = cls n" "cls n2 = cls n1" "cls n3 = cls n2"
    using check_class(1) [OF 1] check_class(2) [OF 2] check_class(3) checkDeclStmt_class [OF d] by simp_all
  then show "cls m = cls n" "located (cls n) \<Longrightarrow> h_file (hd_of m) \<in> {Some transformation, Some generated}"
    using checkLocatedNode_result [OF 3] by simp_all
  show "np \<noteq> NoParent \<or> isSgType m \<or> isSgSourceFile m" by (rule np)
qed

lemma visit_element_result:
  assumes "visit_xml E np (Element nm A ks) \<sigma> = Inr (KNode n, \<sigma>')"
  shows "class_name (cls n) = nm \<and>
    (located (cls n) \<longrightarrow> h_file (hd_of n) \<in> {Some transformation, Some generated}) \<and>
    (np \<noteq> NoParent \<or> isSgType n \<or> isSgSourceFile n)"
proof (cases "class_of nm")
  case None
  then show ?thesis using assms by (auto simp: unknown_element_def no_parent_def split: if_splits)
next
  case (Some c)
  then obtain kids \<sigma>1 m where h: "handler c E \<sigma>1 A kids = Inr m" and f: "finish E np A ks m = Inr n"
    using assms by (auto simp: bind_res_eq_Inr)
  have "class_name c = nm" using class_of_listed [OF Some] by simp
  then show ?thesis using handler_class [OF h] finish_result [OF f] by simp
qed

text \<open>C4: the reader makes of an element a node of the class that the element is named after; a located one
  is a transformation or a generated node, and only a type or the source file may have no parent.\<close>
theorem reader_makes_named_class:
  assumes "visit_xml E np (Element nm A ks) \<sigma> = Inr (KNode n, \<sigma>')"
  shows "class_name (cls n) = nm \<and>
    (located (cls n) \<longrightarrow> h_file (hd_of n) \<in> {Some transformation, Some generated}) \<and>
    (np \<noteq> NoParent \<or> isSgType n \<or> isSgSourceFile n)"
  using assms by (rule visit_element_result)

lemma class_of_simps [simp]:
  "listed c \<Longrightarrow> class_of (class_name c) = Some (proto c)" by (rule class_of_name)

lemma named: "class_name c = nm \<Longrightarrow> listed c \<Longrightarrow> class_of nm = Some (proto c)"
  using class_of_name by blast

lemma class_of_named:
  "class_of ''SgNullStatement'' = Some (SgStmt NullStatement)"
  "class_of ''SgDotExp'' = Some (SgExpr (BinaryOp DotExp))"
  "class_of ''SgVarRefExp'' = Some (SgExpr (VarRefExp []))"
  "class_of ''SgTypeInt'' = Some (SgType TypeInt)"
  "class_of ''SgIntVal'' = Some (SgExpr (ValueExp IntVal 0 []))"
  "class_of ''SgModifierType'' = Some (SgType (ModifierType [] 0))"
  using named [of "SgStmt NullStatement"] named [of "SgExpr (BinaryOp DotExp)"] named [of "SgExpr (VarRefExp [])"]
    named [of "SgType TypeInt"] named [of "SgExpr (ValueExp IntVal 0 [])"] named [of "SgType (ModifierType [] 0)"]
  by (simp_all add: class_name_def listed_iff)

lemma class_of_prefix: "class_of nm = Some c \<Longrightarrow> take 2 nm = ''Sg''"
  using class_of_listed [of nm c] by (auto simp: class_name_def)

text \<open>an element whose name does not begin with \<open>Sg\<close>, other than \<open>PreprocessingInfo\<close>, ends the
  process, wherever it stands.\<close>
theorem foreign_element_fatal:
  assumes "take 2 nm \<noteq> ''Sg''" "nm \<noteq> ''PreprocessingInfo''"
  shows "visit_xml E np (Element nm A ks) \<sigma> = Inl (Fatal ''unknown AST node found'')"
proof -
  have "class_of nm = None" using class_of_prefix [of nm] assms(1) by (cases "class_of nm") auto
  moreover have "\<not> list_ex (\<lambda>n. nm = ''Sg'' @ n) sgnode_hpp" using assms(1) by (auto simp: list_ex_iff)
  ultimately show ?thesis using assms(2) by (simp add: unknown_element_def)
qed

lemma foreign_element_fatal_witness:
  "visit_xml rose_C OtherParent (Element ''svg'' [] []) () = Inl (Fatal ''unknown AST node found'')"
  by (rule foreign_element_fatal) simp_all

text \<open>a comment outside the root element, which XML allows, ends the process: below the document every
  child is visited, and only elements have a handler.\<close>
theorem document_comment_fatal:
  "visit_xml E np (Document (OtherNode # ds)) \<sigma> = Inl (Fatal ''unknown AST node found'')"
proof -
  have "\<not> list_ex (\<lambda>n. ''#comment'' = ''Sg'' @ n) sgnode_hpp" by (auto simp: list_ex_iff)
  then show ?thesis by (simp add: unknown_element_def)
qed


lemmas read_simps = class_of_named handler_def ignores_children_def finish_def around_def attach_ppi_def checkDeclStmt_def
  checkExpression_def checkStatement_def checkLocatedNode_def getFlag_def getNum_def hasAttr_def getStr_def
  member_access_def after_child_def operands0_def visitSgVarRefExp_def hdr0_def

lemma reader_makes_named_class_witness:
  "\<exists>n. visit_xml rose_C OtherParent (Element ''SgNullStatement'' [] []) () = Inr (KNode n, ()) \<and>
    class_name (cls n) = ''SgNullStatement''"
proof -
  obtain n s where v: "visit_xml rose_C OtherParent (Element ''SgNullStatement'' [] []) () = Inr (KNode n, s)"
    by (simp add: read_simps visitSgNullStatement_def)
  from reader_makes_named_class [OF v] v show ?thesis by simp
qed




end
