(* ===== verification/ScopeStack.thy ===== *)
theory ScopeStack
  imports Dispatch
begin

text \<open>
  The scope stack of \<open>SageBuilder\<close> while a document is read. What the stack promises is the locale
  \<open>scope_discipline\<close>.
\<close>

subsection \<open>What the stack promises\<close>

text \<open>
  \<open>view\<close> is the stack as a list of scopes: a push puts one on top, a pop takes it away, the scope of a
  class is a push, and declaring a name or building a node leaves the stack alone.
\<close>

locale scope_discipline =
  fixes E :: "'s rose" and view :: "'s \<Rightarrow> 'a list"
  assumes push: "tl (view (r_push E nm A \<sigma>)) = view \<sigma>"
    and pop: "view (r_pop E \<sigma>) = tl (view \<sigma>)"
    and class_scope: "r_class_scope E n \<sigma> = Some \<sigma>' \<Longrightarrow> tl (view \<sigma>') = view \<sigma>"
    and declared: "view (r_declare E nm A ns \<sigma>) = view \<sigma>"
    and built: "view (r_built E n \<sigma>) = view \<sigma>"

interpretation scope_names: scope_discipline rose_stack id
  by unfold_locales (auto simp: rose_stack_def)

text \<open>Every member access has its two operands as its only element children.\<close>

fun is_ppi :: "dom \<Rightarrow> bool" where
  "is_ppi (Element nm A ks) \<longleftrightarrow> nm = ''PreprocessingInfo''"
| "is_ppi d \<longleftrightarrow> False"

fun tidy :: "dom \<Rightarrow> bool" where
  "tidy (Element nm A ks) \<longleftrightarrow> list_all tidy ks \<and>
     (nm \<in> {''SgDotExp'', ''SgArrowExp''} \<longrightarrow>
       length (filter is_element ks) = 2 \<and> list_all (\<lambda>d. \<not> is_ppi d) ks)"
| "tidy (Document ks) \<longleftrightarrow> list_all tidy ks"
| "tidy d \<longleftrightarrow> True"

subsection \<open>The loops over the children\<close>

definition scopes_kept :: "'s rose \<Rightarrow> ('s \<Rightarrow> 'a list) \<Rightarrow> dom \<Rightarrow> bool" where
  "scopes_kept E view d \<longleftrightarrow> (\<forall>np \<sigma> k \<sigma>'. visit_xml E np d \<sigma> = Inr (k, \<sigma>') \<longrightarrow> view \<sigma>' = view \<sigma>)"

lemma scopes_kept_kids:
  assumes "\<not> member_access c" "\<And>d. d \<in> set ds \<Longrightarrow> scopes_kept E view d"
    "visit_kids E c sel np ds (v, \<sigma>) = Inr (kids, v', \<sigma>')"
  shows "view \<sigma>' = view \<sigma>"
  using assms(2,3)
proof (induction ds arbitrary: v \<sigma> kids)
  case (Cons d ds)
  show ?case
  proof (cases "picks sel d")
    case True
    then obtain k \<sigma>1 kids1 where 1: "visit_xml E np d \<sigma> = Inr (k, \<sigma>1)"
      and 2: "visit_kids E c sel np ds (after_child E c k (v, \<sigma>1)) = Inr (kids1, v', \<sigma>')"
      using Cons.prems(2) by (auto simp: visit_kids_Cons bind_res_eq_Inr)
    have "after_child E c k (v, \<sigma>1) = (v, \<sigma>1)" using assms(1) by (simp add: after_child_def)
    then have "view \<sigma>' = view \<sigma>1" using Cons.IH [of v \<sigma>1 kids1] Cons.prems(1) 2 by simp
    then show ?thesis using 1 Cons.prems(1) [of d] by (auto simp: scopes_kept_def)
  next
    case False
    then obtain kids1 where "visit_kids E c sel np ds (v, \<sigma>) = Inr (kids1, v', \<sigma>')"
      using Cons.prems(2) by (cases d) (auto simp: bind_res_eq_Inr)
    then show ?thesis using Cons.IH Cons.prems(1) by simp
  qed
qed simp

lemma visit_kids_filter:
  "visit_kids E c (\<lambda>x. True) np ds s = Inr (kids, s') \<Longrightarrow>
     visit_kids E c (\<lambda>x. True) np (filter is_element ds) s = Inr (filter shown kids, s')"
proof (induction ds arbitrary: s kids)
  case (Cons d ds)
  obtain v \<sigma> where s: "s = (v, \<sigma>)" by (cases s)
  show ?case
  proof (cases "is_element d")
    case True
    then have p: "picks (\<lambda>x. True) d" by (cases d) simp_all
    then obtain k \<sigma>1 kids1 where 1: "visit_xml E np d \<sigma> = Inr (k, \<sigma>1)" "kids = k # kids1"
      and 2: "visit_kids E c (\<lambda>x. True) np ds (after_child E c k (v, \<sigma>1)) = Inr (kids1, s')"
      using Cons.prems s by (auto simp: visit_kids_Cons bind_res_eq_Inr)
    moreover have "shown k"
      using 1(1) True
      by (cases d) (auto simp: bind_res_eq_Inr no_parent_def unknown_element_def split: option.splits if_splits)
    ultimately show ?thesis using Cons.IH [OF 2] True p s by (simp add: visit_kids_Cons)
  next
    case False
    then show ?thesis using Cons by (cases d) (fastforce simp: bind_res_eq_Inr)+
  qed
qed simp


text \<open>A member access with its two operands: what the first pushes the second pops.\<close>

lemma member_handler:
  "member_access c \<Longrightarrow> nodes kids = [n1, n2] \<Longrightarrow> handler c E \<sigma> A kids = Inr n \<Longrightarrow> isSgExpression n1"
  by (auto simp: member_access_def handler_def visitSgBinaryOp_def visitSgDotExp_def visitSgArrowExp_def
      fill_def Let_def split: option.splits if_splits)

lemma element_gives_node:
  "visit_xml E np d \<sigma> = Inr (k, \<sigma>') \<Longrightarrow> is_element d \<Longrightarrow> \<not> is_ppi d \<Longrightarrow>
    \<exists>n. k = KNode n"
  by (cases d) (auto simp: bind_res_eq_Inr unknown_element_def split: option.splits if_splits)

context scope_discipline begin

lemma scopes_kept_operands:
  assumes c: "member_access c" and d: "filter is_element ds = [d1, d2]"
    and ppi: "\<not> is_ppi d1" "\<not> is_ppi d2"
    and lv: "scopes_kept E view d1" "scopes_kept E view d2"
    and v: "visit_kids E c (\<lambda>x. True) np ds (operands0, \<sigma>) = Inr (kids, v', \<sigma>')"
    and h: "handler c E \<sigma>2 A kids = Inr n"
  shows "view \<sigma>' = view \<sigma>"
proof -
  have el: "is_element d1" "is_element d2"
    using d by (metis filter_eq_ConsD, metis filter_eq_ConsD list.inject)
  then have p: "picks (\<lambda>x. True) d1" "picks (\<lambda>x. True) d2" by (cases d1; cases d2; simp)+
  have "visit_kids E c (\<lambda>x. True) np [d1, d2] (operands0, \<sigma>) = Inr (filter shown kids, v', \<sigma>')"
    using visit_kids_filter [OF v] d by simp
  then obtain k1 \<sigma>1 k2 \<sigma>3 v1 \<sigma>a where 1: "visit_xml E np d1 \<sigma> = Inr (k1, \<sigma>1)"
    and a: "after_child E c k1 (operands0, \<sigma>1) = (v1, \<sigma>a)"
    and 2: "visit_xml E np d2 \<sigma>a = Inr (k2, \<sigma>3)"
    and b: "after_child E c k2 (v1, \<sigma>3) = (v', \<sigma>')" and k: "filter shown kids = [k1, k2]"
    using p by (cases "after_child E c (fst (projr (visit_xml E np d1 \<sigma>))) (operands0, snd (projr (visit_xml E np d1 \<sigma>)))")
      (auto simp: visit_kids_Cons bind_res_eq_Inr)
  obtain n1 n2 where n: "k1 = KNode n1" "k2 = KNode n2"
    using element_gives_node [OF 1 el(1) ppi(1)] element_gives_node [OF 2 el(2) ppi(2)] by blast
  have "nodes kids = [n1, n2]" using k n nodes_shown [of kids] by simp
  then have e: "isSgExpression n1" using member_handler [OF c _ h] by blast
  have l: "view \<sigma>1 = view \<sigma>" "view \<sigma>3 = view \<sigma>a" using lv 1 2 by (auto simp: scopes_kept_def)
  show ?thesis
    using a b c e l n
    by (auto simp: after_child_def operands0_def push pop class_scope split: option.splits)
qed

lemma scopes_kept_children:
  assumes t: "tidy (Element nm A ks)" and c: "class_of nm = Some c"
    and kids: "\<And>d. d \<in> set ks \<Longrightarrow> scopes_kept E view d"
    and ch: "children E np c nm A ks \<sigma> = Inr (kids, \<sigma>1)" and h: "handler c E \<sigma>1 A kids = Inr m"
  shows "view \<sigma>1 = view \<sigma>"
proof (cases "member_access c")
  case True
  then have nm: "nm \<in> {''SgDotExp'', ''SgArrowExp''}"
    using class_of_listed [OF c] by (auto simp: member_access_def class_name_def)
  then obtain d1 d2 where d: "filter is_element ks = [d1, d2]"
    using t by (auto simp: length_Suc_conv numeral_2_eq_2)
  then have "set (filter is_element ks) = {d1, d2}" by simp
  then have m: "d1 \<in> set ks" "d2 \<in> set ks" by auto
  then have "\<not> is_ppi d1" "\<not> is_ppi d2"
    using t nm by (auto simp: list_all_iff)
  moreover obtain v' where "visit_kids E c (\<lambda>x. True) (gives_parent np c) ks (operands0, \<sigma>) = Inr (kids, v', \<sigma>1)"
    using ch True by (auto simp: children_def member_access_def ignores_children_def around_def bind_res_eq_Inr)
  ultimately show ?thesis
    using scopes_kept_operands [OF True d] kids m h by blast
next
  case False
  note pass = scopes_kept_kids [OF False kids]
  show ?thesis
  proof (cases "ignores_children E \<sigma> c A")
    case True
    then show ?thesis using ch by (simp add: children_def)
  next
    case seen: False
    show ?thesis
    proof (cases "c_Function c")
      case True
      then obtain hd v1 \<sigma>2 bd v2 where
        1: "visit_kids E c (\<lambda>x. \<not> body_element x) (gives_parent np c) ks (operands0, \<sigma>) = Inr (hd, v1, \<sigma>2)"
        and 2: "visit_kids E c body_element OtherParent ks (operands0, r_declare E nm A (nodes hd) \<sigma>2) = Inr (bd, v2, \<sigma>1)"
        using ch seen by (auto simp: children_def bind_res_eq_Inr split: if_splits)
      show ?thesis using pass [OF _ 1] pass [OF _ 2] by (simp add: declared)
    next
      case False
      then obtain v1 \<sigma>2 where
        1: "visit_kids E c (\<lambda>x. True) (gives_parent np c) ks (operands0, around E c nm A \<sigma>) = Inr (kids, v1, \<sigma>2)"
        and 2: "\<sigma>1 = (if opens_scope c then r_pop E \<sigma>2 else \<sigma>2)"
        using ch seen by (force simp: children_def bind_res_eq_Inr split: if_splits)
      have "view \<sigma>2 = view (around E c nm A \<sigma>)" using pass [OF _ 1] by simp
      then show ?thesis using 2 push pop declared by (simp add: around_def split: if_splits)
    qed
  qed
qed

lemma scopes_kept_tidy: "tidy d \<Longrightarrow> scopes_kept E view d"
proof (induction d)
  case (Element nm A ks)
  have kids: "scopes_kept E view d" if "d \<in> set ks" for d
    using Element that by (auto simp: list_all_iff)
  have "view \<sigma>' = view \<sigma>" if v: "visit_xml E np (Element nm A ks) \<sigma> = Inr (k, \<sigma>')" for np \<sigma> k \<sigma>'
  proof (cases "class_of nm")
    case None
    then show ?thesis using v by (auto simp: unknown_element_def no_parent_def split: if_splits)
  next
    case (Some c)
    obtain kids \<sigma>1 m n where ch: "children E np c nm A ks \<sigma> = Inr (kids, \<sigma>1)"
      and h: "handler c E \<sigma>1 A kids = Inr m" and s: "\<sigma>' = r_built E n \<sigma>1"
      using v by (auto simp: visit_xml_children [OF Some] bind_res_eq_Inr simp del: visit_xml.simps)
    show ?thesis
      using scopes_kept_children [OF Element.prems Some kids ch h] s by (simp add: built)
  qed
  then show ?case unfolding scopes_kept_def by blast
next
  case (Document ks)
  have "view \<sigma>' = view \<sigma>" if "visit_document E ds \<sigma> = Inr \<sigma>'" "\<forall>d \<in> set ds. scopes_kept E view d" for ds \<sigma> \<sigma>'
    using that by (induction ds arbitrary: \<sigma>) (auto simp: bind_res_eq_Inr scopes_kept_def)
  then show ?case using Document by (auto simp: scopes_kept_def bind_res_eq_Inr list_all_iff)
qed (auto simp: scopes_kept_def unknown_element_def)

end

text \<open>C3: reading an element leaves the scope stack as it was: every scope that a handler opens is closed
  again, including the class scope between the operands of a member access, when those are the only element
  children.\<close>
theorem scope_stack_balanced:
  assumes "scope_discipline E view" "tidy d" "visit_xml E np d \<sigma> = Inr (k, \<sigma>')"
  shows "view \<sigma>' = view \<sigma>"
  using scope_discipline.scopes_kept_tidy [OF assms(1,2)] assms(3) by (auto simp: scopes_kept_def)

definition dot_element :: "dom list \<Rightarrow> dom" where
  "dot_element ds = Element ''SgDotExp'' [] ([Element ''SgVarRefExp'' [(''name'', ''a'')] []] @ ds
     @ [Element ''SgVarRefExp'' [(''name'', ''b'')] []])"

lemma scope_stack_balanced_witness:
  "\<exists>n. visit_xml rose_stack OtherParent (dot_element []) [''f'', ''g''] = Inr (KNode n, [''f'', ''g''])"
proof -
  obtain n s where v: "visit_xml rose_stack OtherParent (dot_element []) [''f'', ''g''] = Inr (KNode n, s)"
    by (simp add: dot_element_def read_simps rose_stack_def visitSgBinaryOp_def visitSgDotExp_def fill_def)
  from scope_stack_balanced [OF scope_names.scope_discipline_axioms _ v] have "s = [''f'', ''g'']"
    by (simp add: dot_element_def)
  with v show ?thesis by simp
qed


end
