(* ===== verification/Conversion.thy ===== *)
theory Conversion
  imports Dispatch
begin

text \<open>
  The composition of writer and reader on a whole file.
\<close>

subsection \<open>A sample program\<close>

text \<open>
  A file with a function and a directive: \<open>int f(int x) { x = 7; return x; }\<close>, the return statement after
  \<open>#define N 7\<close>. Every position is in the file itself.
\<close>

definition here :: finfo where
  "here = \<lparr>fi_frontend = False, fi_compgen = False, fi_transf = False, fi_output = False,
     fi_same = True, fi_cpp = False\<rparr>"

definition at_here :: "ppinfo list \<Rightarrow> hdr" where
  "at_here ps = hdr0\<lparr>h_file := Some here, h_ppi := ps\<rparr>"

definition sample_body :: sgnode where
  "sample_body =
     Node (at_here []) (SgStmt BasicBlock)
       [Some (Node (at_here []) (SgStmt ExprStatement)
          [Some (Node (at_here []) (SgExpr (BinaryOp AssignOp))
            [Some (Node (at_here []) (SgExpr (VarRefExp ''x'')) [] [None]),
             Some (Node (at_here []) (SgExpr (ValueExp IntVal 7 ''07'')) [] [None])] [None])] []),
        Some (Node (at_here [\<lparr>pp_pos = 2, pp_type = 7, pp_text = ''#define N 7''\<rparr>]) (SgStmt ReturnStmt)
          [Some (Node (at_here []) (SgExpr (VarRefExp ''x'')) [] [None])] [])] []"

definition an_int :: sgnode where
  "an_int = Node hdr0 (SgType TypeInt) [] [None]"

definition sample_name :: sgnode where
  "sample_name = Node (at_here []) (SgLSup (InitializedName ''x'' None 1 False (- 1) [True, False]))
     [None] [Some an_int]"

definition sample_parameters :: sgnode where
  "sample_parameters = Node (at_here []) (decl FunctionParameterList) [Some sample_name] []"

definition sample_definition :: sgnode where
  "sample_definition = Node (at_here []) (SgStmt FunctionDefinition) [Some sample_body] []"

definition sample_function :: sgnode where
  "sample_function = Node (at_here []) (decl (FunctionDeclaration ''f'' False False 1 []))
     [Some sample_parameters, Some sample_definition] [Some an_int]"

definition sample_global :: sgnode where
  "sample_global = Node (at_here []) (SgStmt Global) [Some sample_function] []"


lemma seven_scans [simp]: "lit_ok rose_C IntVal 7 ''07''"
proof -
  have "show_int 7 = ''7''" by (simp add: show_int_def show_nat.simps digit_def)
  then show ?thesis
    by (simp add: lit_ok_def literal_def tostring_def scan_val_def is_float_def int_range_def rose_C_def
        scan_int_def sign_of_def isspace_def is_digit_def digits_val_def digit_val_def no_amp_plain)
qed


lemma new_mods_ok [simp]: "decl_mods_ok rose_C n new_mods" "fun_mods_ok rose_C b new_mods"
  by (simp_all add: decl_mods_ok_def fun_mods_ok_def kept_vec_def kept_name_def ulong_def vec_ok_def
      pack_bits_def rose_C_def new_mods_def Let_def)

lemma attribs_not_isl: "listed (cls n) \<Longrightarrow> cls n = SgStmt s \<Longrightarrow> isl (attribs E n) = False"
  by (simp add: attribs_def)


lemma sample_classes [simp]:
  "isSgType an_int" "\<not> is_body an_int" "isSgInitializedName sample_name" "\<not> is_body sample_name"
  "isSgFunctionParameterList sample_parameters" "\<not> is_body sample_parameters"
  "isSgFunctionDefinition sample_definition" "is_body sample_definition"
  "isSgBasicBlock sample_body" "isSgStatement sample_function" "isSgGlobal sample_global"
  "cls an_int = SgType TypeInt"
  by (simp_all add: an_int_def sample_name_def sample_parameters_def sample_definition_def
      sample_body_def sample_function_def sample_global_def is_body_def)









subsection \<open>Files\<close>





















end
