(* ===== verification/DeclProperties.thy ===== *)
theory DeclProperties
  imports Conversion
begin

text \<open>
  Declarations: what the handler of a class and \<open>checkDeclStmt\<close> make of a declaration that was written,
  and which modifiers the conversion loses.
\<close>



text \<open>
  \<open>SgFortranIncludeLine\<close>, \<open>SgInterfaceStatement\<close>, \<open>SgNamelistStatement\<close> and \<open>SgUseStatement\<close> do not call
  \<open>attribSgDeclarationStatement\<close>.
\<close>

lemma unwritten_modifiers_lost:
  "\<not> writes_mods d \<Longrightarrow>
     checkDeclStmt E (decode_attrs (attribs_decl E n d)) (Node h (decl d) ss ns) =
       Inr (Node (h\<lparr>h_mods := Some (bare_mods E)\<rparr>) (decl d) ss ns)"
  using checkDeclStmt_written [of E n d False h ss ns] by (simp add: mods_ok_def canon_mods_def only_def)



lemma isl_bind [simp]: "isl m \<Longrightarrow> isl (bind_res m k)"
  by (cases m) simp_all






end
