(* ===== verification/WriterSpec.thy ===== *)
theory WriterSpec
  imports RoundTrip
begin

text \<open>
  What the writer promises, without the layout: \<open>document\<close> is the tree of elements that a node is
  written as, \<open>layout_free\<close> the abstraction of the printed text. The writer refines it whatever the depth
  of indentation, errors included.
\<close>

definition map_res :: "('a \<Rightarrow> 'b) \<Rightarrow> 'a res \<Rightarrow> 'b res" where
  "map_res f m = bind_res m (\<lambda>x. Inr (f x))"

lemma map_res_simps [simp]:
  "map_res f (Inl e) = Inl e" "map_res f (Inr x) = Inr (f x)"
  "map_res f (bind_res m k) = bind_res m (\<lambda>x. map_res f (k x))"
  by (cases m; simp add: map_res_def)+


lemma bind_map_res [simp]: "bind_res (map_res f m) k = bind_res m (\<lambda>x. k (f x))"
  by (cases m) simp_all

lemma map_res_if [simp]: "map_res f (if b then x else y) = (if b then map_res f x else map_res f y)"
  by simp

text \<open>Elements without the character data between them; the text of a directive belongs to it.\<close>

fun layout_free :: "dom \<Rightarrow> dom" where
  "layout_free (Element nm A ks) =
     Element nm A (if nm = ''PreprocessingInfo'' then ks else map layout_free (filter is_element ks))"
| "layout_free d = d"

definition layout_free_all :: "dom list \<Rightarrow> dom list" where
  "layout_free_all ds = map layout_free (filter is_element ds)"

lemma layout_free_all_simps [simp]:
  "layout_free_all [] = []"
  "layout_free_all (Element nm A ks # ds) = layout_free (Element nm A ks) # layout_free_all ds"
  "layout_free_all (TextNode s # ds) = layout_free_all ds"
  "layout_free_all (xs @ ys) = layout_free_all xs @ layout_free_all ys"
  "layout_free_all (concat xss) = concat (map layout_free_all xss)"
  "layout_free_all (merge_text ds) = layout_free_all ds"
  by (simp_all add: layout_free_all_def [abs_def] filter_concat map_concat comp_def)




lemma layout_free_ppis [simp]:
  "layout_free_all (map dom_of (writePreprocessingInfo E n)) = map ppi_dom (ppis E n)"
proof -
  have "layout_free (ppi_dom p) = ppi_dom p" for p by (simp add: ppi_dom_def)
  then show ?thesis
    by (simp add: layout_free_all_def writes_ppis elements_of_ppis comp_def)
qed




end
