(* ===== verification/LangStr.thy ===== *)
theory LangStr
  imports XmlEntity
begin

text \<open>
  The string conversions of the tools, \<open>tools/xevutil_langstr.c\<close>: literals of Fortran, of C and of XML to
  plain text (\<open>F2G\<close>, \<open>C2G\<close>, \<open>X2G\<close>) and back. A C string is the list of its characters before the
  terminating NUL, a pointer into it the rest of that list; reading behind the NUL is \<open>Undef\<close>.
\<close>

subsection \<open>C strings\<close>

abbreviation NUL :: char where "NUL \<equiv> CHR 0x00"

definition past_end :: "'a res" where
  "past_end = Inl (Undef ''read past the end of the string'')"

definition c_string :: "string \<Rightarrow> bool" where
  "c_string s \<longleftrightarrow> NUL \<notin> set s"

text \<open>
  Every conversion counts first and allocates \<open>len\<close> bytes, then writes \<open>t\<close> and a NUL; an assertion
  compares the length.
\<close>

definition filled :: "nat \<Rightarrow> string \<Rightarrow> string res" where
  "filled len t =
     (if len < length t + 1 then Inl (Undef ''write past the end of the buffer'')
      else if length (takeWhile (\<lambda>c. c \<noteq> NUL) t) \<noteq> len - 1 then Inl (Fatal ''assertion failed: strlen(t) == len - 1'')
      else Inr t)"

definition quote :: "char \<Rightarrow> bool" where
  "quote c \<longleftrightarrow> c = CHR 0x22 \<or> c = CHR 0x27"

subsection \<open>Fortran\<close>

text \<open>Both loops of \<open>strF2G\<close> stop at a quote that is not doubled; the first counts.\<close>

fun F2G_count :: "char \<Rightarrow> string \<Rightarrow> nat \<Rightarrow> nat \<Rightarrow> (nat \<times> nat) res" where
  "F2G_count q [] l c = past_end"
| "F2G_count q [x] l c = (if x = q then Inr (l, c) else past_end)"
| "F2G_count q (x # y # r) l c =
     (if x = q \<and> y = q then F2G_count q r (l + 2) (c + 1)
      else if x = q then Inr (l, c)
      else F2G_count q (y # r) (l + 1) c)"

fun F2G_copy :: "char \<Rightarrow> string \<Rightarrow> string res" where
  "F2G_copy q [] = past_end"
| "F2G_copy q [x] = (if x = q then Inr [] else past_end)"
| "F2G_copy q (x # y # r) =
     (if x = q \<and> y = q then bind_res (F2G_copy q r) (\<lambda>t. Inr (q # t))
      else if x = q then Inr []
      else bind_res (F2G_copy q (y # r)) (\<lambda>t. Inr (x # t)))"

definition strF2G :: "string \<Rightarrow> string res" where
  "strF2G s = (case s of
     [] \<Rightarrow> Inl (Fatal ''strF2G: Fortran string must start with a quotation mark'')
   | q # r \<Rightarrow>
       if \<not> quote q then Inl (Fatal ''strF2G: Fortran string must start with a quotation mark'')
       else bind_res (F2G_count q r 1 0) (\<lambda>(l, c).
            bind_res (F2G_copy q r) (\<lambda>t. filled (l - c) t)))"

fun G2F_count :: "char \<Rightarrow> string \<Rightarrow> nat \<Rightarrow> nat \<Rightarrow> nat \<times> nat" where
  "G2F_count q [] l c = (l, c)"
| "G2F_count q (x # r) l c = G2F_count q r (l + 1) (if x = q then c + 1 else c)"

fun G2F_copy :: "char \<Rightarrow> string \<Rightarrow> string" where
  "G2F_copy q [] = [q]"
| "G2F_copy q (x # r) = (if x = q then [q, q] else [x]) @ G2F_copy q r"

definition strG2F :: "string \<Rightarrow> char \<Rightarrow> string res" where
  "strG2F s q = (case G2F_count q s 0 0 of (l, c) \<Rightarrow> filled (l + 3 + c) (q # G2F_copy q s))"

text \<open>The closing quote of the literal that starts at \<open>s\<close>, as an index into \<open>s\<close>.\<close>

fun endstrF_from :: "char \<Rightarrow> string \<Rightarrow> nat \<Rightarrow> nat option" where
  "endstrF_from c [] i = None"
| "endstrF_from c [x] i = (if x = c then Some i else None)"
| "endstrF_from c (x # y # r) i =
     (if x = c \<and> y = c then endstrF_from c r (i + 2)
      else if x = c then Some i
      else endstrF_from c (y # r) (i + 1))"

definition endstrF :: "string \<Rightarrow> nat option res" where
  "endstrF s = (case s of [] \<Rightarrow> past_end | c # r \<Rightarrow> Inr (endstrF_from c r 1))"

text \<open>
  The first \<open>c\<close> outside of literals. The search goes on behind a literal, so it reads no further than
  the NUL.
\<close>

function strchrF_from :: "string \<Rightarrow> char \<Rightarrow> nat \<Rightarrow> nat option" where
  "strchrF_from s c i =
     (case drop i s of
        [] \<Rightarrow> None
      | x # r \<Rightarrow>
          if x = c then Some i
          else if quote x
          then (case endstrF_from x r 1 of
                  None \<Rightarrow> None
                | Some k \<Rightarrow> strchrF_from s c (i + k + 1))
          else strchrF_from s c (i + 1))"
  by pat_completeness auto
termination
  by (relation "measure (\<lambda>(s, c, i). length s - i)") (auto dest: arg_cong [of _ _ length])

definition strchrF :: "string \<Rightarrow> char \<Rightarrow> nat option" where
  "strchrF s c = strchrF_from s c 0"

subsection \<open>C\<close>

text \<open>\<open>char\<close> is signed, as with gcc on x86: a byte from 128 on is negative.\<close>

definition schar :: "char \<Rightarrow> int" where
  "schar c = (let v = int (of_char c) in if v < 128 then v else v - 256)"

definition to_char :: "int \<Rightarrow> char" where
  "to_char v = char_of (nat (v mod 256))"

definition between :: "char \<Rightarrow> char \<Rightarrow> char \<Rightarrow> bool" where
  "between a c b \<longleftrightarrow> schar a \<le> schar c \<and> schar c \<le> schar b"

definition isxdigit :: "char \<Rightarrow> bool" where
  "isxdigit c \<longleftrightarrow> between CHR ''0'' c CHR ''9'' \<or> between CHR ''a'' c CHR ''f'' \<or> between CHR ''A'' c CHR ''F''"

definition octal :: "char \<Rightarrow> bool" where
  "octal c \<longleftrightarrow> between CHR ''0'' c CHR ''7''"

text \<open>The value of a digit as the code computes it; letters start at 0.\<close>

definition hexval :: "char \<Rightarrow> int" where
  "hexval c = (if between CHR ''0'' c CHR ''9'' then schar c - schar CHR ''0''
     else if between CHR ''a'' c CHR ''z'' then schar c - schar CHR ''a''
     else schar c - schar CHR ''A'')"

definition octval :: "char \<Rightarrow> int" where
  "octval c = schar c - schar CHR ''0''"

text \<open>
  An escape sequence, from behind the backslash: how many characters it has with the backslash, how
  many the counting loop takes off, and the character the copying loop writes.
\<close>

definition C_other :: "char \<Rightarrow> char" where
  "C_other x = (case map_of (zip ''abfnrtv'' [CHR 0x07, CHR 0x08, CHR 0x0C, CHR 0x0A, CHR 0x0D, CHR 0x09, CHR 0x0B]) x of
     None \<Rightarrow> x | Some y \<Rightarrow> y)"

definition head_or_NUL :: "string \<Rightarrow> char" where
  "head_or_NUL s = (case s of [] \<Rightarrow> NUL | x # r \<Rightarrow> x)"

definition C_escape :: "string \<Rightarrow> (nat \<times> nat \<times> char) res" where
  "C_escape s = (case s of
     [] \<Rightarrow> past_end
   | x # r \<Rightarrow>
       if x = CHR ''x''
       then (case r of
           [] \<Rightarrow> past_end
         | a # r' \<Rightarrow>
             let b = head_or_NUL r' in
             if isxdigit b then Inr (4, 3, to_char (hexval a * 16 + hexval b))
             else Inr (3, 2, to_char (hexval a)))
       else if octal x
       then (let a = head_or_NUL r in
             if \<not> octal a then Inr (2, 1, to_char (octval x))
             else let v = octval x * 8 + octval a; b = head_or_NUL (tl r) in
               if \<not> octal b then Inr (3, 2, to_char v)
               else Inr (4, 3, to_char (v * 8 + octval a)))
       else Inr (2, 1, C_other x))"

fun C2G_count :: "string \<Rightarrow> nat \<Rightarrow> nat \<Rightarrow> (nat \<times> nat) res" where
  "C2G_count [] l c = past_end"
| "C2G_count (x # r) l c =
     (if x = CHR 0x5C
      then bind_res (C_escape r) (\<lambda>(k, d, y). C2G_count (drop (k - 1) r) (l + k) (c + d))
      else if x = CHR 0x22 then Inr (l, c)
      else C2G_count r (l + 1) c)"

fun C2G_copy :: "string \<Rightarrow> string res" where
  "C2G_copy [] = past_end"
| "C2G_copy (x # r) =
     (if x = CHR 0x5C
      then bind_res (C_escape r) (\<lambda>(k, d, y). bind_res (C2G_copy (drop (k - 1) r)) (\<lambda>t. Inr (y # t)))
      else if x = CHR 0x22 then Inr []
      else bind_res (C2G_copy r) (\<lambda>t. Inr (x # t)))"

definition strC2G :: "string \<Rightarrow> string res" where
  "strC2G s =
     (if head_or_NUL s \<noteq> CHR 0x22 then Inl (Fatal ''strC2G: C string must start with a double quote'')
      else bind_res (C2G_count (tl s) 1 0) (\<lambda>(l, c).
           bind_res (C2G_copy (tl s)) (\<lambda>t. filled (l - c) t)))"

text \<open>
  \<open>sprintf(t+c, "%02x", s[l])\<close>: the digits of the character as an \<open>unsigned int\<close>, eight of them if it is
  negative, and a NUL. Two of them count; what follows overwrites the others. \<open>room\<close>: the bytes that are
  left of the buffer.
\<close>

definition hexdigit :: "nat \<Rightarrow> char" where
  "hexdigit n = ''0123456789abcdef'' ! (n mod 16)"

definition printed_hex :: "char \<Rightarrow> string" where
  "printed_hex x = (if schar x < 0 then ''ffffff'' else []) @ [hexdigit (of_char x div 16), hexdigit (of_char x)]"

definition C_special :: "char \<Rightarrow> bool" where
  "C_special x \<longleftrightarrow> schar x < 32 \<or> 127 \<le> schar x"

fun G2C_count :: "string \<Rightarrow> nat \<Rightarrow> nat \<Rightarrow> nat \<times> nat" where
  "G2C_count [] l c = (l, c)"
| "G2C_count (x # r) l c =
     G2C_count r (l + 1) (if x = CHR 0x22 then c + 1 else if C_special x then c + 3 else c)"

fun G2C_copy :: "nat \<Rightarrow> string \<Rightarrow> string res" where
  "G2C_copy room [] = Inr [CHR 0x22]"
| "G2C_copy room (x # r) =
     (if x = CHR 0x22
      then bind_res (G2C_copy (room - 2) r) (\<lambda>t. Inr ([CHR 0x5C, CHR 0x22] @ t))
      else if C_special x
      then if room < 2 + length (printed_hex x) + 1 then Inl (Undef ''write past the end of the buffer'')
           else bind_res (G2C_copy (room - 4) r) (\<lambda>t. Inr ([CHR 0x5C, CHR ''x''] @ take 2 (printed_hex x) @ t))
      else bind_res (G2C_copy (room - 1) r) (\<lambda>t. Inr (x # t)))"

definition strG2C :: "string \<Rightarrow> string res" where
  "strG2C s = (case G2C_count s 0 0 of (l, c) \<Rightarrow>
     bind_res (G2C_copy (l + 3 + c - 1) s) (\<lambda>t. filled (l + 3 + c) (CHR 0x22 # t)))"

subsection \<open>XML\<close>

text \<open>An ampersand in an XML string: characters read, how many the counting loop takes off, the character.\<close>

definition starts :: "string \<Rightarrow> string \<Rightarrow> bool" where
  "starts p s \<longleftrightarrow> take (length p) s = p"

definition X_entity :: "string \<Rightarrow> nat \<times> nat \<times> char" where
  "X_entity s =
     (if starts ''&lt;'' s then (4, 3, CHR ''<'')
      else if starts ''&gt;'' s then (4, 3, CHR ''>'')
      else if starts ''&amp;'' s then (5, 4, CHR ''&'')
      else if starts ''&quot;'' s then (6, 5, CHR 0x22)
      else if starts ''&apos;'' s then (6, 5, CHR 0x27)
      else (1, 1, CHR ''&''))"

fun X2G_count :: "char \<Rightarrow> string \<Rightarrow> nat \<Rightarrow> nat \<Rightarrow> (nat \<times> nat) res" where
  "X2G_count q [] l c = past_end"
| "X2G_count q (x # r) l c =
     (if x = CHR ''&''
      then case X_entity (x # r) of (k, d, y) \<Rightarrow> X2G_count q (drop (k - 1) r) (l + k) (c + d)
      else if x = q then Inr (l, c)
      else X2G_count q r (l + 1) c)"

fun X2G_copy :: "char \<Rightarrow> string \<Rightarrow> string res" where
  "X2G_copy q [] = past_end"
| "X2G_copy q (x # r) =
     (if x = CHR ''&''
      then case X_entity (x # r) of (k, d, y) \<Rightarrow> bind_res (X2G_copy q (drop (k - 1) r)) (\<lambda>t. Inr (y # t))
      else if x = q then Inr []
      else bind_res (X2G_copy q r) (\<lambda>t. Inr (x # t)))"

definition strX2G :: "string \<Rightarrow> string res" where
  "strX2G s = (case s of
     [] \<Rightarrow> Inl (Fatal ''strX2G: XML string must start with a quotation mark'')
   | q # r \<Rightarrow>
       if \<not> quote q then Inl (Fatal ''strX2G: XML string must start with a quotation mark'')
       else bind_res (X2G_count q r 1 0) (\<lambda>(l, c). bind_res (X2G_copy q r) (\<lambda>t. filled (l - c) t)))"

definition X_ref :: "char \<Rightarrow> string option" where
  "X_ref x = map_of (zip [CHR ''<'', CHR ''>'', CHR ''&'', CHR 0x22, CHR 0x27]
     [''&lt;'', ''&gt;'', ''&amp;'', ''&quot;'', ''&apos;'']) x"

fun G2X_count :: "string \<Rightarrow> nat \<Rightarrow> nat \<Rightarrow> nat \<times> nat" where
  "G2X_count [] l c = (l, c)"
| "G2X_count (x # r) l c =
     G2X_count r (l + 1) (case X_ref x of None \<Rightarrow> c | Some e \<Rightarrow> c + (length e - 1))"

fun G2X_copy :: "char \<Rightarrow> string \<Rightarrow> string" where
  "G2X_copy q [] = [q]"
| "G2X_copy q (x # r) = (case X_ref x of None \<Rightarrow> [x] | Some e \<Rightarrow> e) @ G2X_copy q r"

definition strG2X :: "string \<Rightarrow> char \<Rightarrow> string res" where
  "strG2X s q = (case G2X_count s 0 0 of (l, c) \<Rightarrow> filled (l + 2 + 1 + c) (q # G2X_copy q s))"


subsection \<open>Counting and filling\<close>

lemma takeWhile_c_string: "c_string t \<Longrightarrow> takeWhile (\<lambda>c. c \<noteq> NUL) t = t"
  by (auto simp: c_string_def takeWhile_eq_all_conv)

lemma filled_exact: "c_string t \<Longrightarrow> len = length t + 1 \<Longrightarrow> filled len t = Inr t"
  by (simp add: filled_def takeWhile_c_string)

lemma filled_Inr: "filled len t = Inr u \<Longrightarrow> u = t"
  by (simp add: filled_def split: if_splits)

lemma quote_not_NUL [simp]: "quote q \<Longrightarrow> q \<noteq> NUL"
  by (auto simp: quote_def)

abbreviation quotes_in :: "char \<Rightarrow> string \<Rightarrow> nat" where
  "quotes_in q s \<equiv> length (filter (\<lambda>x. x = q) s)"

subsection \<open>Fortran literals\<close>

text \<open>The literal of a text, and what may follow it.\<close>

definition lit :: "char \<Rightarrow> string \<Rightarrow> string" where
  "lit q s = q # G2F_copy q s"

definition not_quoted :: "char \<Rightarrow> string \<Rightarrow> bool" where
  "not_quoted q r \<longleftrightarrow> head_or_NUL r \<noteq> q"

lemma not_quoted_simps [simp]: "q \<noteq> NUL \<Longrightarrow> not_quoted q []" "not_quoted q (x # r) \<longleftrightarrow> x \<noteq> q"
  by (simp_all add: not_quoted_def head_or_NUL_def)

lemma G2F_count_eq: "G2F_count q s l c = (l + length s, c + quotes_in q s)"
  by (induction s arbitrary: l c) auto

lemma length_G2F_copy: "length (G2F_copy q s) = length s + quotes_in q s + 1"
  by (induction s) auto

lemma c_string_G2F_copy [simp]: "q \<noteq> NUL \<Longrightarrow> c_string (G2F_copy q s) \<longleftrightarrow> c_string s"
  by (induction s) (auto simp: c_string_def)

lemma c_string_Cons [simp]: "c_string (x # s) \<longleftrightarrow> x \<noteq> NUL \<and> c_string s"
  by (auto simp: c_string_def)

lemma c_string_Nil [simp]: "c_string []"
  by (simp add: c_string_def)

lemma c_string_append [simp]: "c_string (s @ t) \<longleftrightarrow> c_string s \<and> c_string t"
  by (auto simp: c_string_def)

lemma strG2F_lit: "c_string s \<Longrightarrow> q \<noteq> NUL \<Longrightarrow> strG2F s q = Inr (lit q s)"
  by (simp add: strG2F_def G2F_count_eq lit_def filled_exact length_G2F_copy)

lemma G2F_copy_Cons_other:
  "x \<noteq> q \<Longrightarrow> G2F_copy q (x # s) @ r = x # (G2F_copy q s @ r)"
  by simp

lemma G2F_copy_nonempty: "G2F_copy q s @ r \<noteq> []"
  by (cases s) auto

lemma F2G_scan_lit:
  assumes "not_quoted q r"
  shows "F2G_copy q (G2F_copy q s @ r) = Inr s"
    "F2G_count q (G2F_copy q s @ r) l c = Inr (l + length s + quotes_in q s, c + quotes_in q s)"
    "endstrF_from q (G2F_copy q s @ r) l = Some (l + length s + quotes_in q s)"
proof (induction s arbitrary: l c)
  case Nil
  { case 1 show ?case using assms by (cases r) auto
  next case 2 show ?case using assms by (cases r) auto
  next case 3 show ?case using assms by (cases r) auto }
next
  case (Cons x s)
  obtain y t where t: "G2F_copy q s @ r = y # t" using G2F_copy_nonempty by (meson neq_Nil_conv)
  { case 1 show ?case using Cons(1) t by (cases "x = q") auto
  next case 2 show ?case using Cons(2) t by (cases "x = q") (auto simp: add.assoc)
  next case 3 show ?case using Cons(3) t by (cases "x = q") auto }
qed

lemma strF2G_lit: "quote q \<Longrightarrow> c_string s \<Longrightarrow> not_quoted q r \<Longrightarrow> strF2G (lit q s @ r) = Inr s"
  by (simp add: strF2G_def lit_def F2G_scan_lit filled_exact)

lemma endstrF_lit:
  "not_quoted q r \<Longrightarrow> endstrF (lit q s @ r) = Inr (Some (length (lit q s) - 1))"
  by (simp add: endstrF_def lit_def F2G_scan_lit length_G2F_copy)

text \<open>What \<open>endstrF\<close> accepts is a literal.\<close>

lemma endstrF_from_lit:
  assumes "endstrF_from q s i = Some k" "q \<noteq> NUL"
  shows "\<exists>t r. s = G2F_copy q t @ r \<and> not_quoted q r \<and> k = i + length (G2F_copy q t) - 1"
  using assms
proof (induction q s i rule: endstrF_from.induct)
  case (2 c x i)
  then show ?case by (intro exI [of _ "[]"] exI [of _ "[]"]) (auto split: if_splits)
next
  case (3 c x y r i)
  show ?case
  proof (cases "x = c")
    case True
    show ?thesis
    proof (cases "y = c")
      case y: True
      with 3 True obtain t r' where "r = G2F_copy c t @ r'" "not_quoted c r'" "k = i + 2 + length (G2F_copy c t) - 1" by auto
      then show ?thesis using True y by (intro exI [of _ "c # t"] exI [of _ r']) simp
    next
      case False
      then show ?thesis using True 3(3) by (intro exI [of _ "[]"] exI [of _ "y # r"]) simp
    qed
  next
    case False
    with 3 obtain t r' where "y # r = G2F_copy c t @ r'" "not_quoted c r'" "k = i + 1 + length (G2F_copy c t) - 1" by auto
    then show ?thesis using False by (intro exI [of _ "x # t"] exI [of _ r']) (simp add: length_G2F_copy)
  qed
qed simp

text \<open>C17: what \<open>endstrF\<close> delimits is a Fortran literal: \<open>strF2G\<close> decodes it without reading or writing out
  of bounds, and encoding the text again with the same quotation mark gives the literal back, doubled
  quotation marks included.\<close>
theorem fortran_literal_exact:
  assumes "c_string s" "s \<noteq> []" "quote (hd s)" "endstrF s = Inr (Some k)"
  shows "\<exists>t. strF2G (take (k + 1) s) = Inr t \<and> strG2F t (hd s) = Inr (take (k + 1) s)"
proof -
  obtain q r where s: "s = q # r" using assms(2) by (cases s) auto
  have q: "quote q" using assms(3) s by simp
  obtain t r' where t: "r = G2F_copy q t @ r'" "k = 1 + length (G2F_copy q t) - 1"
    using endstrF_from_lit [of q r 1 k] assms(4) q by (auto simp: endstrF_def s)
  have "c_string t" using assms(1) q by (simp add: s t)
  then show ?thesis
    using strF2G_lit [OF q, of t "[]"] strG2F_lit [of t q] q by (simp add: s t lit_def)
qed

definition a_literal :: string where
  "a_literal = [CHR 0x27] @ ''it'' @ [CHR 0x27, CHR 0x27] @ ''s'' @ [CHR 0x27] @ '', b''"

lemma fortran_literal_exact_witness:
  "\<exists>t. strF2G (take 7 a_literal) = Inr t \<and> strG2F t CHR 0x27 = Inr (take 7 a_literal)"
  using fortran_literal_exact [of a_literal 6]
  by (simp add: a_literal_def endstrF_def quote_def)

lemma fortran_string_roundtrip:
  assumes "c_string s" "quote q" "not_quoted q r"
  shows "bind_res (strG2F s q) (\<lambda>l. strF2G (l @ r)) = Inr s"
    and "bind_res (strG2F s q) (\<lambda>l. endstrF (l @ r)) = bind_res (strG2F s q) (\<lambda>l. Inr (Some (length l - 1)))"
  using assms by (simp_all add: strG2F_lit strF2G_lit endstrF_lit)

text \<open>\<open>strchrF\<close> skips literals.\<close>

declare strchrF_from.simps [simp del]

lemma strchrF_from_shift:
  "strchrF_from (p @ s) c (length p + i) = map_option (\<lambda>k. length p + k) (strchrF_from s c i)"
proof (induction s c i rule: strchrF_from.induct)
  case (1 s c i)
  have d: "drop (length p + i) (p @ s) = drop i s" by simp
  show ?case
    using 1 by (subst (1 2) strchrF_from.simps) (auto simp: d add.assoc split: list.splits option.splits)
qed

lemma strchrF_Nil: "strchrF [] c = None"
  by (simp add: strchrF_def strchrF_from.simps)

lemma strchrF_Cons:
  "x \<noteq> c \<Longrightarrow> \<not> quote x \<Longrightarrow> strchrF (x # s) c = map_option Suc (strchrF s c)"
  using strchrF_from_shift [of "[x]" s c 0] by (simp add: strchrF_def strchrF_from.simps [of _ _ 0])

text \<open>C28: \<open>strchrF\<close> finds no character inside a literal: before a literal, whatever its text, the search
  answers as for what follows the literal.\<close>
theorem strchrF_skips_literals:
  assumes "quote q" "not_quoted q r" "\<not> quote c"
  shows "strchrF (lit q t @ r) c = map_option (\<lambda>k. length (lit q t) + k) (strchrF r c)"
proof -
  have "q \<noteq> c" using assms by auto
  then have "strchrF (lit q t @ r) c = strchrF_from (lit q t @ r) c (length (lit q t))"
    using assms F2G_scan_lit(3) [of q r t 1]
    by (simp add: strchrF_def strchrF_from.simps [of _ _ 0] lit_def length_G2F_copy)
  then show ?thesis using strchrF_from_shift [of "lit q t" r c 0] by (simp add: strchrF_def)
qed

lemma strchrF_skips_literals_witness:
  "strchrF (lit CHR 0x27 ''a!b'' @ ''+c!d'') CHR ''!'' =
    map_option (\<lambda>k. length (lit CHR 0x27 ''a!b'') + k) (strchrF ''+c!d'' CHR ''!'')"
  by (rule strchrF_skips_literals) (simp_all add: quote_def)


subsection \<open>C literals\<close>

definition C_plain :: "char \<Rightarrow> bool" where
  "C_plain x \<longleftrightarrow> \<not> C_special x \<and> x \<noteq> CHR 0x5C"

lemma C_plain_not_NUL: "list_all C_plain s \<Longrightarrow> c_string s"
  by (induction s) (auto simp: C_plain_def C_special_def schar_def c_string_def)

definition C_text :: "string \<Rightarrow> string" where
  "C_text s = concat (map (\<lambda>x. if x = CHR 0x22 then [CHR 0x5C, CHR 0x22] else [x]) s) @ [CHR 0x22]"

lemma G2C_plain:
  "list_all C_plain s \<Longrightarrow> G2C_count s l c = (l + length s, c + quotes_in CHR 0x22 s)"
  "list_all C_plain s \<Longrightarrow> G2C_copy room s = Inr (C_text s)"
proof (induction s arbitrary: l c room)
  case (Cons x s)
  { case 1 then show ?case using Cons(1) by (simp add: C_plain_def)
  next case 2 then show ?case using Cons(2) by (simp add: C_plain_def C_text_def) }
qed (simp_all add: C_text_def)

lemma length_C_text: "length (C_text s) = length s + quotes_in CHR 0x22 s + 1"
  by (induction s) (auto simp: C_text_def)

lemma c_string_C_text: "c_string s \<Longrightarrow> c_string (C_text s)"
  by (auto simp: C_text_def c_string_def split: if_splits)

lemma C_escape_quote [simp]: "C_escape (CHR 0x22 # r) = Inr (2, 1, CHR 0x22)"
  by (simp add: C_escape_def octal_def between_def schar_def C_other_def)

lemma C2G_plain:
  "list_all C_plain s \<Longrightarrow> C2G_count (C_text s @ r) l c = Inr (l + length s + quotes_in CHR 0x22 s, c + quotes_in CHR 0x22 s)"
  "list_all C_plain s \<Longrightarrow> C2G_copy (C_text s @ r) = Inr s"
proof (induction s arbitrary: l c)
  case (Cons x s)
  { case 1 then show ?case using Cons(1) by (simp add: C_plain_def C_text_def)
  next case 2 then show ?case using Cons(2) by (simp add: C_plain_def C_text_def) }
qed (simp_all add: C_text_def)

text \<open>printable text without a backslash survives as a C literal.\<close>
theorem c_string_roundtrip:
  assumes "list_all C_plain s"
  shows "bind_res (strG2C s) strC2G = Inr s"
proof -
  have c: "c_string s" using assms by (rule C_plain_not_NUL)
  have "strG2C s = Inr (CHR 0x22 # C_text s)"
    using assms c by (simp add: strG2C_def G2C_plain filled_exact length_C_text c_string_C_text)
  then show ?thesis
    using C2G_plain [OF assms, of "[]"] c by (simp add: strC2G_def head_or_NUL_def filled_exact)
qed

lemma c_string_roundtrip_witness: "bind_res (strG2C ''say (hi)'') strC2G = Inr ''say (hi)''"
  by (rule c_string_roundtrip) (simp add: C_plain_def C_special_def schar_def)

text \<open>Characters from 128 on are negative and are all printed with the digits \<open>ff\<close>.\<close>

lemma G2C_negative:
  assumes "schar x < 0" "schar y < 0"
  shows "G2C_count (u @ x # r) l c = G2C_count (u @ y # r) l c"
    "G2C_copy room (u @ x # r) = G2C_copy room (u @ y # r)"
proof (induction u arbitrary: l c room)
  case Nil
  have q: "schar CHR 0x22 = 34" by (simp add: schar_def)
  have "x \<noteq> CHR 0x22" "y \<noteq> CHR 0x22" using assms q by auto
  moreover have "C_special x" "C_special y" using assms by (simp_all add: C_special_def)
  ultimately show "G2C_count ([] @ x # r) l c = G2C_count ([] @ y # r) l c"
    "G2C_copy room ([] @ x # r) = G2C_copy room ([] @ y # r)" for l c room
    using assms by (simp_all add: printed_hex_def)
qed simp_all

lemma negative_chars_collapse:
  "schar x < 0 \<Longrightarrow> schar y < 0 \<Longrightarrow> strG2C (u @ x # r) = strG2C (u @ y # r)"
  by (simp only: strG2C_def G2C_negative [of x y])

text \<open>The third digit of an octal escape sequence is not looked at.\<close>

lemma octal_digits: "octal a \<Longrightarrow> a \<noteq> CHR ''x''"
  by (auto simp: octal_def between_def schar_def)

lemma octal_third_digit:
  assumes "octal a" "octal b" "octal c" "octal c'" "list_all C_plain u"
  shows "strC2G (CHR 0x22 # u @ [CHR 0x5C, a, b, c] @ r) = strC2G (CHR 0x22 # u @ [CHR 0x5C, a, b, c'] @ r)"
proof -
  have e: "C_escape (a # b # c # r) = C_escape (a # b # c' # r)"
    "\<exists>y. C_escape (a # b # c # r) = Inr (4, 3, y)"
    using assms octal_digits by (auto simp: C_escape_def head_or_NUL_def Let_def)
  then obtain y where y: "C_escape (a # b # c # r) = Inr (4, 3, y)" "C_escape (a # b # c' # r) = Inr (4, 3, y)" by auto
  have "C2G_count (u @ [CHR 0x5C, a, b, c] @ r) l d = C2G_count (u @ [CHR 0x5C, a, b, c'] @ r) l d"
    "C2G_copy (u @ [CHR 0x5C, a, b, c] @ r) = C2G_copy (u @ [CHR 0x5C, a, b, c'] @ r)" for l d
    using assms(5) y by (induction u arbitrary: l d) (auto simp: C_plain_def)
  then show ?thesis by (simp add: strC2G_def head_or_NUL_def)
qed

subsection \<open>XML strings\<close>

lemma quote_not [simp]: "quote q \<Longrightarrow> q \<noteq> CHR ''&''"
  by (auto simp: quote_def)

definition X_text :: "string \<Rightarrow> string" where
  "X_text s = concat (map (\<lambda>x. case X_ref x of None \<Rightarrow> [x] | Some e \<Rightarrow> e) s)"

lemma G2X_copy_eq: "G2X_copy q s = X_text s @ [q]"
  by (induction s) (auto simp: X_text_def split: option.splits)

lemma X_ref_cases:
  "X_ref x = Some e \<longleftrightarrow> (x, e) \<in> {(CHR ''<'', ''&lt;''), (CHR ''>'', ''&gt;''), (CHR ''&'', ''&amp;''),
     (CHR 0x22, ''&quot;''), (CHR 0x27, ''&apos;'')}"
  "X_ref x = None \<longleftrightarrow> x \<notin> {CHR ''<'', CHR ''>'', CHR ''&'', CHR 0x22, CHR 0x27}"
  by (auto simp: X_ref_def)

definition no_breaks :: "string \<Rightarrow> bool" where
  "no_breaks s \<longleftrightarrow> CHR 0x09 \<notin> set s \<and> CHR 0x0A \<notin> set s \<and> CHR 0x0D \<notin> set s"

lemma X_text_agrees: "no_breaks s \<Longrightarrow> X_text s = escape s"
proof (induction s)
  case (Cons x s)
  then have "x \<noteq> CHR 0x09" "x \<noteq> CHR 0x0A" "x \<noteq> CHR 0x0D" "X_text s = escape s" by (auto simp: no_breaks_def)
  then show ?case by (simp add: X_text_def part_def ents_def X_ref_def)
qed (simp add: X_text_def)

definition X_refs :: "string \<Rightarrow> nat" where
  "X_refs s = sum_list (map (\<lambda>x. case X_ref x of None \<Rightarrow> 0 | Some e \<Rightarrow> length e - 1) s)"

lemma G2X_count_eq: "G2X_count s l c = (l + length s, c + X_refs s)"
  by (induction s arbitrary: l c) (auto simp: X_refs_def split: option.splits)

lemma length_X_text: "length (X_text s) = length s + X_refs s"
  by (induction s) (auto simp: X_text_def X_refs_def X_ref_cases split: option.splits)

lemma c_string_X_text: "c_string s \<Longrightarrow> c_string (X_text s)"
  by (induction s) (auto simp: X_text_def X_ref_cases c_string_def split: option.splits)

lemma strG2X_text: "c_string s \<Longrightarrow> quote q \<Longrightarrow> strG2X s q = Inr (q # X_text s @ [q])"
  using c_string_X_text [of s]
  by (simp add: strG2X_def G2X_count_eq G2X_copy_eq filled_exact length_X_text)

lemma X_entity_ref:
  "X_ref x = Some e \<Longrightarrow> e = CHR ''&'' # tl e \<and> X_entity (e @ r) = (length e, length e - 1, x)"
  unfolding X_ref_cases by (elim insertE; simp add: X_entity_def starts_def)

lemma X2G_text:
  assumes "quote q"
  shows "X2G_count q (X_text s @ q # r) l c = Inr (l + length s + X_refs s, c + X_refs s)"
    "X2G_copy q (X_text s @ q # r) = Inr s"
proof (induction s arbitrary: l c)
  case Nil
  have "q \<noteq> CHR ''&''" using assms by (auto simp: quote_def)
  then show "X2G_count q (X_text [] @ q # r) l c = Inr (l + length [] + X_refs [], c + X_refs [])"
    "X2G_copy q (X_text [] @ q # r) = Inr []" for l c by (simp_all add: X_text_def X_refs_def)
next
  case (Cons x s)
  show "X2G_count q (X_text (x # s) @ q # r) l c = Inr (l + length (x # s) + X_refs (x # s), c + X_refs (x # s))" for l c
  proof (cases "X_ref x")
    case None
    then have "x \<noteq> q" "x \<noteq> CHR ''&''" using assms by (auto simp: X_ref_cases quote_def)
    then show ?thesis using None Cons(1) by (simp add: X_text_def X_refs_def)
  next
    case (Some e)
    obtain r' where e: "e = CHR ''&'' # r'" "X_entity (e @ X_text s @ q # r) = (length e, length e - 1, x)"
      using X_entity_ref [OF Some, of "X_text s @ q # r"] by (cases e) auto
    then show ?thesis using Some Cons(1) [of "l + length e" "c + (length e - 1)"]
      by (simp add: X_text_def X_refs_def add.assoc)
  qed
  show "X2G_copy q (X_text (x # s) @ q # r) = Inr (x # s)"
  proof (cases "X_ref x")
    case None
    then have "x \<noteq> q" "x \<noteq> CHR ''&''" using assms by (auto simp: X_ref_cases quote_def)
    then show ?thesis using None Cons(2) by (simp add: X_text_def)
  next
    case (Some e)
    obtain r' where e: "e = CHR ''&'' # r'" "X_entity (e @ X_text s @ q # r) = (length e, length e - 1, x)"
      using X_entity_ref [OF Some, of "X_text s @ q # r"] by (cases e) auto
    then show ?thesis using Some Cons(2) by (simp add: X_text_def)
  qed
qed

text \<open>C27: every text survives as an XML string in either kind of quotation marks, whatever follows it.\<close>
theorem xml_string_roundtrip:
  assumes "c_string s" "quote q"
  shows "bind_res (strG2X s q) (\<lambda>x. strX2G (x @ r)) = Inr s"
  using assms by (simp add: strG2X_text strX2G_def X2G_text filled_exact)

lemma xml_string_roundtrip_witness:
  "bind_res (strG2X ''a<b>&c'' CHR 0x27) (\<lambda>x. strX2G (x @ '' />'')) = Inr ''a<b>&c''"
  by (rule xml_string_roundtrip) (simp_all add: quote_def)

text \<open>C26: the tools escape a text as the library does, \<open>XmlStr2Entity\<close> of \<open>src/xmlutils.cpp\<close>, unless it has a
  tabulator or a line break.\<close>
theorem escapers_agree:
  assumes "c_string s" "quote q" "no_breaks s"
  shows "strG2X s q = Inr (q # the (XmlStr2Entity s) @ [q])"
  using assms XmlStr2Entity_escape [of s] by (simp add: strG2X_text X_text_agrees)

lemma escapers_agree_witness:
  "strG2X ''i<n'' CHR 0x27 = Inr (CHR 0x27 # the (XmlStr2Entity ''i<n'') @ [CHR 0x27])"
  by (rule escapers_agree) (simp_all add: quote_def no_breaks_def)

lemma X2G_lone:
  assumes "quote q" "CHR ''&'' \<notin> set v" "q \<notin> set v"
  shows "X2G_count q (v @ q # r) l c = Inr (l + length v, c)" "X2G_copy q (v @ q # r) = Inr v"
  using assms by (induction v arbitrary: l c) (auto simp: quote_def)

text \<open>C34: one ampersand that starts none of the five references makes \<open>strX2G\<close> write behind its buffer; a
  numeric reference, as the library prints for a line break, is such a one.\<close>
theorem lone_ampersand_overflows:
  assumes "quote q" "CHR ''&'' \<notin> set (u @ v)" "q \<notin> set (u @ v)"
    "X_entity (CHR ''&'' # v @ [q]) = (1, 1, CHR ''&'')"
  shows "strX2G (q # u @ CHR ''&'' # v @ [q]) = Inl (Undef ''write past the end of the buffer'')"
proof -
  have "X2G_count q (u @ CHR ''&'' # v @ [q]) l c = Inr (l + length u + 1 + length v, c + 1)"
    "X2G_copy q (u @ CHR ''&'' # v @ [q]) = Inr (u @ CHR ''&'' # v)" for l c
    using assms X2G_lone [of q v "[]"] by (induction u arbitrary: l c) (auto simp: quote_def)
  then show ?thesis using assms(1) by (simp add: strX2G_def filled_def)
qed

lemma lone_ampersand_overflows_witness:
  "strX2G (CHR 0x27 # ''a'' @ CHR ''&'' # ''#010;b'' @ [CHR 0x27]) = Inl (Undef ''write past the end of the buffer'')"
  by (rule lone_ampersand_overflows) (simp_all add: quote_def X_entity_def starts_def)

end
