(* ===== verification/ToolXml.thy ===== *)
theory ToolXml
  imports LangStr XmlDom
begin

text \<open>
  The XML reader and printer of the tools, \<open>tools/xevutil_xml.c\<close>: \<open>read_xml\<close> and \<open>fprint_xml\<close>, the trees
  they work on, and what the reader makes of a document that the library or a tool has printed.
\<close>

subsection \<open>Trees\<close>

text \<open>
  \<open>xmlcell_t\<close> and \<open>xmlnode_t\<close>: a list of siblings is a list of cells; a null pointer for a string is
  \<open>None\<close>. The types are the ones the reader makes.
\<close>

datatype xtype = XNode | XDec | XComm | XClose

datatype xcell = XCell (x_type: xtype) (x_name: string) (x_pre: "string option") (x_post: "string option")
  (x_attr: "(string \<times> string option) list") (x_child: "xcell list")

definition xml_make_cell :: "xtype \<Rightarrow> string \<Rightarrow> string option \<Rightarrow> xcell" where
  "xml_make_cell ty nm pre = XCell ty nm pre None [] []"

definition xml_add_attr :: "xcell \<Rightarrow> string \<Rightarrow> string option \<Rightarrow> xcell" where
  "xml_add_attr x nm v = (case x of XCell ty n p t as cs \<Rightarrow> XCell ty n p t (as @ [(nm, v)]) cs)"

subsection \<open>The buffer\<close>

text \<open>
  The reader: the rest of the file, the characters in \<open>strbuf\<close> up to \<open>strbufp\<close>, the end-of-file flag. At
  the end of the file \<open>fgetc\<close> yields \<open>(char)EOF\<close>, which is stored like a character before the flag is seen.
\<close>

record rd =
  rest :: string
  buf :: string
  eof :: bool

definition STRBUFSIZE :: nat where
  "STRBUFSIZE = 1048576"

definition c_str :: "string \<Rightarrow> string" where
  "c_str s = takeWhile (\<lambda>c. c \<noteq> NUL) s"

text \<open>\<open>copybufxml\<close>: the buffer between double quotes, its own ones replaced, is given to \<open>strX2G\<close>.\<close>

definition requote :: "string \<Rightarrow> string" where
  "requote b = concat (map (\<lambda>c. if c = CHR 0x22 then ''&quot;'' else [c]) b)"

definition copybufxml :: "string \<Rightarrow> string res" where
  "copybufxml b = (if b = [] then Inr [] else strX2G (CHR 0x22 # requote b @ [CHR 0x22]))"

text \<open>
  \<open>loaduntil\<close>: the NUL that ends the buffer may be stored one behind its end.
\<close>

fun load :: "string \<Rightarrow> string \<Rightarrow> string \<Rightarrow> (char \<times> string \<times> string) res" where
  "load ds [] b =
     (if STRBUFSIZE \<le> length b then Inl (Fatal ''too long xml data'') else Inr (NUL, [], b @ [CHR 0xFF]))"
| "load ds (c # r) b =
     (if c \<in> set ds
      then if STRBUFSIZE \<le> length b then Inl (Undef ''write past the end of the buffer'') else Inr (c, r, b)
      else if STRBUFSIZE \<le> length b then Inl (Fatal ''too long xml data'')
      else load ds r (b @ [c]))"

definition loaduntil :: "string \<Rightarrow> rd \<Rightarrow> (char \<times> rd) res" where
  "loaduntil ds st =
     (if eof st then Inr (NUL, st)
      else bind_res (load ds (rest st) (buf st)) (\<lambda>(c, r, b).
        Inr (c, \<lparr>rest = r, buf = b, eof = (c \<notin> set ds)\<rparr>)))"

fun until_quote :: "char \<Rightarrow> string \<Rightarrow> string \<Rightarrow> (string \<times> string) res" where
  "until_quote q [] b = Inl (Fatal ''error at reading attribute text (end of file)'')"
| "until_quote q (c # r) b =
     (if c = q
      then if STRBUFSIZE \<le> length b then Inl (Undef ''write past the end of the buffer'') else Inr (b, r)
      else if STRBUFSIZE \<le> length b then Inl (Fatal ''assertion failed: strbufp < STRBUFSIZE'')
      else until_quote q r (b @ [c]))"

definition loadxmlstring :: "rd \<Rightarrow> (string \<times> rd) res" where
  "loadxmlstring st = (case dropWhile (\<lambda>c. c = CHR '' '') (rest st) of
     [] \<Rightarrow> Inl (Fatal ''error at reading attribute text'')
   | q # r \<Rightarrow>
       if \<not> quote q then Inl (Fatal ''error at reading attribute text'')
       else bind_res (until_quote q r []) (\<lambda>(b, r).
            bind_res (copybufxml b) (\<lambda>v. Inr (v, st\<lparr>rest := r, buf := []\<rparr>))))"

subsection \<open>Tags\<close>

lemma load_shorter:
  "load ds s b = Inr (c, r, b') \<Longrightarrow> c \<in> set ds \<Longrightarrow> NUL \<notin> set ds \<Longrightarrow> length r < length s"
  by (induction ds s b rule: load.induct) (fastforce split: if_splits)+

lemma loaduntil_shorter:
  "loaduntil ds st = Inr (c, st') \<Longrightarrow> c \<in> set ds \<Longrightarrow> NUL \<notin> set ds \<Longrightarrow>
     length (rest st') < length (rest st)"
  by (auto simp: loaduntil_def bind_res_eq_Inr dest: load_shorter split: if_splits)

lemma until_quote_shorter: "until_quote q s b = Inr (b', r) \<Longrightarrow> length r < length s"
  by (induction q s b rule: until_quote.induct) (auto split: if_splits)

lemma loadxmlstring_shorter: "loadxmlstring st = Inr (v, st') \<Longrightarrow> length (rest st') \<le> length (rest st)"
proof -
  assume "loadxmlstring st = Inr (v, st')"
  then have "length (rest st') \<le> length (dropWhile (\<lambda>c. c = CHR '' '') (rest st))"
    by (auto simp: loadxmlstring_def bind_res_eq_Inr dest!: until_quote_shorter split: list.splits if_splits)
  then show ?thesis using length_dropWhile_le [of "\<lambda>c. c = CHR '' ''" "rest st"] by linarith
qed

text \<open>The loop over the attributes, and the character that ends it; what is not a delimiter stays in the buffer.\<close>

function get_attrs :: "xcell \<Rightarrow> rd \<Rightarrow> (xcell \<times> char \<times> rd) res" where
  "get_attrs x st =
     bind_res (loaduntil '' =/>'' st) (\<lambda>(c, st).
       if c = CHR ''=''
       then bind_res (loadxmlstring (st\<lparr>buf := []\<rparr>)) (\<lambda>(v, st').
              get_attrs (xml_add_attr x (c_str (buf st)) (Some v)) st')
       else if c = CHR ''/'' \<or> c = CHR ''>'' then Inr (x, c, st)
       else if c = NUL then Inl (Fatal ''error within attribute'')
       else if c = CHR '' '' then get_attrs x st
       else Inl (Undef ''no such delimiter''))"
  by pat_completeness auto
termination
  by (relation "measure (\<lambda>(x, st). length (rest st))")
    (auto dest!: loaduntil_shorter loadxmlstring_shorter)

declare get_attrs.simps [simp del]

text \<open>
  The loop over a comment: it ends at a \<open>>\<close> when the two characters before the last one are dashes.
\<close>

definition comment_closed :: "string \<Rightarrow> bool" where
  "comment_closed b \<longleftrightarrow> 3 \<le> length b \<and> b ! (length b - 2) = CHR ''-'' \<and> b ! (length b - 3) = CHR ''-''"

function get_comment :: "rd \<Rightarrow> rd res" where
  "get_comment st =
     bind_res (loaduntil ''>'' st) (\<lambda>(c, st).
       if c = NUL then Inl (Fatal ''error at XML comment'')
       else if comment_closed (buf st) then Inr st
       else if c = CHR ''>'' then get_comment st
       else Inl (Undef ''no such delimiter''))"
  by pat_completeness auto
termination
  by (relation "measure (\<lambda>st. length (rest st))") (auto dest!: loaduntil_shorter)

declare get_comment.simps [simp del]

text \<open>
  \<open>get_xml\<close> up to its children: nothing, a finished cell, or a cell whose children follow.
\<close>

datatype tag = NoTag | Whole xcell | Opened xcell

definition get_tag :: "rd \<Rightarrow> (tag \<times> rd) res" where
  "get_tag st =
     bind_res (loaduntil ''<'' st) (\<lambda>(c, st).
       if c \<noteq> CHR ''<'' then Inr (NoTag, st)
       else bind_res (copybufxml (buf st)) (\<lambda>pretext.
            bind_res (loaduntil '' />'' (st\<lparr>buf := []\<rparr>)) (\<lambda>(c, st).
              if c = CHR ''/'' \<and> buf st = []
              then bind_res (loaduntil ''>'' st) (\<lambda>(c, st).
                Inr (Whole (xml_make_cell XClose (c_str (buf st)) (Some pretext)), st\<lparr>buf := []\<rparr>))
              else if c = NUL then Inl (Fatal ''unstructured XML'')
              else if head_or_NUL (buf st) = CHR ''?''
              then if STRBUFSIZE \<le> length (buf st) then Inl (Fatal ''assertion failed: strbufp < STRBUFSIZE'')
                else bind_res (loaduntil ''>'' (st\<lparr>buf := buf st @ [c]\<rparr>)) (\<lambda>(c, st).
                  if c = NUL then Inl (Fatal ''error at XML dec'')
                  else Inr (Whole (xml_make_cell XDec (c_str (buf st)) (Some pretext)), st\<lparr>buf := []\<rparr>))
              else if c_str (buf st) = ''!--''
              then bind_res (get_comment st) (\<lambda>st.
                  Inr (Whole (xml_make_cell XComm (c_str (buf st)) (Some pretext)), st\<lparr>buf := []\<rparr>))
              else let x = xml_make_cell XNode (c_str (buf st)) (Some pretext) in
                bind_res (if c = CHR '' '' then get_attrs x (st\<lparr>buf := []\<rparr>) else Inr (x, c, st\<lparr>buf := []\<rparr>))
                  (\<lambda>(x, c, st).
                    if c = CHR ''/'' then bind_res (loaduntil ''>'' st) (\<lambda>(c, st). Inr (Whole x, st))
                    else Inr (Opened x, st)))))"

subsection \<open>The reader\<close>

text \<open>
  \<open>get_xml\<close> and its loop over the children, with fuel; \<open>read_xml_returns\<close> shows that what \<open>read_xml\<close>
  gives them is enough. A closing tag is not compared with the one it closes, and the end of the
  file closes everything.
\<close>

definition out_of_fuel :: "'a res" where
  "out_of_fuel = Inl (Undef ''out of fuel'')"

definition with_children :: "xcell \<Rightarrow> xcell list \<Rightarrow> string option \<Rightarrow> xcell" where
  "with_children x cs post = (case x of XCell ty n p t as ds \<Rightarrow> XCell ty n p post as (ds @ cs))"

fun get_xml :: "nat \<Rightarrow> rd \<Rightarrow> (xcell option \<times> rd) res"
and get_children :: "nat \<Rightarrow> rd \<Rightarrow> (xcell list \<times> string option \<times> rd) res" where
  "get_xml 0 st = out_of_fuel"
| "get_xml (Suc n) st =
     bind_res (get_tag st) (\<lambda>(t, st). case t of
         NoTag \<Rightarrow> Inr (None, st)
       | Whole x \<Rightarrow> Inr (Some x, st)
       | Opened x \<Rightarrow> bind_res (get_children n st) (\<lambda>(cs, post, st). Inr (Some (with_children x cs post), st)))"
| "get_children 0 st = out_of_fuel"
| "get_children (Suc n) st =
     bind_res (get_xml n st) (\<lambda>(y, st). case y of
         None \<Rightarrow> Inr ([], None, st)
       | Some y \<Rightarrow>
           if x_type y = XClose then Inr ([], x_pre y, st)
           else bind_res (get_children n st) (\<lambda>(cs, post, st). Inr (y # cs, post, st)))"

fun read_more :: "nat \<Rightarrow> rd \<Rightarrow> xcell list res" where
  "read_more 0 st = out_of_fuel"
| "read_more (Suc n) st =
     (if eof st then Inr []
      else bind_res (get_xml n st) (\<lambda>(y, st). case y of
          None \<Rightarrow> Inr []
        | Some y \<Rightarrow> bind_res (read_more n st) (\<lambda>ys. Inr (y # ys))))"

definition read_xml :: "string \<Rightarrow> xcell list res" where
  "read_xml file =
     (let n = 2 * length file + 3 in
      bind_res (get_xml n \<lparr>rest = file, buf = [], eof = False\<rparr>) (\<lambda>(x, st). case x of
          None \<Rightarrow> Inr []
        | Some x \<Rightarrow> bind_res (read_more n st) (\<lambda>ys. Inr (x # ys))))"

subsection \<open>The printer\<close>






subsection \<open>Fuel\<close>

text \<open>Errors of the code are not the error of the fuel.\<close>

definition fuelled :: "'a res \<Rightarrow> bool" where
  "fuelled r \<longleftrightarrow> r \<noteq> out_of_fuel"

lemma fuelled_simps [simp]:
  "fuelled (Inr x)" "fuelled (Inl (Fatal e))" "fuelled (Inl (Undef e)) \<longleftrightarrow> e \<noteq> ''out of fuel''"
  "fuelled past_end" "\<not> fuelled out_of_fuel"
  by (simp_all add: fuelled_def out_of_fuel_def past_end_def)

lemma fuelled_bind [simp]: "fuelled (bind_res m k) \<longleftrightarrow> fuelled m \<and> (\<forall>x. m = Inr x \<longrightarrow> fuelled (k x))"
  by (cases m) (auto simp: fuelled_def out_of_fuel_def)

lemma fuelled_filled [simp]: "fuelled (filled len t)"
  by (simp add: filled_def)

lemma fuelled_X2G_count [simp]: "fuelled (X2G_count q s l c)"
  by (induction q s l c rule: X2G_count.induct) (auto split: prod.splits)

lemma fuelled_X2G_copy [simp]: "fuelled (X2G_copy q s)"
  by (induction q s rule: X2G_copy.induct) (auto split: prod.splits)

lemma fuelled_copybufxml [simp]: "fuelled (copybufxml b)"
  by (simp add: copybufxml_def strX2G_def split: prod.splits)

lemma fuelled_load [simp]: "fuelled (load ds s b)"
  by (induction ds s b rule: load.induct) simp_all

lemma fuelled_loaduntil [simp]: "fuelled (loaduntil ds st)"
  by (simp add: loaduntil_def split: prod.splits)

lemma fuelled_until_quote [simp]: "fuelled (until_quote q s b)"
  by (induction q s b rule: until_quote.induct) simp_all

lemma fuelled_loadxmlstring [simp]: "fuelled (loadxmlstring st)"
  by (simp add: loadxmlstring_def split: list.splits prod.splits)

lemma fuelled_get_attrs [simp]: "fuelled (get_attrs x st)"
proof (induction x st rule: get_attrs.induct)
  case (1 x st)
  then show ?case unfolding get_attrs.simps [of x st] by (simp split: prod.splits)
qed

lemma fuelled_get_comment [simp]: "fuelled (get_comment st)"
proof (induction st rule: get_comment.induct)
  case (1 st)
  then show ?case unfolding get_comment.simps [of st] by (simp split: prod.splits)
qed

lemma fuelled_get_tag [simp]: "fuelled (get_tag st)"
  by (simp add: get_tag_def Let_def split: prod.splits)

text \<open>A tag takes characters from the file.\<close>

lemma loaduntil_le: "loaduntil ds st = Inr (c, st') \<Longrightarrow> length (rest st') \<le> length (rest st)"
proof -
  have "load ds s b = Inr (c, r, b') \<Longrightarrow> length r \<le> length s" for s b r b'
    by (induction ds s b rule: load.induct) (fastforce split: if_splits)+
  then show "loaduntil ds st = Inr (c, st') \<Longrightarrow> length (rest st') \<le> length (rest st)"
    by (auto simp: loaduntil_def bind_res_eq_Inr split: if_splits)
qed

lemma get_attrs_le: "get_attrs x st = Inr (y, c, st') \<Longrightarrow> length (rest st') \<le> length (rest st)"
proof (induction x st rule: get_attrs.induct)
  case (1 x st)
  obtain d st1 where d: "loaduntil '' =/>'' st = Inr (d, st1)" and le: "length (rest st1) \<le> length (rest st)"
    using 1(3) loaduntil_le [of "'' =/>''" st] by (auto simp: get_attrs.simps [of x st] bind_res_eq_Inr)
  show ?case
  proof (cases "d = CHR ''=''")
    case True
    then obtain v st2 where v: "loadxmlstring (st1\<lparr>buf := []\<rparr>) = Inr (v, st2)"
      "get_attrs (xml_add_attr x (c_str (buf st1)) (Some v)) st2 = Inr (y, c, st')"
      using 1(3) d by (auto simp: get_attrs.simps [of x st] bind_res_eq_Inr)
    then show ?thesis using 1(1) [OF d refl True v(1) refl v(2)] loadxmlstring_shorter [OF v(1)] le by simp
  next
    case False
    then show ?thesis using 1(2) [OF d refl False] 1(3) d le
      by (auto simp: get_attrs.simps [of x st] split: if_splits)
  qed
qed

lemma get_comment_le: "get_comment st = Inr st' \<Longrightarrow> length (rest st') \<le> length (rest st)"
proof (induction st rule: get_comment.induct)
  case (1 st)
  obtain d st1 where d: "loaduntil ''>'' st = Inr (d, st1)" and le: "length (rest st1) \<le> length (rest st)"
    using 1(2) loaduntil_le [of "''>''" st] by (auto simp: get_comment.simps [of st] bind_res_eq_Inr)
  then show ?case using 1(1) [OF d refl] 1(2) by (auto simp: get_comment.simps [of st] split: if_splits)
qed

lemma get_tag_shorter:
  assumes "get_tag st = Inr (t, st')" "t \<noteq> NoTag"
  shows "length (rest st') < length (rest st)"
proof -
  obtain c st1 where 1: "loaduntil ''<'' st = Inr (c, st1)" "c = CHR ''<''"
    using assms by (auto simp: get_tag_def bind_res_eq_Inr split: if_splits)
  have "length (rest st1) < length (rest st)" using loaduntil_shorter [OF 1(1)] 1(2) by simp
  moreover have "length (rest st') \<le> length (rest st1)"
    using assms 1
    by (auto simp: get_tag_def bind_res_eq_Inr Let_def split: if_splits
        dest!: loaduntil_le get_attrs_le get_comment_le)
  ultimately show ?thesis by simp
qed


text \<open>What is read gets shorter; with twice the length of the file as fuel the reader never stops early.\<close>

lemma get_tag_le: "get_tag st = Inr (t, st') \<Longrightarrow> length (rest st') \<le> length (rest st)"
proof (cases "t = NoTag")
  case True
  assume "get_tag st = Inr (t, st')"
  then show ?thesis
    using True by (auto simp: get_tag_def bind_res_eq_Inr Let_def split: if_splits dest!: loaduntil_le)
qed (auto dest: get_tag_shorter)

lemma get_xml_shorter:
  "get_xml n st = Inr (y, st') \<Longrightarrow> length (rest st') \<le> length (rest st) \<and> (y \<noteq> None \<longrightarrow> length (rest st') < length (rest st))"
  "get_children n st = Inr (cs, p, st') \<Longrightarrow> length (rest st') \<le> length (rest st)"
proof (induction n arbitrary: st y st' cs p)
  case (Suc n)
  { case 1
    then obtain t st1 where t: "get_tag st = Inr (t, st1)" by (auto simp: bind_res_eq_Inr)
    show ?case
    proof (cases t)
      case NoTag
      then show ?thesis using 1 t get_tag_le [OF t] by simp
    next
      case (Whole x)
      then show ?thesis using 1 t get_tag_shorter [OF t] by simp
    next
      case (Opened x)
      then obtain cs p where "get_children n st1 = Inr (cs, p, st')" using 1 t by (auto simp: bind_res_eq_Inr)
      then show ?thesis using Suc(2) [of st1] Opened get_tag_shorter [OF t] by fastforce
    qed
  next
    case 2
    then obtain y st1 where y: "get_xml n st = Inr (y, st1)" by (auto simp: bind_res_eq_Inr)
    show ?case
    proof (cases "y = None \<or> x_type (the y) = XClose")
      case True
      then show ?thesis using 2 y Suc(1) [OF y] by (cases y) auto
    next
      case False
      then obtain cs p where "get_children n st1 = Inr (cs, p, st')" using 2 y by (auto simp: bind_res_eq_Inr)
      then show ?thesis using Suc(2) [of st1] Suc(1) [OF y] by fastforce
    qed }
qed (simp_all add: out_of_fuel_def)

lemma get_xml_fuelled:
  "2 * length (rest st) + 2 \<le> n \<Longrightarrow> fuelled (get_xml n st)"
  "2 * length (rest st) + 3 \<le> n \<Longrightarrow> fuelled (get_children n st)"
proof (induction n arbitrary: st)
  case (Suc n)
  { case 1
    have "fuelled (get_children n st1)" if "get_tag st = Inr (Opened x, st1)" for x st1
      using get_tag_shorter [OF that] 1 by (intro Suc(2)) simp
    then show ?case by (auto split: tag.splits)
  next
    case 2
    have 1: "fuelled (get_xml n st)" using 2 by (intro Suc(1)) simp
    have "fuelled (get_children n st1)" if "get_xml n st = Inr (Some y, st1)" for y st1
      using get_xml_shorter(1) [OF that] 2 by (intro Suc(2)) simp
    then show ?case using 1 by (auto split: option.splits)
  }
qed simp_all

lemma read_more_fuelled: "2 * length (rest st) + 3 \<le> n \<Longrightarrow> fuelled (read_more n st)"
proof (induction n arbitrary: st)
  case (Suc n)
  have 1: "fuelled (get_xml n st)" using Suc by (intro get_xml_fuelled) simp
  have "fuelled (read_more n st1)" if "get_xml n st = Inr (Some y, st1)" for y st1
    using get_xml_shorter(1) [OF that] Suc by (intro Suc(1)) simp
  then show ?case using 1 by (auto split: option.splits)
qed simp

text \<open>C16: \<open>read_xml\<close> returns for every file: twice the length of the file bounds the calls it makes.\<close>
theorem read_xml_returns: "read_xml file \<noteq> out_of_fuel"
proof -
  let ?n = "2 * length file + 3" and ?st = "\<lparr>rest = file, buf = [], eof = False\<rparr>"
  have 1: "fuelled (get_xml ?n ?st)" by (intro get_xml_fuelled) simp
  have "fuelled (read_more ?n st)" if "get_xml ?n ?st = Inr (y, st)" for y st
    using get_xml_shorter(1) [OF that] by (intro read_more_fuelled) simp
  then have "fuelled (read_xml file)" using 1 unfolding read_xml_def Let_def by (auto split: option.splits simp del: get_xml.simps read_more.simps)
  then show ?thesis by (simp add: fuelled_def)
qed




subsection \<open>What the reader makes of a printed document\<close>

text \<open>
  The cells of a document as it is printed: text between tags belongs to the next tag, the text before a
  closing tag to its element.
\<close>

definition text_of :: "string \<Rightarrow> string res" where
  "text_of b = (if length b < STRBUFSIZE then copybufxml b else Inl (Fatal ''too long xml data''))"

fun tool_attrs :: "chunk list \<Rightarrow> (string \<times> string option) list res" where
  "tool_attrs [] = Inr []"
| "tool_attrs ((n, v, t) # cs) =
     bind_res (text_of v) (\<lambda>w. bind_res (tool_attrs cs) (\<lambda>as. Inr ((n, Some w) # as)))"

fun cells_of :: "string \<Rightarrow> xitem list \<Rightarrow> (xcell list \<times> string) res" where
  "cells_of b [] = bind_res (text_of b) (\<lambda>t. Inr ([], t))"
| "cells_of b (XText s # xs) = cells_of (b @ s) xs"
| "cells_of b (XElem nm cs None # xs) =
     bind_res (text_of b) (\<lambda>p. bind_res (tool_attrs cs) (\<lambda>as.
     bind_res (cells_of [] xs) (\<lambda>(cells, t). Inr (XCell XNode nm (Some p) None as [] # cells, t))))"
| "cells_of b (XElem nm cs (Some ys) # xs) =
     bind_res (text_of b) (\<lambda>p. bind_res (tool_attrs cs) (\<lambda>as.
     bind_res (cells_of [] ys) (\<lambda>(ks, post).
     bind_res (cells_of [] xs) (\<lambda>(cells, t). Inr (XCell XNode nm (Some p) (Some post) as ks # cells, t)))))"

text \<open>Names, values and texts that the delimiters do not cut.\<close>

definition free_of :: "string \<Rightarrow> string \<Rightarrow> bool" where
  "free_of ds s \<longleftrightarrow> set ds \<inter> set s = {}"

definition tag_name :: "string \<Rightarrow> bool" where
  "tag_name nm \<longleftrightarrow> nm \<noteq> [] \<and> c_string nm \<and> free_of '' />'' nm \<and> hd nm \<noteq> CHR ''?'' \<and> nm \<noteq> ''!--'' \<and>
     length nm < STRBUFSIZE"

definition chunk_lex :: "chunk \<Rightarrow> bool" where
  "chunk_lex a \<longleftrightarrow> (case a of (n, v, t) \<Rightarrow> c_string n \<and> free_of '' =/>'' n \<and> length n < STRBUFSIZE \<and>
     CHR 0x22 \<notin> set v \<and> set t \<subseteq> {CHR '' ''})"

fun lex_ok :: "xitem \<Rightarrow> bool" where
  "lex_ok (XText s) = (CHR ''<'' \<notin> set s)"
| "lex_ok (XElem nm cs None) = (tag_name nm \<and> list_all chunk_lex cs)"
| "lex_ok (XElem nm cs (Some xs)) = (tag_name nm \<and> list_all chunk_lex cs \<and> list_all lex_ok xs)"

abbreviation at :: "string \<Rightarrow> rd" where
  "at s \<equiv> \<lparr>rest = s, buf = [], eof = False\<rparr>"

lemma free_of_simps [simp]:
  "free_of ds [] = True" "free_of ds (c # s) \<longleftrightarrow> c \<notin> set ds \<and> free_of ds s"
  "free_of ds (s @ t) \<longleftrightarrow> free_of ds s \<and> free_of ds t"
  by (auto simp: free_of_def)






lemma text_of_Inr: "text_of b = Inr t \<longleftrightarrow> length b < STRBUFSIZE \<and> copybufxml b = Inr t"
  by (simp add: text_of_def)

lemma c_str_id [simp]: "c_string s \<Longrightarrow> c_str s = s"
  by (simp add: c_str_def takeWhile_c_string)


subsection \<open>Attributes\<close>

definition add_attrs :: "xcell \<Rightarrow> (string \<times> string option) list \<Rightarrow> xcell" where
  "add_attrs x as = (case x of XCell ty n p t bs cs \<Rightarrow> XCell ty n p t (bs @ as) cs)"

lemma add_attrs_simps [simp]: "add_attrs x [] = x"
  "add_attrs (xml_add_attr x n v) as = add_attrs x ((n, v) # as)"
  by (cases x; simp add: add_attrs_def xml_add_attr_def)+





subsection \<open>Tags\<close>





subsection \<open>Documents\<close>













subsection \<open>Printing and reading\<close>













lemma requote_free: "CHR 0x22 \<notin> set s \<Longrightarrow> requote s = s"
  by (induction s) (auto simp: requote_def)









subsection \<open>The same document as the XML processor\<close>

text \<open>Where \<open>strX2G\<close> does not run out of its buffer it decodes as an XML processor does.\<close>

fun X_decode :: "string \<Rightarrow> string" where
  "X_decode [] = []"
| "X_decode (x # r) =
     (if x = CHR ''&'' then case X_entity (x # r) of (k, d, y) \<Rightarrow> y # X_decode (drop (k - 1) r)
      else x # X_decode r)"

fun bare :: "string \<Rightarrow> nat" where
  "bare [] = 0"
| "bare (x # r) =
     (if x = CHR ''&'' then case X_entity (x # r) of (k, d, y) \<Rightarrow> (if k = 1 then 1 else 0) + bare (drop (k - 1) r)
      else bare r)"

lemma starts_before: "q \<notin> set p \<Longrightarrow> starts p (v @ q # r) \<longleftrightarrow> starts p v"
proof (induction p arbitrary: v)
  case (Cons x p)
  then show ?case by (cases v) (auto simp: starts_def)
qed (simp add: starts_def)

lemma X_entity_before: "quote q \<Longrightarrow> X_entity (v @ q # r) = X_entity v"
  by (simp add: X_entity_def starts_before quote_def) (auto simp: quote_def starts_before)

lemma X_entity_length:
  assumes "X_entity (CHR ''&'' # r) = (k, d, y)"
  shows "1 \<le> k \<and> k \<le> Suc (length r) \<and> d = (if k = 1 then 1 else k - 1)"
proof -
  have "length p \<le> length s" if "starts p s" for p s
    using that by (metis length_take min.cobounded1 starts_def)
  from this [of "''&lt;''" "CHR ''&'' # r"] this [of "''&gt;''" "CHR ''&'' # r"] this [of "''&amp;''" "CHR ''&'' # r"]
    this [of "''&quot;''" "CHR ''&'' # r"] this [of "''&apos;''" "CHR ''&'' # r"]
  show ?thesis using assms by (auto simp: X_entity_def split: if_splits)
qed

lemma X2G_decode:
  assumes "quote q"
  shows "q \<notin> set v \<Longrightarrow> X2G_copy q (v @ [q]) = Inr (X_decode v)"
    "q \<notin> set v \<Longrightarrow> X2G_count q (v @ [q]) l c =
      Inr (l + length v, c + (length v - length (X_decode v)) + bare v)"
    "length (X_decode v) \<le> length v"
proof (induction v arbitrary: l c rule: X_decode.induct)
  case 1
  { case 1 then show ?case using assms by auto
  next case 2 then show ?case using assms by auto
  next case 3 show ?case by simp }
next
  case (2 x r)
  obtain k d y where e: "X_entity (x # r) = (k, d, y)" by (cases "X_entity (x # r)")
  have e': "X_entity (x # r @ [q]) = (k, d, y)" using X_entity_before [OF assms, of "x # r" "[]"] e by simp
  { case 1
    then show ?case
    proof (cases "x = CHR ''&''")
      case True
      have "q \<notin> set (drop (k - 1) r)" using 1 by (meson in_set_dropD list.set_intros(2))
      then show ?thesis using "2.IH"(1) [OF True e [symmetric] refl] X_entity_length [of r k d y] e e' True by simp
    qed (use "2.IH"(4) in auto)
  next
    case 2
    show ?case
    proof (cases "x = CHR ''&''")
      case True
      have k: "1 \<le> k" "k \<le> Suc (length r)" "d = (if k = 1 then 1 else k - 1)"
        using X_entity_length [of r k d y] e True by simp_all
      have "q \<notin> set (drop (k - 1) r)" using 2 by (meson in_set_dropD list.set_intros(2))
      then have "X2G_count q (drop (k - 1) r @ [q]) (l + k) (c + d) = Inr (l + k + (length r - (k - 1)),
          c + d + (length r - (k - 1) - length (X_decode (drop (k - 1) r))) + bare (drop (k - 1) r))"
        using "2.IH"(2) [OF True e [symmetric] refl, of "l + k" "c + d"] by simp
      moreover have "length (X_decode (drop (k - 1) r)) \<le> length r - (k - 1)"
        using "2.IH"(3) [OF True e [symmetric] refl] by simp
      ultimately show ?thesis using e e' True k by auto
    qed (use "2.IH"(5,6) 2 in auto)
  next
    case 3
    show ?case
    proof (cases "x = CHR ''&''")
      case True
      then show ?thesis using "2.IH"(3) [OF True e [symmetric] refl] e by simp
    qed (use "2.IH"(6) in auto)
  }
qed

lemma requote_id: "CHR 0x22 \<notin> set v \<Longrightarrow> requote v = v"
  by (rule requote_free)

lemma starts_prefix: "starts p s \<longleftrightarrow> prefix p s"
  by (simp add: starts_def take_prefix)

lemma X_entity_ref_at:
  assumes "X_entity s = (k, d, y)" "k \<noteq> 1"
  shows "ref_at s = Some (y, take k s)"
proof -
  have *: "starts p s \<Longrightarrow> take (length p) s = p" for p by (simp add: starts_def)
  have nth: "prefix p s \<Longrightarrow> 1 < length p \<Longrightarrow> s ! 1 = p ! 1" for p :: string
    by (auto simp: prefix_def nth_append)
  have amp: "\<not> (prefix p s \<and> prefix p' s)" if "p ! 1 \<noteq> p' ! 1" "1 < length p" "1 < length p'" for p p' :: string
    using that nth [of p] nth [of p'] by auto
  consider "starts ''&lt;'' s" "k = 4" "y = CHR ''<''" | "starts ''&gt;'' s" "k = 4" "y = CHR ''>''"
    | "starts ''&amp;'' s" "k = 5" "y = CHR ''&''" | "starts ''&quot;'' s" "k = 6" "y = CHR 0x22"
    | "starts ''&apos;'' s" "k = 6" "y = CHR 0x27"
    using assms by (auto simp: X_entity_def split: if_splits)
  then show ?thesis
  proof cases
    case 1
    then show ?thesis using * [of "''&lt;''"] amp [of "''&lt;''"] by (simp add: ref_at_def ents_def starts_prefix eval_nat_numeral)
  next
    case 2
    then show ?thesis using * [of "''&gt;''"] amp [of "''&gt;''"] by (simp add: ref_at_def ents_def starts_prefix eval_nat_numeral)
  next
    case 3
    then show ?thesis using * [of "''&amp;''"] by (simp add: ref_at_def ents_def starts_prefix eval_nat_numeral)
  next
    case 4
    then show ?thesis using * [of "''&quot;''"] amp [of "''&quot;''"] by (simp add: ref_at_def ents_def starts_prefix eval_nat_numeral)
  next
    case 5
    have "\<not> prefix ''&amp;'' s" using 5 by (auto simp: starts_prefix prefix_def)
    then show ?thesis using 5 * [of "''&apos;''"] amp [of "''&apos;''"] by (simp add: ref_at_def ents_def starts_prefix eval_nat_numeral)
  qed
qed

lemma bare_decode: "bare v = 0 \<Longrightarrow> X_decode v = xml_refs v"
proof (induction v rule: X_decode.induct)
  case (2 x r)
  show ?case
  proof (cases "x = CHR ''&''")
    case True
    obtain k d y where e: "X_entity (x # r) = (k, d, y)" by (cases "X_entity (x # r)")
    have k: "k \<noteq> 1" "bare (drop (k - 1) r) = 0" using 2(3) e True by (auto split: if_splits)
    have "ref_at (x # r) = Some (y, take k (x # r)) \<and> k \<le> Suc (length r)"
      using e k(1) X_entity_length [of r k d y] X_entity_ref_at [of "x # r" k d y] True by auto
    then show ?thesis using 2(1) [OF True e [symmetric] refl k(2)] e True k(1)
      by (simp add: xml_refs.simps(2) min_def)
  next
    case False
    then show ?thesis using 2(2) [OF False] 2(3) by (simp add: xml_refs.simps(2) ref_at_no_amp)
  qed
qed simp

lemma text_of_refs: "text_of v = Inr w \<Longrightarrow> CHR 0x22 \<notin> set v \<Longrightarrow> w = xml_refs v"
proof -
  assume v: "text_of v = Inr w" "CHR 0x22 \<notin> set v"
  have q: "quote CHR 0x22" by (simp add: quote_def)
  show "w = xml_refs v"
  proof (cases "v = []")
    case False
    then have "strX2G (CHR 0x22 # v @ [CHR 0x22]) = Inr w"
      using v by (simp add: text_of_Inr copybufxml_def requote_free)
    then have f: "filled (1 + length v - (length v - length (X_decode v) + bare v)) (X_decode v) = Inr w"
      using X2G_decode(1,2) [OF q v(2)] q by (simp add: strX2G_def)
    have "bare v = 0 \<and> w = X_decode v"
      using f X2G_decode(3) [OF q, of v] by (auto simp: filled_def split: if_splits)
    then show ?thesis using bare_decode by simp
  qed (use v in \<open>simp add: text_of_def copybufxml_def split: if_splits\<close>)
qed


lemma text_of_plain:
  assumes "CHR ''&'' \<notin> set v" "CHR 0x22 \<notin> set v" "c_string v" "length v < STRBUFSIZE"
  shows "text_of v = Inr v"
  using assms X2G_lone [of "CHR 0x22" v "[]"]
  by (simp add: text_of_def copybufxml_def requote_free strX2G_def quote_def filled_exact)

text \<open>Elements and attributes, without the character data.\<close>

fun strip :: "dom \<Rightarrow> dom" where
  "strip (Element nm A ks) = Element nm A (map strip (filter is_element ks))"
| "strip d = d"

fun cell_dom :: "xcell \<Rightarrow> dom" where
  "cell_dom (XCell ty nm p t as cs) = Element nm (map (\<lambda>(n, v). (n, the v)) as) (map cell_dom cs)"

lemma tool_attrs_refs:
  "tool_attrs cs = Inr as \<Longrightarrow> list_all chunk_lex cs \<Longrightarrow> map (\<lambda>(n, v). (n, the v)) as = decode_attrs cs"
  by (induction cs arbitrary: as) (auto simp: bind_res_eq_Inr chunk_lex_def text_of_refs)

lemma cells_same_document:
  "cells_of b xs = Inr (ks, t) \<Longrightarrow> list_all lex_ok xs \<Longrightarrow>
     map cell_dom ks = map strip (filter is_element (map dom_of xs))"
  by (induction b xs arbitrary: ks t rule: cells_of.induct)
    (auto simp: bind_res_eq_Inr tool_attrs_refs)






end
