(* ===== verification/ToolChain.thy ===== *)
theory ToolChain
  imports Conversion ToolXml
begin










end
