(* ===== verification/ToolTree.thy ===== *)
theory ToolTree
  imports ToolXml
begin

text \<open>
  The operations of \<open>tools/xevutil_xml.c\<close> on the trees that its reader makes: paths, making and
  changing cells, taking a tree apart.

  A pointer to a cell stands for the cell and the siblings behind it, so it is a list, and a null pointer is the
  empty one; an operation that changes what a pointer refers to gives the new list. The marks of the garbage
  collector are not modelled: the tools make all cells of a tree dynamic before they change it.
\<close>

subsection \<open>Fields\<close>

definition not_null :: "string \<Rightarrow> 'a res" where
  "not_null s = Inl (Fatal (''assertion failed: '' @ s))"

definition set_child :: "xcell list \<Rightarrow> xcell \<Rightarrow> xcell" where
  "set_child cs x = (case x of XCell ty n p t as ds \<Rightarrow> XCell ty n p t as cs)"

definition xml_make_node :: "string \<Rightarrow> string option \<Rightarrow> xcell" where
  "xml_make_node nm pre = xml_make_cell XNode nm pre"

definition xml_reset_pretext :: "string option \<Rightarrow> xcell \<Rightarrow> xcell" where
  "xml_reset_pretext s x = (case x of XCell ty n p t as cs \<Rightarrow> XCell ty n s t as cs)"

definition xml_reset_posttext :: "string option \<Rightarrow> xcell \<Rightarrow> xcell" where
  "xml_reset_posttext s x = (case x of XCell ty n p t as cs \<Rightarrow> XCell ty n p s as cs)"

definition xml_set_posttext :: "string option \<Rightarrow> xcell \<Rightarrow> xcell res" where
  "xml_set_posttext s x =
     (if x_post x \<noteq> None then Inl (Fatal ''xml_set_posttext: non-null posttext'') else Inr (xml_reset_posttext s x))"

text \<open>\<open>xml_reset_attr\<close> changes the first attribute of the name.\<close>

fun reset_attr :: "string \<Rightarrow> string option \<Rightarrow> (string \<times> string option) list \<Rightarrow> (string \<times> string option) list res" where
  "reset_attr nm v [] = Inl (Fatal ''xml_reset_attr: cannot find attribute'')"
| "reset_attr nm v ((n, w) # as) =
     (if n = nm then Inr ((n, v) # as) else bind_res (reset_attr nm v as) (\<lambda>as. Inr ((n, w) # as)))"

definition xml_reset_attr :: "string \<Rightarrow> string option \<Rightarrow> xcell \<Rightarrow> xcell res" where
  "xml_reset_attr nm v x = (case x of XCell ty n p t as cs \<Rightarrow>
     bind_res (reset_attr nm v as) (\<lambda>as. Inr (XCell ty n p t as cs)))"

text \<open>The value of the first attribute of the name; one without a value is a null pointer like a missing one.\<close>

definition attr_value :: "string \<Rightarrow> xcell \<Rightarrow> string option" where
  "attr_value nm x = (case map_of (x_attr x) nm of None \<Rightarrow> None | Some v \<Rightarrow> v)"

subsection \<open>Lists of siblings\<close>

definition xml_append :: "xcell list \<Rightarrow> xcell list \<Rightarrow> xcell list res" where
  "xml_append xs ys = (if xs = [] then not_null ''x != NULL'' else Inr (xs @ ys))"

definition xml_append_child :: "xcell list \<Rightarrow> xcell \<Rightarrow> xcell" where
  "xml_append_child cs x = set_child (x_child x @ cs) x"

definition xml_insert_child :: "xcell list \<Rightarrow> xcell \<Rightarrow> xcell res" where
  "xml_insert_child cs x = (if cs = [] then not_null ''c != NULL'' else Inr (set_child (cs @ x_child x) x))"

definition xml_insert_next :: "xcell list \<Rightarrow> xcell list \<Rightarrow> xcell list res" where
  "xml_insert_next ns xs = (case xs of
     [] \<Rightarrow> not_null ''x != NULL''
   | x # xs \<Rightarrow> if ns = [] then not_null ''n != NULL'' else Inr (x # ns @ xs))"

definition xml_get_next :: "xcell list \<Rightarrow> xcell list res" where
  "xml_get_next xs = (case xs of [] \<Rightarrow> not_null ''x != NULL'' | x # xs \<Rightarrow> Inr xs)"

definition xml_get_child :: "xcell list \<Rightarrow> xcell list res" where
  "xml_get_child xs = (case xs of [] \<Rightarrow> not_null ''x != NULL'' | x # xs \<Rightarrow> Inr (x_child x))"

definition xml_get_name :: "xcell list \<Rightarrow> string res" where
  "xml_get_name xs = (case xs of [] \<Rightarrow> not_null ''x != NULL'' | x # xs \<Rightarrow> Inr (x_name x))"

definition xml_make_temporal_copy :: "xcell list \<Rightarrow> xcell list res" where
  "xml_make_temporal_copy xs = (case xs of [] \<Rightarrow> Inl (Undef ''null pointer'') | x # xs \<Rightarrow> Inr [x])"

text \<open>The copy for quotations makes every cell an element.\<close>

fun deep_copy_attr :: "(string \<times> string option) list \<Rightarrow> (string \<times> string option) list" where
  "deep_copy_attr [] = []"
| "deep_copy_attr ((n, v) # as) = (n, v) # deep_copy_attr as"

fun xml_make_deep_copy :: "xcell list \<Rightarrow> xcell list" where
  "xml_make_deep_copy [] = []"
| "xml_make_deep_copy (XCell ty n p t as cs # xs) =
     XCell XNode n p t (deep_copy_attr as) (xml_make_deep_copy cs) # xml_make_deep_copy xs"

subsection \<open>Paths\<close>

text \<open>
  The letters of a path: \<open>n\<close> for the next sibling, \<open>c\<close> for the first child. A path may end in what is to be
  read: \<open>s\<close>, \<open>t\<close>, \<open>a=name\<close>, or nothing for the name.
\<close>

fun xml_getstr_at :: "string \<Rightarrow> xcell list \<Rightarrow> string option res" where
  "xml_getstr_at op [] = Inl (Fatal ''xml_getstr: mismatching xml structure'')"
| "xml_getstr_at [] (x # xs) = Inr (Some (x_name x))"
| "xml_getstr_at (k # op) (x # xs) =
     (if k = CHR ''n'' then xml_getstr_at op xs
      else if k = CHR ''c'' then xml_getstr_at op (x_child x)
      else if k = CHR ''s'' then Inr (x_pre x)
      else if k = CHR ''t'' then Inr (x_post x)
      else if k = CHR ''a''
      then if head_or_NUL op \<noteq> CHR ''='' then Inl (Fatal ''xml_getstr: = must follow a'')
           else Inr (attr_value (tl op) x)
      else Inl (Fatal ''xml_getstr: unknown character''))"

definition xml_getstr :: "xcell list \<Rightarrow> string \<Rightarrow> string option res" where
  "xml_getstr xs op = (if xs = [] then Inl (Fatal ''xml_getstr: null xml'') else xml_getstr_at op xs)"

text \<open>\<open>cmp_str\<close>, on what is left of the path behind the letters that are skipped.\<close>

definition cmp_str :: "nat \<Rightarrow> string \<Rightarrow> string option \<Rightarrow> bool res" where
  "cmp_str n op t = (if length op < n then past_end else Inr (Some (drop n op) = t))"

definition chk_attr :: "string \<Rightarrow> xcell \<Rightarrow> bool" where
  "chk_attr s x =
     (case map_of (x_attr x) (takeWhile (\<lambda>c. c \<noteq> CHR ''='') s) of
        None \<Rightarrow> False
      | Some v \<Rightarrow> CHR ''='' \<notin> set s \<or> Some (tl (dropWhile (\<lambda>c. c \<noteq> CHR ''='') s)) = v)"

fun xml_chk_struct :: "xcell list \<Rightarrow> string \<Rightarrow> bool res" where
  "xml_chk_struct [] op = Inr False"
| "xml_chk_struct (x # xs) [] = Inr True"
| "xml_chk_struct (x # xs) (k # op) =
     (if k = CHR ''n'' then xml_chk_struct xs op
      else if k = CHR ''c'' then xml_chk_struct (x_child x) op
      else if k = CHR ''='' then cmp_str 0 op (Some (x_name x))
      else if k = CHR ''s'' then cmp_str 1 op (x_pre x)
      else if k = CHR ''t'' then cmp_str 1 op (x_post x)
      else if k = CHR ''a'' then if op = [] then past_end else Inr (chk_attr (tl op) x)
      else Inl (Fatal ''xml_chk_struct: unknown op''))"

fun xml_get_cell_at :: "string \<Rightarrow> xcell list \<Rightarrow> xcell list res" where
  "xml_get_cell_at [] xs = Inr xs"
| "xml_get_cell_at (k # op) [] = Inl (Fatal ''xml_get_cell: mismatched structure'')"
| "xml_get_cell_at (k # op) (x # xs) =
     (if k = CHR ''n'' then xml_get_cell_at op xs
      else if k = CHR ''c'' then xml_get_cell_at op (x_child x)
      else Inl (Fatal ''xml_get_cell: unknown op''))"

definition xml_get_cell :: "xcell list \<Rightarrow> string \<Rightarrow> xcell list res" where
  "xml_get_cell xs op = (if xs = [] then Inl (Fatal ''xml_get_cell: null xml'') else xml_get_cell_at op xs)"

text \<open>
  \<open>xml_detach_cell\<close> and \<open>xml_cut_link\<close> walk to the cell before the one that the path leads to and change its
  link. They differ in what the link is set to: what follows the cell, or nothing.
\<close>

fun relink :: "(xcell list \<Rightarrow> xcell list) \<Rightarrow> string \<Rightarrow> xcell list \<Rightarrow> (xcell list \<times> xcell list) res" where
  "relink f [] xs = Inl (Fatal ''node must next or child'')"
| "relink f (k # op) [] = Inl (Fatal ''mismatched structure'')"
| "relink f (k # op) (x # xs) =
     (if k = CHR ''n''
      then if xs = [] then Inl (Fatal ''mismatched structure'')
           else if op = [] then Inr (xs, x # f xs)
           else bind_res (relink f op xs) (\<lambda>(ys, xs). Inr (ys, x # xs))
      else if k = CHR ''c''
      then if x_child x = [] then Inl (Fatal ''mismatched structure'')
           else if op = [] then Inr (x_child x, set_child (f (x_child x)) x # xs)
           else bind_res (relink f op (x_child x)) (\<lambda>(ys, cs). Inr (ys, set_child cs x # xs))
      else Inl (Fatal ''unknown op''))"

definition xml_detach_cell :: "xcell list \<Rightarrow> string \<Rightarrow> (xcell \<times> xcell list) res" where
  "xml_detach_cell xs op =
     (if xs = [] then Inl (Fatal ''xml_detach_cell: null xml'')
      else bind_res (relink tl op xs) (\<lambda>(ys, xs). Inr (hd ys, xs)))"

definition xml_cut_link :: "xcell list \<Rightarrow> string \<Rightarrow> (xcell list \<times> xcell list) res" where
  "xml_cut_link xs op =
     (if xs = [] then Inl (Fatal ''xml_cut_link: null xml'') else relink (\<lambda>ys. []) op xs)"

subsection \<open>Laws\<close>

lemma set_child_simps [simp]:
  "x_child (set_child cs x) = cs" "x_name (set_child cs x) = x_name x" "x_attr (set_child cs x) = x_attr x"
  "x_type (set_child cs x) = x_type x" "x_pre (set_child cs x) = x_pre x" "x_post (set_child cs x) = x_post x"
  "set_child ds (set_child cs x) = set_child ds x" "set_child (x_child x) x = x"
  by (cases x; simp add: set_child_def)+

lemma xml_get_cell_at_append:
  "xml_get_cell_at (p @ q) xs = bind_res (xml_get_cell_at p xs) (xml_get_cell_at q)"
  by (induction p xs rule: xml_get_cell_at.induct) auto

lemma xml_getstr_at_append:
  "xml_get_cell_at p xs = Inr ys \<Longrightarrow> xml_getstr_at (p @ q) xs = xml_getstr_at q ys"
  by (induction p xs rule: xml_get_cell_at.induct) (auto split: if_splits)

lemma xml_chk_struct_append:
  "xml_get_cell_at p xs = Inr ys \<Longrightarrow> xml_chk_struct xs (p @ q) = xml_chk_struct ys q"
  by (induction p xs rule: xml_get_cell_at.induct) (auto split: if_splits)

text \<open>What \<open>relink\<close> gives is what the path led to, and the path leads to what the link was set to.\<close>

lemma relink_cell:
  assumes "relink f op xs = Inr (ys, zs)"
  shows "xml_get_cell_at op xs = Inr ys" "ys \<noteq> []" "op \<noteq> []"
    "xml_get_cell_at op zs = Inr (f ys)" "zs \<noteq> []"
proof -
  have "xml_get_cell_at op xs = Inr ys \<and> ys \<noteq> [] \<and> op \<noteq> [] \<and> xml_get_cell_at op zs = Inr (f ys) \<and> zs \<noteq> []"
    using assms
  proof (induction f op xs arbitrary: zs rule: relink.induct)
    case (3 f k op x xs)
    consider "k = CHR ''n''" | "k = CHR ''c''" | "k \<noteq> CHR ''n''" "k \<noteq> CHR ''c''" by blast
    then show ?case
      using 3 by cases (auto simp: bind_res_eq_Inr split: if_splits)
  qed auto
  then show "xml_get_cell_at op xs = Inr ys" "ys \<noteq> []" "op \<noteq> []" "xml_get_cell_at op zs = Inr (f ys)" "zs \<noteq> []"
    by auto
qed

lemma xml_get_cell_at_Nil [simp]: "xml_get_cell_at op [] = Inr ys \<longleftrightarrow> op = [] \<and> ys = []"
  by (cases op) auto

lemma relink_defined:
  assumes "xml_get_cell_at op xs = Inr ys" "ys \<noteq> []" "op \<noteq> []"
  shows "\<exists>zs. relink f op xs = Inr (ys, zs)"
  using assms
proof (induction f op xs rule: relink.induct)
  case (3 f k op x xs)
  show ?case
  proof (cases "op = []")
    case True
    then show ?thesis using "3.prems" by (auto split: if_splits)
  next
    case False
    consider "k = CHR ''n''" "xs \<noteq> []" | "k = CHR ''c''" "x_child x \<noteq> []"
      using "3.prems" False by (cases "xs = []"; cases "x_child x = []") (auto split: if_splits)
    then show ?thesis
    proof cases
      case 1
      then have "\<exists>zs. relink f op xs = Inr (ys, zs)" using "3.IH"(1) "3.prems" False by simp
      then show ?thesis using 1 False by auto
    next
      case 2
      then have "\<exists>zs. relink f op (x_child x) = Inr (ys, zs)" using "3.IH"(2) "3.prems" False by simp
      then show ?thesis using 2 False by auto
    qed
  qed
qed auto

text \<open>C20: \<open>xml_detach_cell\<close> succeeds on the paths of at least one letter that lead to a cell, gives that
  cell, and leaves in its place what followed it; \<open>xml_cut_link\<close> gives the cell with all that follows it,
  and leaves nothing there.\<close>
theorem detach_and_cut:
  assumes "xs \<noteq> []" "op \<noteq> []" "xml_get_cell xs op = Inr (y # ys)"
  shows "(\<exists>zs. xml_detach_cell xs op = Inr (y, zs) \<and> xml_get_cell zs op = Inr ys) \<and>
    (\<exists>zs. xml_cut_link xs op = Inr (y # ys, zs) \<and> xml_get_cell zs op = Inr [])"
proof -
  have at: "xml_get_cell_at op xs = Inr (y # ys)" using assms(1,3) by (simp add: xml_get_cell_def)
  have "\<exists>zs. relink f op xs = Inr (y # ys, zs) \<and> xml_get_cell zs op = Inr (f (y # ys))" for f
    using relink_defined [OF at _ assms(2), of f] relink_cell(4,5) by (fastforce simp: xml_get_cell_def)
  from this [of tl] this [of "\<lambda>_. []"] show ?thesis
    using assms(1) by (auto simp: xml_detach_cell_def xml_cut_link_def)
qed

lemma detach_and_cut_witness:
  "let a = xml_make_node ''a'' None; b = xml_make_node ''b'' None; x = xml_append_child [a, b] (xml_make_node ''x'' None) in
   (\<exists>zs. xml_detach_cell [x] ''c'' = Inr (a, zs) \<and> xml_get_cell zs ''c'' = Inr [b]) \<and>
   (\<exists>zs. xml_cut_link [x] ''c'' = Inr ([a, b], zs) \<and> xml_get_cell zs ''c'' = Inr [])"
  unfolding Let_def
  by (rule detach_and_cut) (simp_all add: xml_get_cell_def xml_append_child_def xml_make_node_def xml_make_cell_def set_child_def)

text \<open>A copy for quotations is the tree itself exactly when it has elements only; a comment in it becomes an element.\<close>

lemma deep_copy_attr_id [simp]: "deep_copy_attr as = as"
  by (induction as rule: deep_copy_attr.induct) auto

fun elements_only :: "xcell \<Rightarrow> bool" where
  "elements_only (XCell ty n p t as cs) \<longleftrightarrow> ty = XNode \<and> list_all elements_only cs"

lemma deep_copy_elements: "xml_make_deep_copy xs = xs \<longleftrightarrow> list_all elements_only xs"
  by (induction xs rule: xml_make_deep_copy.induct) auto

end
