(* ===== verification/ToolRestruct.thy ===== *)
theory ToolRestruct
  imports ToolTree
begin

text \<open>
  The tools that move program parts below the directive they belong to and back:
  \<open>tools/xev_constr_line.c\<close> and \<open>xev_destr_line.c\<close> for what follows a directive, \<open>xevparse_contplus.c\<close>
  and \<open>xevparse_contminus.c\<close> for what follows a \<open>contains\<close> statement.
\<close>

subsection \<open>Layout\<close>

text \<open>The table that \<open>init_xos\<close> fills, and \<open>get_depth_strobj\<close>: a line break and the indentation.\<close>

fun xos_spaces :: "nat \<Rightarrow> string" where
  "xos_spaces 0 = [CHR 0x0A]"
| "xos_spaces (Suc i) = xos_spaces i @ ''  ''"

definition get_depth_strobj :: "nat \<Rightarrow> string" where
  "get_depth_strobj d = (if d < 100 then xos_spaces d else CHR 0x0A # replicate (2 * d) CHR '' '')"

lemma get_depth_strobj_eq: "get_depth_strobj d = CHR 0x0A # replicate (2 * d) CHR '' ''"
proof -
  have "xos_spaces d = CHR 0x0A # replicate (2 * d) CHR '' ''"
    by (induction d) (simp_all add: replicate_append_same [symmetric] numeral_2_eq_2)
  then show ?thesis by (simp add: get_depth_strobj_def)
qed

subsection \<open>Trees by weight\<close>

text \<open>A size in which the cells of given names count more; moving a part of a tree keeps its weight.\<close>

fun weigh :: "(string \<Rightarrow> nat) \<Rightarrow> xcell \<Rightarrow> nat" where
  "weigh w (XCell ty n p t as cs) = Suc (w n) + sum_list (map (weigh w) cs)"

abbreviation weigh_all :: "(string \<Rightarrow> nat) \<Rightarrow> xcell list \<Rightarrow> nat" where
  "weigh_all w xs \<equiv> sum_list (map (weigh w) xs)"

lemma weigh_cell: "weigh w x = Suc (w (x_name x)) + weigh_all w (x_child x)"
  by (cases x) simp

lemma weigh_pos: "0 < weigh w x"
  by (simp add: weigh_cell)

lemma set_child_same: "x_child x = cs \<Longrightarrow> set_child cs x = x"
  by auto

lemma make_node_simps [simp]:
  "x_child (xml_make_node nm p) = []" "x_name (xml_make_node nm p) = nm" "x_attr (xml_make_node nm p) = []"
  "x_post (xml_make_node nm p) = None" "x_pre (xml_make_node nm p) = p"
  by (simp_all add: xml_make_node_def xml_make_cell_def)

lemma append_child_simps [simp]:
  "x_child (xml_append_child cs x) = x_child x @ cs" "x_name (xml_append_child cs x) = x_name x"
  "x_attr (xml_append_child cs x) = x_attr x" "set_child ds (xml_append_child cs x) = set_child ds x"
  by (simp_all add: xml_append_child_def)

lemma reset_posttext_simps [simp]:
  "x_child (xml_reset_posttext t x) = x_child x" "x_name (xml_reset_posttext t x) = x_name x"
  by (cases x; simp add: xml_reset_posttext_def)+

subsection \<open>What follows a directive\<close>

definition begins_or_ends :: "xcell list \<Rightarrow> bool" where
  "begins_or_ends cl \<longleftrightarrow> list_ex (\<lambda>c. attr_value ''name'' c = Some ''begin'' \<or> attr_value ''name'' c = Some ''end'') cl"

text \<open>\<open>directive_nobeginend\<close> of \<open>xev_constr_line.c\<close> and of \<open>xev_destr_line.c\<close>.\<close>

definition directive_alone :: "xcell list \<Rightarrow> bool res" where
  "directive_alone xs =
     (if xs = [] then Inr False
      else if x_name (hd xs) \<noteq> ''xev_pragma'' then Inr False
      else bind_res (xml_get_cell xs ''cc'') (\<lambda>cl. Inr (\<not> begins_or_ends cl)))"

definition directive_with_target :: "xcell list \<Rightarrow> bool res" where
  "directive_with_target xs =
     (if xs = [] then Inr False
      else if x_name (hd xs) \<noteq> ''xev_pragma'' then Inr False
      else bind_res (xml_chk_struct xs ''cn=xev_target'') (\<lambda>b.
        if \<not> b then Inr False
        else bind_res (xml_get_cell xs ''cc'') (\<lambda>cl. Inr (\<not> begins_or_ends cl))))"

definition pragma_weight :: "string \<Rightarrow> nat" where
  "pragma_weight n = (if n = ''xev_pragma'' then 1 else 0)"

definition target :: "xcell list \<Rightarrow> xcell" where
  "target n = xml_append_child n (xml_make_node ''xev_target'' (Some (xos_spaces 0)))"

lemma target_simps [simp]: "x_child (target n) = n" "x_name (target n) = ''xev_target''"
  by (simp_all add: target_def)

lemma directive_alone_pragma: "directive_alone (x # xs) = Inr True \<Longrightarrow> x_name x = ''xev_pragma''"
  by (simp add: directive_alone_def split: if_splits)

function xev_constr_line :: "xcell list \<Rightarrow> xcell list res" where
  "xev_constr_line [] = Inr []"
| "xev_constr_line (x # n) =
     bind_res (directive_alone (x # n)) (\<lambda>b.
       if b then let x = xml_append_child [target n] x in
         bind_res (xev_constr_line (x_child x)) (\<lambda>cs. Inr [set_child cs x])
       else bind_res (xev_constr_line (x_child x)) (\<lambda>cs.
         bind_res (xev_constr_line n) (\<lambda>n. Inr (set_child cs x # n))))"
  by pat_completeness auto
termination
  by (relation "measure (weigh_all pragma_weight)")
    (auto simp: weigh_cell pragma_weight_def dest!: directive_alone_pragma)

lemma directive_with_target_children:
  "directive_with_target (x # xs) = Inr True \<Longrightarrow> \<exists>c t ts. x_child x = c # t # ts \<and> x_name t = ''xev_target''"
  unfolding directive_with_target_def
  by (cases "x_child x"; cases "tl (x_child x)")
    (auto simp: cmp_str_def bind_res_eq_Inr split: if_splits)

lemma cut_second_child:
  "x_child x = c # t # ts \<Longrightarrow> xml_cut_link (x # xs) ''cn'' = Inr (t # ts, set_child [c] x # xs)"
  by (simp add: xml_cut_link_def)

function xev_destr_line :: "xcell list \<Rightarrow> xcell list res" where
  "xev_destr_line [] = Inr []"
| "xev_destr_line (x # on) =
     bind_res (directive_with_target (x # on)) (\<lambda>b.
       if b then bind_res (xml_cut_link [x] ''cn'') (\<lambda>(t, x).
         bind_res (xml_get_child t) (\<lambda>n.
         bind_res (xml_append x n) (\<lambda>xs.
         bind_res (xml_append xs on) (\<lambda>xs.
         bind_res (xml_get_next xs) (\<lambda>ys. bind_res (xev_destr_line ys) (\<lambda>ys. Inr (hd xs # ys)))))))
       else bind_res (xev_destr_line (x_child x)) (\<lambda>cs.
         bind_res (xev_destr_line on) (\<lambda>on. Inr (set_child cs x # on))))"
  by pat_completeness auto
termination
  by (relation "measure (weigh_all (\<lambda>_. 0))")
    (auto simp: weigh_cell xml_append_def xml_get_child_def xml_get_next_def cut_second_child dest!: directive_with_target_children)

declare xev_constr_line.simps [simp del] xev_destr_line.simps [simp del]

text \<open>
  Trees in which a directive has its clauses and nothing else below it, and no directive among them.
\<close>

fun no_pragma :: "xcell \<Rightarrow> bool" where
  "no_pragma (XCell ty n p t as cs) \<longleftrightarrow> n \<noteq> ''xev_pragma'' \<and> list_all no_pragma cs"

fun line_ok :: "xcell \<Rightarrow> bool" where
  "line_ok (XCell ty n p t as cs) \<longleftrightarrow>
     (if n = ''xev_pragma'' then (case cs of [c] \<Rightarrow> no_pragma c | _ \<Rightarrow> False) else list_all line_ok cs)"

lemma line_ok_pragma: "line_ok x \<Longrightarrow> x_name x = ''xev_pragma'' \<Longrightarrow> \<exists>c. x_child x = [c] \<and> no_pragma c"
  by (cases x) (auto split: list.splits)

lemma line_ok_other: "line_ok x \<Longrightarrow> x_name x \<noteq> ''xev_pragma'' \<Longrightarrow> list_all line_ok (x_child x)"
  by (cases x) auto

lemma no_pragma_iff: "no_pragma x \<longleftrightarrow> x_name x \<noteq> ''xev_pragma'' \<and> list_all no_pragma (x_child x)"
  by (cases x) auto

lemma directive_other: "x_name x \<noteq> ''xev_pragma'' \<Longrightarrow> directive_alone (x # xs) = Inr False \<and> directive_with_target (x # xs) = Inr False"
  by (simp add: directive_alone_def directive_with_target_def)

lemma lines_no_pragma:
  "list_all no_pragma xs \<Longrightarrow> xev_constr_line xs = Inr xs \<and> xev_destr_line xs = Inr xs"
proof (induction "weigh_all (\<lambda>_. 0) xs" arbitrary: xs rule: less_induct)
  case less
  show ?case
  proof (cases xs)
    case (Cons x ys)
    then show ?thesis
      using less.prems less.hyps [of "x_child x"] less.hyps [of ys] directive_other [of x ys]
      by (simp add: xev_constr_line.simps xev_destr_line.simps no_pragma_iff [of x] weigh_cell)
  qed (simp add: xev_constr_line.simps xev_destr_line.simps)
qed

lemma directive_below:
  assumes "x_name x = ''xev_pragma''" "x_child x = [c]"
  shows "directive_alone (x # xs) = Inr (\<not> begins_or_ends (x_child c))"
    and "directive_with_target (x # xs) = Inr False"
    and "x_name t = ''xev_target'' \<Longrightarrow>
      directive_with_target (set_child [c, t] x # xs) = Inr (\<not> begins_or_ends (x_child c))"
  using assms by (simp_all add: directive_alone_def directive_with_target_def xml_get_cell_def cmp_str_def)

lemma line_roundtrip_step:
  assumes "list_all line_ok xs"
  shows "\<exists>ys. xev_constr_line xs = Inr ys \<and> xev_destr_line ys = Inr xs"
  using assms
proof (induction "weigh_all pragma_weight xs" arbitrary: xs rule: less_induct)
  case less
  show ?case
  proof (cases xs)
    case Nil
    then show ?thesis by (simp add: xev_constr_line.simps xev_destr_line.simps)
  next
    case (Cons x n)
    then have w: "weigh_all pragma_weight n < weigh_all pragma_weight xs"
        "weigh_all pragma_weight (x_child x) < weigh_all pragma_weight xs"
      by (simp_all add: weigh_cell)
    obtain ys where ys: "xev_constr_line n = Inr ys" "xev_destr_line ys = Inr n"
      using less.hyps [OF w(1)] less.prems Cons by auto
    show ?thesis
    proof (cases "x_name x = ''xev_pragma''")
      case False
      obtain cs where "xev_constr_line (x_child x) = Inr cs" "xev_destr_line cs = Inr (x_child x)"
        using less.hyps [OF w(2)] less.prems Cons line_ok_other [OF _ False] by auto
      then show ?thesis
        using Cons ys False by (simp add: xev_constr_line.simps xev_destr_line.simps directive_other)
    next
      case True
      then obtain c where c: "x_child x = [c]" "no_pragma c" using line_ok_pragma less.prems Cons by auto
      note quiet = lines_no_pragma [of "[c]"] lines_no_pragma [of "x_child c"] directive_below [OF True c(1)]
      have "x_name c \<noteq> ''xev_pragma''" "list_all no_pragma (x_child c)" using c(2) by (simp_all add: no_pragma_iff [of c])
      then have inner: "xev_constr_line (c # m) = bind_res (xev_constr_line m) (\<lambda>m. Inr (c # m))" for m
        using quiet(2) by (simp add: xev_constr_line.simps(2) [of c] directive_other)
      show ?thesis
      proof (cases "begins_or_ends (x_child c)")
        case True
        then show ?thesis
          using Cons c ys quiet \<open>x_name c \<noteq> _\<close>
          by (simp add: xev_constr_line.simps(2) [of x] xev_destr_line.simps(2) [of x] set_child_same)
      next
        case False
        have "xev_constr_line [target n] = Inr [set_child ys (target n)]"
          using ys by (simp add: xev_constr_line.simps directive_other)
        then have "xev_constr_line xs = Inr [set_child [c, set_child ys (target n)] x]"
          using Cons c False quiet inner by (simp add: xev_constr_line.simps(2) [of x])
        moreover have "xev_destr_line [set_child [c, set_child ys (target n)] x] = Inr xs"
          using Cons c False quiet ys
          by (simp add: xev_destr_line.simps(2) cut_second_child xml_get_child_def xml_append_def xml_get_next_def set_child_same)
        ultimately show ?thesis by blast
      qed
    qed
  qed
qed

text \<open>C18: \<open>xev_destr_line\<close> undoes \<open>xev_constr_line\<close> on every tree of directives with clauses: what followed a
  directive, all its siblings to the end, went below it, at every level, and comes back.\<close>
theorem line_roundtrip:
  assumes "list_all line_ok xs"
  shows "bind_res (xev_constr_line xs) xev_destr_line = Inr xs"
  using line_roundtrip_step [OF assms] by auto

definition a_directive :: xcell where
  "a_directive = xml_append_child [xml_append_child [xml_make_node ''xev_clause'' None] (xml_make_node ''SgPragma'' None)]
     (xml_make_node ''xev_pragma'' None)"

lemma line_roundtrip_witness:
  "bind_res (xev_constr_line [a_directive, xml_make_node ''SgReturnStmt'' None, a_directive]) xev_destr_line =
     Inr [a_directive, xml_make_node ''SgReturnStmt'' None, a_directive]"
  by (rule line_roundtrip) (simp add: a_directive_def xml_append_child_def xml_make_node_def xml_make_cell_def set_child_def)

subsection \<open>What follows a contains statement\<close>

text \<open>
  \<open>contplus\<close> puts the children of a block below three new cells, \<open>contminus\<close> puts them back. The first
  one looks for the cell in front of the \<open>contains\<close> statement to cut the link behind it, so there must be one.
\<close>

definition not_contains :: "xcell \<Rightarrow> bool" where
  "not_contains c \<longleftrightarrow> x_name c \<noteq> ''SgContainsStatement''"

definition spaced :: "string \<Rightarrow> nat \<Rightarrow> xcell" where
  "spaced nm d = xml_make_node nm (Some (xos_spaces d))"

definition contplus :: "xcell \<Rightarrow> xcell res" where
  "contplus parent =
     (let x = x_child parent; p = takeWhile not_contains x; c = dropWhile not_contains x; y = tl c in
      bind_res (if c \<noteq> [] \<and> p = [] then Inl (Fatal ''xml_cut_link: null xml'') else Inr ()) (\<lambda>_.
      let c0 = xml_reset_posttext (Some (xos_spaces 0)) (spaced ''contains_body'' 0);
          c1 = (if x \<noteq> [] then xml_reset_posttext (Some (xos_spaces 1)) else id) (spaced ''contains_head'' 1);
          c2 = (if y \<noteq> [] then xml_reset_posttext (Some (xos_spaces 1)) else id) (spaced ''contains_tail'' 1)
      in Inr (set_child [xml_append_child [xml_append_child p c1, xml_append_child y c2] c0] parent)))"

definition contminus :: "xcell \<Rightarrow> xcell res" where
  "contminus parent =
     bind_res (xml_get_child [parent]) (\<lambda>c0. bind_res (xml_get_child c0) (\<lambda>c1. bind_res (xml_get_next c1) (\<lambda>c2.
     bind_res (xml_get_child c1) (\<lambda>x. bind_res (xml_get_child c2) (\<lambda>y.
     bind_res (xml_insert_child x (set_child [] parent)) (\<lambda>parent.
       if y = [] then Inr parent
       else bind_res (xml_insert_next [spaced ''SgContainsStatement'' 1] [last x]) (\<lambda>pc.
            bind_res (xml_insert_next y (tl pc)) (\<lambda>cy.
              Inr (set_child (butlast (x_child parent) @ hd pc # cy) parent)))))))))"

text \<open>The blocks they are applied to, by the statement they belong to.\<close>

definition block_path :: "string \<Rightarrow> (string \<times> string) option" where
  "block_path nm =
     (if nm = ''SgProgramHeaderStatement'' then Some (''cnc'', ''SgBasicBlock'')
      else if nm = ''SgProcedureHeaderStatement'' then Some (''cnnc'', ''SgBasicBlock'')
      else if nm = ''SgModuleStatement'' then Some (''c'', ''SgClassDefinition'')
      else None)"

fun at_cell :: "(xcell \<Rightarrow> xcell res) \<Rightarrow> string \<Rightarrow> xcell list \<Rightarrow> xcell list res" where
  "at_cell f [] [] = not_null ''c != NULL''"
| "at_cell f [] (x # xs) = bind_res (f x) (\<lambda>x. Inr (x # xs))"
| "at_cell f (k # op) [] = Inl (Fatal ''xml_get_cell: mismatched structure'')"
| "at_cell f (k # op) (x # xs) =
     (if k = CHR ''n'' then bind_res (at_cell f op xs) (\<lambda>xs. Inr (x # xs))
      else if k = CHR ''c'' then bind_res (at_cell f op (x_child x)) (\<lambda>cs. Inr (set_child cs x # xs))
      else Inl (Fatal ''xml_get_cell: unknown op''))"

definition at_block :: "(xcell \<Rightarrow> xcell res) \<Rightarrow> xcell \<Rightarrow> xcell res" where
  "at_block f x = (case block_path (x_name x) of
     None \<Rightarrow> Inr x
   | Some (op, nm) \<Rightarrow> bind_res (at_cell (\<lambda>c. if x_name c = nm then f c else not_null ''xml_get_name(c)'') op [x])
       (\<lambda>xs. Inr (hd xs)))"

text \<open>The new cells weigh less than the statement they come below, so the walk down the tree ends.\<close>

definition header_weight :: "string \<Rightarrow> nat" where
  "header_weight nm = (if block_path nm = None then 0 else 4)"

lemma weigh_set_child: "weigh w (set_child cs x) = Suc (w (x_name x)) + weigh_all w cs"
  by (simp add: weigh_cell)

lemma weigh_front_back:
  "weigh_all w (takeWhile P xs) + weigh_all w (tl (dropWhile P xs)) \<le> weigh_all w xs"
  by (induction xs) auto

lemma contplus_weight: "contplus b = Inr b' \<Longrightarrow> weigh header_weight b' \<le> weigh header_weight b + 3"
  using weigh_front_back [of header_weight not_contains "x_child b"]
  by (auto simp: contplus_def Let_def bind_res_eq_Inr spaced_def weigh_set_child weigh_cell [of _ b] header_weight_def
      xml_append_child_def block_path_def split: if_splits)

lemma butlast_last_append: "xs \<noteq> [] \<Longrightarrow> butlast xs @ last xs # ys = xs @ ys"
  by (induction xs) auto

lemma contminus_eq:
  "contminus b = Inr b' \<longleftrightarrow> (\<exists>c0 cs c1 c2 ds. x_child b = c0 # cs \<and> x_child c0 = c1 # c2 # ds \<and> x_child c1 \<noteq> [] \<and>
     b' = set_child (x_child c1 @ (if x_child c2 = [] then [] else spaced ''SgContainsStatement'' 1 # x_child c2)) b)"
  (is "?l \<longleftrightarrow> ?r")
proof
  assume l: ?l
  note defs = contminus_def xml_get_child_def xml_get_next_def not_null_def xml_insert_child_def xml_insert_next_def
  from l obtain c0 cs where 0: "x_child b = c0 # cs" by (cases "x_child b") (auto simp: defs)
  from l 0 obtain c1 as where 1: "x_child c0 = c1 # as" by (cases "x_child c0") (auto simp: defs)
  from l 0 1 obtain c2 ds where 2: "as = c2 # ds" by (cases as) (auto simp: defs)
  from l 0 1 2 have 3: "x_child c1 \<noteq> []" by (auto simp: defs)
  have "b' = set_child (x_child c1 @ (if x_child c2 = [] then [] else spaced ''SgContainsStatement'' 1 # x_child c2)) b"
    using l 0 1 2 3 by (auto simp: defs butlast_last_append split: if_splits)
  then show ?r using 0 1 2 3 by blast
next
  assume ?r
  then show ?l
    by (auto simp: contminus_def xml_insert_child_def xml_insert_next_def xml_get_child_def xml_get_next_def butlast_last_append)
qed

lemma contminus_weight: "contminus b = Inr b' \<Longrightarrow> weigh (\<lambda>_. 0) b' \<le> weigh (\<lambda>_. 0) b"
  by (auto simp: contminus_eq weigh_set_child weigh_cell [of _ b] spaced_def weigh_cell)

lemma at_cell_weight:
  assumes "at_cell f op xs = Inr ys" "\<And>x y. f x = Inr y \<Longrightarrow> weigh w y \<le> weigh w x + k"
  shows "weigh_all w ys \<le> weigh_all w xs + k"
  using assms
proof (induction f op xs arbitrary: ys rule: at_cell.induct)
  case (2 f x xs)
  then show ?case by (fastforce simp: bind_res_eq_Inr)
next
  case (4 f j op x xs)
  then show ?case by (fastforce simp: bind_res_eq_Inr weigh_set_child weigh_cell [of _ x] split: if_splits)
qed (auto simp: not_null_def)

lemma at_cell_below: "at_cell f (CHR ''c'' # op) [x] = Inr ys \<Longrightarrow> \<exists>cs. ys = [set_child cs x]"
  by (auto simp: bind_res_eq_Inr)

lemma block_path_below: "block_path nm = Some (op, b) \<Longrightarrow> \<exists>q. op = CHR ''c'' # q"
  by (auto simp: block_path_def split: if_splits)

lemma at_block_name: "at_block f x = Inr y \<Longrightarrow> \<exists>cs. y = set_child cs x"
proof (cases "block_path (x_name x)")
  case None
  assume "at_block f x = Inr y"
  then show ?thesis using None by (auto simp: at_block_def intro: exI [of _ "x_child x"])
next
  case (Some p)
  assume "at_block f x = Inr y"
  then show ?thesis using Some by (cases p) (auto simp: at_block_def bind_res_eq_Inr dest!: block_path_below, blast)
qed

lemma at_block_weight:
  assumes "at_block f x = Inr y" "\<And>x y. f x = Inr y \<Longrightarrow> weigh w y \<le> weigh w x + k"
  shows "weigh w y \<le> weigh w x + (if block_path (x_name x) = None then 0 else k)"
proof (cases "block_path (x_name x)")
  case None
  then show ?thesis using assms by (simp add: at_block_def)
next
  case (Some p)
  obtain op nm where p: "p = (op, nm)" by (cases p)
  then obtain ys where ys: "at_cell (\<lambda>c. if x_name c = nm then f c else not_null ''xml_get_name(c)'') op [x] = Inr ys" "y = hd ys"
    using assms(1) Some by (auto simp: at_block_def bind_res_eq_Inr)
  have "weigh_all w ys \<le> weigh_all w [x] + k"
    by (rule at_cell_weight [OF ys(1)]) (auto simp: not_null_def assms(2) split: if_splits)
  then show ?thesis using ys Some p block_path_below [of "x_name x" op nm] by (auto simp: bind_res_eq_Inr)
qed

function xevparse_contplus :: "xcell list \<Rightarrow> xcell list res" where
  "xevparse_contplus [] = Inr []"
| "xevparse_contplus (x # xs) =
     bind_res (at_block contplus x) (\<lambda>x. bind_res (xevparse_contplus (x_child x)) (\<lambda>cs.
       bind_res (xevparse_contplus xs) (\<lambda>xs. Inr (set_child cs x # xs))))"
  by pat_completeness auto
termination
proof (relation "measure (weigh_all header_weight)")
  fix x xs y
  assume y: "at_block contplus x = Inr y"
  show "(x_child y, x # xs) \<in> measure (weigh_all header_weight)"
    using at_block_weight [where f = contplus and w = header_weight, OF y contplus_weight] at_block_name [OF y]
    by (auto simp: weigh_cell header_weight_def weigh_set_child split: if_splits)
qed (auto simp: weigh_cell)

function xevparse_contminus :: "xcell list \<Rightarrow> xcell list res" where
  "xevparse_contminus [] = Inr []"
| "xevparse_contminus (x # xs) =
     bind_res (at_block contminus x) (\<lambda>x. bind_res (xevparse_contminus (x_child x)) (\<lambda>cs.
       bind_res (xevparse_contminus xs) (\<lambda>xs. Inr (set_child cs x # xs))))"
  by pat_completeness auto
termination
proof (relation "measure (weigh_all (\<lambda>_. 0))")
  fix x xs y
  assume y: "at_block contminus x = Inr y"
  show "(x_child y, x # xs) \<in> measure (weigh_all (\<lambda>_. 0))"
    using at_block_weight [where f = contminus and w = "\<lambda>_. 0" and k = 0, OF y] contminus_weight
    by (auto simp: weigh_cell split: if_splits)
qed (auto simp: weigh_cell)

declare xevparse_contplus.simps [simp del] xevparse_contminus.simps [simp del]

text \<open>a block with a statement in front comes back from \<open>contplus\<close> and \<open>contminus\<close>, with a new \<open>contains\<close>
  statement in place of its own, and without one when nothing followed it.\<close>
theorem contains_roundtrip:
  assumes "x_child b = p @ c" "p \<noteq> []" "list_all not_contains p" "c = [] \<or> \<not> not_contains (hd c)"
  shows "bind_res (contplus b) contminus =
    Inr (set_child (p @ (if tl c = [] then [] else spaced ''SgContainsStatement'' 1 # tl c)) b)"
proof -
  have "takeWhile not_contains (p @ c) = p" "dropWhile not_contains (p @ c) = c"
    using assms(3,4) by (induction p) (auto simp: takeWhile_eq_Nil_iff dropWhile_eq_self_iff)
  then obtain b' where b': "contplus b = Inr b'" "\<exists>c0 c1 c2. x_child b' = [c0] \<and> x_child c0 = [c1, c2] \<and> x_child c1 = p \<and> x_child c2 = tl c"
      "\<And>cs. set_child cs b' = set_child cs b"
    using assms(1,2) by (auto simp: contplus_def spaced_def Let_def)
  then have "contminus b' = Inr (set_child (p @ (if tl c = [] then [] else spaced ''SgContainsStatement'' 1 # tl c)) b)"
    using assms(2) by (subst contminus_eq) force
  then show ?thesis using b'(1) by simp
qed

lemma contains_roundtrip_witness:
  "let s = xml_make_node ''SgExprStatement'' None; f = xml_make_node ''SgProcedureHeaderStatement'' None;
       b = xml_append_child [s, spaced ''SgContainsStatement'' 2, f] (xml_make_node ''SgBasicBlock'' None) in
   bind_res (contplus b) contminus = Inr (set_child [s, spaced ''SgContainsStatement'' 1, f] b)"
  unfolding Let_def
  using contains_roundtrip [of "xml_append_child [xml_make_node ''SgExprStatement'' None, spaced ''SgContainsStatement'' 2,
      xml_make_node ''SgProcedureHeaderStatement'' None] (xml_make_node ''SgBasicBlock'' None)"
    "[xml_make_node ''SgExprStatement'' None]" "[spaced ''SgContainsStatement'' 2, xml_make_node ''SgProcedureHeaderStatement'' None]"]
  by (simp add: not_contains_def spaced_def)

text \<open>A block without statements, and one whose first statement is \<open>contains\<close>, end the process.\<close>

lemma contains_empty_block:
  "x_child b = [] \<Longrightarrow> \<exists>b'. contplus b = Inr b' \<and> contminus b' = not_null ''c != NULL''"
  by (auto simp: contplus_def contminus_def xml_get_child_def xml_get_next_def xml_insert_child_def spaced_def not_null_def)

lemma contains_first_fails:
  "x_child b = c # cs \<Longrightarrow> \<not> not_contains c \<Longrightarrow> contplus b = Inl (Fatal ''xml_cut_link: null xml'')"
  by (simp add: contplus_def)

end
