(* ===== verification/Pragma.thy ===== *)
theory Pragma
  imports ToolRestruct
begin

text \<open>
  Directives: the parser of their text, \<open>tools/xevparse_x.c\<close> with \<open>parse_code\<close> of \<open>xevparse_postf.c\<close>, and the
  printer, \<open>tools/xevunparse_x.c\<close> with \<open>get_num_ex\<close> of \<open>xevunparse_pre_f.c\<close>.

  Fortran code in a directive is parsed by ROSE, not by the tools: the printer replaces it by a number between
  backquotes and puts the tree into a list, the parser takes the trees from a list. Both lists are part of the
  state.
\<close>

subsection \<open>Characters\<close>

definition is_alnum :: "char \<Rightarrow> bool" where
  "is_alnum c \<longleftrightarrow> is_digit c \<or> between CHR ''A'' c CHR ''Z'' \<or> between CHR ''a'' c CHR ''z''"

definition name_char :: "char \<Rightarrow> bool" where
  "name_char c \<longleftrightarrow> is_alnum c \<or> c = CHR ''_'' \<or> c = CHR ''.''"

text \<open>\<open>*t != '\0' && *t <= ' '\<close>; a negative character counts as a blank.\<close>

definition blank_char :: "char \<Rightarrow> bool" where
  "blank_char c \<longleftrightarrow> c \<noteq> NUL \<and> schar c \<le> 32"

definition skip_blanks :: "string \<Rightarrow> string" where
  "skip_blanks t = dropWhile blank_char t"

definition delimiter :: "char \<Rightarrow> bool" where
  "delimiter c \<longleftrightarrow> c = CHR '')'' \<or> c = CHR '','' \<or> c = CHR '':''"

subsection \<open>The parser\<close>

definition at_depth :: "nat \<Rightarrow> string \<Rightarrow> xcell" where
  "at_depth d nm = xml_make_node nm (Some (get_depth_strobj d))"

definition with_post :: "nat \<Rightarrow> xcell \<Rightarrow> xcell" where
  "with_post d x = xml_reset_posttext (Some (get_depth_strobj d)) x"

text \<open>\<open>parse_code\<close>: the next of the collected trees. Its depth is that of the directive.\<close>

definition parse_code :: "nat \<Rightarrow> string \<Rightarrow> xcell list list \<Rightarrow> (xcell \<times> string \<times> xcell list list) res" where
  "parse_code cd t ex = (case ex of
     [] \<Rightarrow> not_null ''ex_list != NULL''
   | e # ex \<Rightarrow> (case strchrF (tl t) CHR ''`'' of
        None \<Rightarrow> Inl (Fatal ''incomplete fortran code'')
      | Some p \<Rightarrow>
          Inr (with_post cd (xml_append_child e (at_depth cd ''xevparse_code_exp'')), drop (Suc p) (tl t), ex)))"

definition make_pair :: "nat \<Rightarrow> xcell option \<Rightarrow> xcell \<Rightarrow> xcell" where
  "make_pair d f1 tx = (case f1 of
     None \<Rightarrow> tx
   | Some f \<Rightarrow> xml_append_child [f, tx] (with_post d (at_depth d ''xev_pair'')))"

text \<open>
  \<open>parse_term\<close> and its loop over the arguments of a call. \<open>tx\<close> is never a null pointer here, since \<open>parse_code\<close>
  always yields a cell. The tests \<open>length t' < length t\<close> are not in the code: they hold always
  (\<open>parse_term_shorter\<close>), and stand here for the proof that the recursion ends.
\<close>

definition no_progress :: "'a res" where
  "no_progress = Inl (Undef ''no progress'')"

function (sequential) parse_term :: "nat \<Rightarrow> nat \<Rightarrow> string \<Rightarrow> xcell list list \<Rightarrow> (xcell \<times> string \<times> xcell list list) res"
  and parse_args :: "nat \<Rightarrow> nat \<Rightarrow> xcell option \<Rightarrow> string \<Rightarrow> xcell list list \<Rightarrow> (xcell list \<times> string \<times> xcell list list) res"
where
  "parse_term cd d t ex =
     (let c = head_or_NUL t in
      if c = CHR ''!'' then Inl (Fatal ''xevparse: comment where term is expected'')
      else if is_digit c \<or> c = CHR ''-''
      then let s = c # takeWhile is_digit (tl t) in
           Inr (xml_add_attr (at_depth d ''xev_integer'') ''value'' (Some s), dropWhile is_digit (tl t), ex)
      else if quote c
      then bind_res (endstrF t) (\<lambda>p. case p of
          None \<Rightarrow> Inl (Fatal ''unterminated string'')
        | Some p \<Rightarrow> bind_res (strF2G (take (Suc p) t)) (\<lambda>s2.
            Inr (xml_add_attr (at_depth d ''xev_string'') ''value'' (Some s2), drop (Suc p) t, ex)))
      else if c = CHR ''`'' then parse_code cd t ex
      else if \<not> name_char c then Inl (Fatal ''unknown pragma term'')
      else
        let name = takeWhile name_char t; p = dropWhile name_char t in
        if name = ''true'' \<or> name = ''false''
        then Inr (xml_add_attr (at_depth d ''xev_boolean'') ''value'' (Some name), p, ex)
        else
          let t' = skip_blanks p in
          if head_or_NUL t' = CHR ''(''
          then if length (tl t') < length t
               then bind_res (parse_args cd (d + 1) None (tl t') ex) (\<lambda>(xs, r, ex).
                 Inr (xml_append_child xs (with_post d (xml_add_attr (at_depth d ''xev_func_call'') ''name'' (Some name))), r, ex))
               else no_progress
          else if \<not> delimiter (head_or_NUL t') then Inl (Fatal ''unknown type of pragma 5'')
          else Inr (xml_add_attr (at_depth d ''xev_literal'') ''name'' (Some name), t', ex))"
| "parse_args cd d f1 t ex =
     (let t = skip_blanks t in
      if head_or_NUL t = CHR '')'' then Inr ([], tl t, ex)
      else bind_res (parse_term cd d t ex) (\<lambda>(tx, r, ex).
        let r = skip_blanks r; c = head_or_NUL r in
        if \<not> delimiter c then Inl (Fatal ''format error in pragma'')
        else if c = CHR '':''
        then if f1 \<noteq> None then Inl (Fatal ''entangled pairs'')
             else if length (tl r) < length t then parse_args cd d (Some tx) (tl r) ex
             else no_progress
        else if c = CHR '')'' then Inr ([make_pair d f1 tx], tl r, ex)
        else if length (tl r) < length t
        then bind_res (parse_args cd d None (tl r) ex) (\<lambda>(xs, r, ex). Inr (make_pair d f1 tx # xs, r, ex))
        else no_progress))"
  by pat_completeness auto
termination
  by (relation "measure (case_sum (\<lambda>(cd, d, t, ex). 2 * length t) (\<lambda>(cd, d, f1, t, ex). 2 * length t + 1))")
    (auto simp: skip_blanks_def less_Suc_eq_le length_dropWhile_le dest: less_le_trans [OF _ length_dropWhile_le])

declare parse_term.simps [simp del] parse_args.simps [simp del]

text \<open>The loop over the terms of a clause: no blank is skipped in front of the first one or behind one.\<close>

function parse_terms :: "nat \<Rightarrow> nat \<Rightarrow> xcell option \<Rightarrow> string \<Rightarrow> xcell list list \<Rightarrow> (xcell list \<times> string \<times> xcell list list) res" where
  "parse_terms cd d f1 t ex =
     bind_res (parse_term cd d t ex) (\<lambda>(tx, r, ex).
       let c = head_or_NUL r in
       if \<not> delimiter c then Inl (Fatal ''format error in pragma'')
       else if c = CHR '':''
       then if f1 \<noteq> None then Inl (Fatal ''entangled pairs'')
            else if length (skip_blanks (tl r)) < length t then parse_terms cd d (Some tx) (skip_blanks (tl r)) ex
            else no_progress
       else if c = CHR '')'' then Inr ([make_pair d f1 tx], tl r, ex)
       else if length (skip_blanks (tl r)) < length t
       then bind_res (parse_terms cd d None (skip_blanks (tl r)) ex) (\<lambda>(xs, r, ex). Inr (make_pair d f1 tx # xs, r, ex))
       else no_progress)"
  by pat_completeness auto
termination
  by (relation "measure (\<lambda>(cd, d, f1, t, ex). length t)") auto

declare parse_terms.simps [simp del]

text \<open>The name of a clause; a brace is a name of its own.\<close>

definition clause_name :: "string \<Rightarrow> string \<times> string" where
  "clause_name t =
     (if head_or_NUL t = CHR 0x7B then (''begin'', tl t)
      else if head_or_NUL t = CHR 0x7D then (''end'', tl t)
      else (takeWhile name_char t, dropWhile name_char t))"

function parse_clauses :: "nat \<Rightarrow> nat \<Rightarrow> string \<Rightarrow> xcell list list \<Rightarrow> (xcell list \<times> xcell list list) res" where
  "parse_clauses cd d t0 ex =
     (let t = skip_blanks t0 in
      if head_or_NUL t = NUL \<or> head_or_NUL t = CHR ''!'' then Inr ([], ex)
      else
        let (nm, p) = clause_name (if head_or_NUL t = CHR ''&'' then tl t else t); c = head_or_NUL p in
        if schar c > 32 \<and> c \<noteq> NUL \<and> c \<noteq> CHR ''('' then Inl (Fatal ''unknown type of pragma 2'')
        else
          let s = xml_add_attr (at_depth d ''xev_clause'') ''name'' (Some nm); r = skip_blanks p in
          bind_res (if head_or_NUL r = CHR ''('' then parse_terms cd (d + 1) None (tl r) ex else Inr ([], r, ex))
            (\<lambda>(xs, r, ex).
              let s = xml_append_child xs s; s = (if xs \<noteq> [] then with_post d s else s) in
              if length r < length t0
              then bind_res (parse_clauses cd d r ex) (\<lambda>(ss, ex). Inr (s # ss, ex))
              else no_progress))"
  by pat_completeness auto
termination
  by (relation "measure (\<lambda>(cd, d, t, ex). length t)") auto

declare parse_clauses.simps [simp del]

definition xev_parse_pragma :: "string \<Rightarrow> nat \<Rightarrow> xcell list list \<Rightarrow> (xcell list \<times> xcell list list) res" where
  "xev_parse_pragma t depth0 ex = parse_clauses depth0 depth0 t ex"

subsection \<open>The printer\<close>

text \<open>The buffer up to \<open>bufp\<close>, the number of trees so far, the list of trees.\<close>

record pr =
  pbuf :: string
  num_ex :: nat
  exlist :: "xcell list list"

definition XEV_LINE_SIZE :: nat where
  "XEV_LINE_SIZE = 4096"

text \<open>\<open>strcpy\<close> to the end of the buffer, which writes a NUL too, and a single character.\<close>

definition put :: "string \<Rightarrow> pr \<Rightarrow> pr res" where
  "put s b = (if XEV_LINE_SIZE < length (pbuf b) + length s + 1 then past_end else Inr (b\<lparr>pbuf := pbuf b @ s\<rparr>))"

definition putch :: "char \<Rightarrow> pr \<Rightarrow> pr res" where
  "putch c b = (if XEV_LINE_SIZE < length (pbuf b) + 1 then past_end else Inr (b\<lparr>pbuf := pbuf b @ [c]\<rparr>))"

definition get_num_ex :: "xcell list \<Rightarrow> pr \<Rightarrow> nat \<times> pr" where
  "get_num_ex x b = (num_ex b, b\<lparr>num_ex := num_ex b + 1, exlist := exlist b @ [x]\<rparr>)"

definition comma :: "bool \<Rightarrow> nat \<Rightarrow> pr \<Rightarrow> pr res" where
  "comma nocomma c b = (if c \<noteq> 1 \<and> \<not> nocomma then put '', '' b else Inr b)"

text \<open>A term that is the value of an attribute.\<close>

definition put_attr :: "bool \<Rightarrow> nat \<Rightarrow> string option \<Rightarrow> pr \<Rightarrow> pr res" where
  "put_attr nocomma c v b = (case v of
     None \<Rightarrow> not_null ''valuestr != NULL''
   | Some s \<Rightarrow> bind_res (comma nocomma c b) (put s))"

text \<open>\<open>sprintf(exp, "`%d`", ...)\<close> into ten bytes.\<close>

definition put_code :: "xcell list \<Rightarrow> pr \<Rightarrow> pr res" where
  "put_code x b = (case get_num_ex x b of (n, b) \<Rightarrow>
     if 10 < length (show_nat n) + 3 then past_end else put (''`'' @ show_nat n @ ''`'') b)"

fun clause_text :: "bool \<Rightarrow> nat \<Rightarrow> xcell list \<Rightarrow> pr \<Rightarrow> pr res" where
  "clause_text nocomma c [] b = Inr b"
| "clause_text nocomma c (XCell ty nm pre post as cs # xs) b =
     (if ty \<noteq> XNode then Inl (Fatal ''clause_text: unknown type'')
      else let value = attr_value ''value'' (XCell ty nm pre post as cs); name = attr_value ''name'' (XCell ty nm pre post as cs) in
      if nm = ''xev_integer'' \<or> nm = ''xev_boolean''
      then bind_res (put_attr nocomma (c + 1) value b) (clause_text nocomma (c + 1) xs)
      else if nm = ''xev_string''
      then (case value of
          None \<Rightarrow> not_null ''value != NULL''
        | Some v \<Rightarrow> bind_res (comma nocomma (c + 1) b) (\<lambda>b. bind_res (strG2F v CHR 0x27) (\<lambda>t.
            bind_res (put t b) (clause_text nocomma (c + 1) xs))))
      else if nm = ''xev_literal''
      then bind_res (put_attr nocomma (c + 1) name b) (clause_text nocomma (c + 1) xs)
      else if nm = ''xev_pair''
      then bind_res (comma nocomma (c + 1) b) (\<lambda>b. case cs of
          [] \<Rightarrow> not_null ''x != NULL''
        | f1 # snd1 \<Rightarrow> bind_res (clause_text True 0 [f1] b) (\<lambda>b. bind_res (put '':'' b) (\<lambda>b.
            bind_res (clause_text True 0 snd1 b) (clause_text nocomma (c + 1) xs))))
      else if nm = ''xevparse_code_exp''
      then bind_res (comma nocomma (c + 1) b) (\<lambda>b. bind_res (put_code cs b) (clause_text nocomma (c + 1) xs))
      else if nm = ''xev_func_call''
      then bind_res (put_attr nocomma (c + 1) name b) (\<lambda>b. bind_res (putch CHR ''('' b) (\<lambda>b.
        bind_res (clause_text False 0 cs b) (\<lambda>b. bind_res (putch CHR '')'' b) (clause_text nocomma (c + 1) xs))))
      else clause_text nocomma c xs b)"

fun unparse_clauses :: "xcell list \<Rightarrow> pr \<Rightarrow> pr res" where
  "unparse_clauses [] b = Inr b"
| "unparse_clauses (x # xs) b = (case attr_value ''name'' x of
     None \<Rightarrow> not_null ''name != NULL''
   | Some name \<Rightarrow>
       bind_res (if pbuf b \<noteq> [] then putch CHR '' '' b else Inr b) (\<lambda>b. bind_res (put name b) (\<lambda>b.
         if x_child x = [] then unparse_clauses xs b
         else bind_res (putch CHR ''('' b) (\<lambda>b. bind_res (clause_text False 0 (x_child x) b) (\<lambda>b.
           bind_res (putch CHR '')'' b) (unparse_clauses xs))))))"

definition xev_unparse_pragma :: "xcell list \<Rightarrow> nat \<Rightarrow> xcell list list \<Rightarrow> (string \<times> nat \<times> xcell list list) res" where
  "xev_unparse_pragma xs n ex =
     bind_res (unparse_clauses xs \<lparr>pbuf = [], num_ex = n, exlist = ex\<rparr>) (\<lambda>b.
       bind_res (putch NUL b) (\<lambda>_. Inr (pbuf b, num_ex b, exlist b)))"

subsection \<open>Directives as terms\<close>

text \<open>What a directive says, without its layout; code is the list of trees it stands for.\<close>

datatype ptm = PInt string | PStr string | PBool bool | PLit string | PCode "xcell list"
  | PCall string "ptm list" | PPair ptm ptm

datatype pclause = PClause string "ptm list"

definition leaf :: "nat \<Rightarrow> string \<Rightarrow> string \<Rightarrow> string \<Rightarrow> xcell" where
  "leaf d nm a v = xml_add_attr (at_depth d nm) a (Some v)"

fun pcell :: "nat \<Rightarrow> nat \<Rightarrow> ptm \<Rightarrow> xcell" where
  "pcell cd d (PInt s) = leaf d ''xev_integer'' ''value'' s"
| "pcell cd d (PStr s) = leaf d ''xev_string'' ''value'' s"
| "pcell cd d (PBool b) = leaf d ''xev_boolean'' ''value'' (if b then ''true'' else ''false'')"
| "pcell cd d (PLit s) = leaf d ''xev_literal'' ''name'' s"
| "pcell cd d (PCode e) = with_post cd (xml_append_child e (at_depth cd ''xevparse_code_exp''))"
| "pcell cd d (PCall f ts) = xml_append_child (map (pcell cd (d + 1)) ts) (with_post d (leaf d ''xev_func_call'' ''name'' f))"
| "pcell cd d (PPair a b) = xml_append_child [pcell cd d a, pcell cd d b] (with_post d (at_depth d ''xev_pair''))"

fun pclause_cell :: "nat \<Rightarrow> pclause \<Rightarrow> xcell" where
  "pclause_cell d (PClause nm ts) =
     (let s = xml_append_child (map (pcell d (d + 1)) ts) (leaf d ''xev_clause'' ''name'' nm)
      in if ts \<noteq> [] then with_post d s else s)"

text \<open>The trees in a term, from left to right, and the text, with the number of its first tree.\<close>

fun pexps :: "ptm \<Rightarrow> xcell list list" where
  "pexps (PCode e) = [e]"
| "pexps (PCall f ts) = concat (map pexps ts)"
| "pexps (PPair a b) = pexps a @ pexps b"
| "pexps t = []"

abbreviation pnum :: "ptm \<Rightarrow> nat" where
  "pnum t \<equiv> length (pexps t)"

fun ptext :: "nat \<Rightarrow> ptm \<Rightarrow> string" and ptexts :: "nat \<Rightarrow> nat \<Rightarrow> ptm list \<Rightarrow> string" where
  "ptext n (PInt s) = s"
| "ptext n (PStr s) = lit CHR 0x27 s"
| "ptext n (PBool b) = (if b then ''true'' else ''false'')"
| "ptext n (PLit s) = s"
| "ptext n (PCode e) = ''`'' @ show_nat n @ ''`''"
| "ptext n (PCall f ts) = f @ ''('' @ ptexts 0 n ts @ '')''"
| "ptext n (PPair a b) = ptext n a @ '':'' @ ptext (n + pnum a) b"
| "ptexts c n [] = []"
| "ptexts c n (t # ts) = (if c = 0 then [] else '', '') @ ptext n t @ ptexts (c + 1) (n + pnum t) ts"

text \<open>The parts of a pair are no pairs; names that are numbers or truth values are none.\<close>

fun is_pair :: "ptm \<Rightarrow> bool" where
  "is_pair (PPair a b) = True"
| "is_pair t = False"

definition is_integer :: "string \<Rightarrow> bool" where
  "is_integer s \<longleftrightarrow> s \<noteq> [] \<and> (is_digit (hd s) \<or> hd s = CHR ''-'') \<and> list_all is_digit (tl s)"

definition is_name :: "string \<Rightarrow> bool" where
  "is_name s \<longleftrightarrow> s \<noteq> [] \<and> list_all name_char s \<and> \<not> is_digit (hd s) \<and> s \<noteq> ''true'' \<and> s \<noteq> ''false''"

fun ptm_ok :: "ptm \<Rightarrow> bool" where
  "ptm_ok (PInt s) \<longleftrightarrow> is_integer s"
| "ptm_ok (PStr s) \<longleftrightarrow> c_string s"
| "ptm_ok (PLit s) \<longleftrightarrow> is_name s"
| "ptm_ok (PCall f ts) \<longleftrightarrow> is_name f \<and> list_all ptm_ok ts"
| "ptm_ok (PPair a b) \<longleftrightarrow> ptm_ok a \<and> ptm_ok b \<and> \<not> is_pair a \<and> \<not> is_pair b"
| "ptm_ok t \<longleftrightarrow> True"

subsection \<open>What the parser makes of a text\<close>

lemma char_tests [simp]:
  "\<not> name_char CHR '')''" "\<not> name_char CHR '',''" "\<not> name_char CHR '':''" "\<not> name_char CHR ''(''"
  "\<not> name_char CHR '' ''" "\<not> name_char CHR ''`''" "\<not> name_char CHR 0x27" "\<not> name_char CHR ''-''" "\<not> name_char NUL" "\<not> name_char CHR ''!''"
  "\<not> blank_char CHR '')''" "\<not> blank_char CHR '',''" "\<not> blank_char CHR '':''" "\<not> blank_char CHR ''(''"
  "blank_char CHR '' ''" "\<not> blank_char CHR ''`''" "\<not> blank_char CHR 0x27" "\<not> blank_char CHR ''-''" "\<not> blank_char NUL"
  "\<not> is_digit CHR '')''" "\<not> is_digit CHR '',''" "\<not> is_digit CHR '':''" "\<not> is_digit CHR ''`''" "\<not> is_digit CHR 0x27" "\<not> is_digit CHR ''!''"
  by (simp_all add: name_char_def is_alnum_def between_def is_digit_def blank_char_def schar_def)

lemma span_head:
  assumes "list_all P s" "\<not> P (head_or_NUL r)"
  shows "takeWhile P (s @ r) = s" "dropWhile P (s @ r) = r"
proof -
  have "takeWhile P r = []" "dropWhile P r = r" using assms(2) by (cases r; simp add: head_or_NUL_def)+
  then show "takeWhile P (s @ r) = s" "dropWhile P (s @ r) = r"
    using assms(1) by (simp_all add: list_all_iff takeWhile_append dropWhile_append)
qed

lemma head_append [simp]: "s \<noteq> [] \<Longrightarrow> head_or_NUL (s @ r) = hd s"
  by (cases s) (simp_all add: head_or_NUL_def)

lemma head_Cons [simp]: "head_or_NUL (c # r) = c" "head_or_NUL [] = NUL"
  by (simp_all add: head_or_NUL_def)

lemma delimiter_tests:
  assumes "delimiter c"
  shows "\<not> name_char c" "\<not> blank_char c" "\<not> is_digit c" "c \<noteq> CHR 0x27" "c \<noteq> NUL" "c \<noteq> CHR ''(''"
  using assms by (auto simp: delimiter_def)

lemma digit_bounds: "is_digit c \<longleftrightarrow> 48 \<le> schar c \<and> schar c \<le> 57"
proof -
  obtain v where v: "v = (of_char c :: nat)" "v < 256" by simp
  have "schar c = (if int v < 128 then int v else int v - 256)" unfolding schar_def v(1) by (simp only: Let_def)
  then show ?thesis using v(2) unfolding is_digit_def v(1) [symmetric] by auto
qed

lemma name_char_tests:
  assumes "name_char c"
  shows "\<not> blank_char c" "c \<noteq> CHR ''!''" "\<not> quote c" "c \<noteq> CHR ''`''" "c \<noteq> CHR ''-''" "c \<noteq> CHR '')''"
    "c \<noteq> NUL" "c \<noteq> CHR ''('' " "c \<noteq> CHR ''&''" "c \<noteq> CHR 0x7B" "c \<noteq> CHR 0x7D"
  using assms
  by (auto simp: name_char_def is_alnum_def digit_bounds between_def blank_char_def quote_def schar_def split: if_splits)

lemma skip_none: "\<not> blank_char (head_or_NUL r) \<Longrightarrow> skip_blanks r = r"
  by (cases r) (simp_all add: skip_blanks_def head_or_NUL_def)

lemma list_all_hd: "list_all P s \<Longrightarrow> s \<noteq> [] \<Longrightarrow> P (hd s)"
  by (cases s) auto

definition parsed :: "nat \<Rightarrow> ptm \<Rightarrow> bool" where
  "parsed cd t \<longleftrightarrow> (\<forall>d n r ex. delimiter (head_or_NUL r) \<longrightarrow>
     parse_term cd d (ptext n t @ r) (pexps t @ ex) = Inr (pcell cd d t, r, ex))"

lemma parsed_int: "is_integer s \<Longrightarrow> parsed cd (PInt s)"
proof -
  assume "is_integer s"
  then obtain c u where s: "s = c # u" "is_digit c \<or> c = CHR ''-''" "list_all is_digit u"
    by (cases s) (auto simp: is_integer_def)
  moreover have "c \<noteq> CHR ''!''" using s(2) by auto
  ultimately show ?thesis
    by (auto simp: parsed_def parse_term.simps [of _ _ "c # _"] span_head delimiter_tests leaf_def)
qed

lemma parsed_str: "c_string s \<Longrightarrow> parsed cd (PStr s)"
proof -
  assume s: "c_string s"
  have nq: "not_quoted CHR 0x27 r" if "delimiter (head_or_NUL r)" for r
    using delimiter_tests(4) [OF that] by (simp add: not_quoted_def)
  have q: "quote CHR 0x27" by (simp add: quote_def)
  have l: "lit CHR 0x27 s = CHR 0x27 # tl (lit CHR 0x27 s)" "tl (lit CHR 0x27 s) \<noteq> []" by (cases s; simp add: lit_def)+
  have "strF2G (lit CHR 0x27 s) = Inr s" using strF2G_lit [OF q s, of "[]"] by simp
  then show ?thesis
    using q l endstrF_lit [OF nq, of _ s]
    by (simp add: parsed_def parse_term.simps [of _ _ "CHR 0x27 # _"] leaf_def lit_def Let_def)
qed

lemma name_word:
  assumes "is_name s" "\<not> name_char (head_or_NUL r)"
  shows "head_or_NUL (s @ r) = hd s" "name_char (hd s)" "\<not> is_digit (hd s)"
    "takeWhile name_char (s @ r) = s" "dropWhile name_char (s @ r) = r" "s \<noteq> ''true''" "s \<noteq> ''false''" "s \<noteq> []"
  using assms span_head [of name_char s r] by (auto simp: is_name_def list_all_hd)

lemma parsed_lit: "is_name s \<Longrightarrow> parsed cd (PLit s)"
  unfolding parsed_def
proof (intro allI impI)
  fix d n r ex assume s: "is_name s" and r: "delimiter (head_or_NUL r)"
  note w = name_word [OF s delimiter_tests(1) [OF r]]
  show "parse_term cd d (ptext n (PLit s) @ r) (pexps (PLit s) @ ex) = Inr (pcell cd d (PLit s), r, ex)"
    using w name_char_tests [OF w(2)] delimiter_tests [OF r] r
    by (simp add: parse_term.simps [of _ _ "s @ r"] Let_def skip_none leaf_def)
qed

lemma parsed_bool: "parsed cd (PBool b)"
  unfolding parsed_def
proof (intro allI impI)
  fix d n r ex assume r: "delimiter (head_or_NUL r)"
  let ?s = "if b then ''true'' else ''false''"
  have s: "list_all name_char ?s" "name_char (hd ?s)" "\<not> is_digit (hd ?s)" "?s \<noteq> []"
    by (auto simp: name_char_def is_alnum_def between_def schar_def is_digit_def)
  note w = span_head [OF s(1) delimiter_tests(1) [OF r]] head_append [OF s(4), of r] s(3) name_char_tests [OF s(2)]
  show "parse_term cd d (ptext n (PBool b) @ r) (pexps (PBool b) @ ex) = Inr (pcell cd d (PBool b), r, ex)"
    using w s(2) by (simp only: ptext.simps parse_term.simps [of _ _ "?s @ r"] Let_def) (simp add: leaf_def)
qed

lemma strchrF_digits: "list_all is_digit ds \<Longrightarrow> strchrF (ds @ CHR ''`'' # r) CHR ''`'' = Some (length ds)"
proof (induction ds)
  case Nil
  then show ?case by (simp add: strchrF_def strchrF_from.simps [of _ _ 0])
next
  case (Cons c ds)
  have "name_char c" using Cons.prems by (simp add: name_char_def is_alnum_def)
  then show ?case using Cons name_char_tests [of c] by (simp add: strchrF_Cons)
qed

lemma parsed_code: "parsed cd (PCode e)"
  using strchrF_digits [OF show_nat_all_digits]
  by (simp add: parsed_def parse_term.simps [of _ _ "_ # _"] parse_code_def quote_def)

text \<open>The first character of a term.\<close>

lemma ptext_head:
  assumes "ptm_ok t"
  shows "ptext n t \<noteq> [] \<and> \<not> blank_char (hd (ptext n t)) \<and> hd (ptext n t) \<noteq> CHR '')''"
  using assms
proof (induction t arbitrary: n)
  case (PInt s)
  then have "s \<noteq> []" "name_char (hd s) \<or> hd s = CHR ''-''" by (auto simp: is_integer_def name_char_def is_alnum_def)
  then show ?case using name_char_tests [of "hd s"] by auto
next
  case (PLit s)
  then show ?case using name_char_tests [of "hd s"] list_all_hd [of name_char s] by (auto simp: is_name_def)
next
  case (PCall f ts)
  then show ?case using name_char_tests [of "hd f"] list_all_hd [of name_char f] by (auto simp: is_name_def)
next
  case (PBool b)
  then show ?case by (auto simp: blank_char_def schar_def)
qed (auto simp: lit_def)

fun halves :: "ptm \<Rightarrow> ptm list" where
  "halves (PPair a b) = [a, b]"
| "halves t = [t]"

lemma halves_single: "\<not> is_pair t \<Longrightarrow> halves t = [t]"
  by (cases t) auto

lemma parsed_term:
  "parsed cd t \<Longrightarrow> delimiter (head_or_NUL r) \<Longrightarrow>
     parse_term cd d (ptext n t @ r) (pexps t @ ex) = Inr (pcell cd d t, r, ex)"
  by (simp add: parsed_def)

lemma length_skip [simp]: "length (skip_blanks t) \<le> length t"
  by (simp add: skip_blanks_def length_dropWhile_le)

text \<open>One round of either loop over terms: a single term in one round, a pair in two.\<close>

lemma parse_args_term:
  assumes "parsed cd t" "ptm_ok t" "delimiter (head_or_NUL r)"
  shows "parse_args cd d f1 (ptext n t @ r) (pexps t @ ex) =
    (let c = head_or_NUL r in
     if c = CHR '':'' then if f1 \<noteq> None then Inl (Fatal ''entangled pairs'') else parse_args cd d (Some (pcell cd d t)) (tl r) ex
     else if c = CHR '')'' then Inr ([make_pair d f1 (pcell cd d t)], tl r, ex)
     else bind_res (parse_args cd d None (tl r) ex) (\<lambda>(xs, r, ex). Inr (make_pair d f1 (pcell cd d t) # xs, r, ex)))"
proof -
  have h: "ptext n t \<noteq> []" "\<not> blank_char (hd (ptext n t))" "hd (ptext n t) \<noteq> CHR '')''" using ptext_head [OF assms(2)] by auto
  then have "skip_blanks (ptext n t @ r) = ptext n t @ r" by (simp add: skip_none)
  moreover have "skip_blanks r = r" using delimiter_tests(2) [OF assms(3)] by (rule skip_none)
  moreover have "length (tl r) < length (ptext n t @ r)" using h(1) by (cases "ptext n t") auto
  ultimately show ?thesis
    using h parsed_term [OF assms(1,3), of d n ex] assms(3)
    by (simp add: parse_args.simps [of cd d f1 "ptext n t @ r"] Let_def)
qed

lemma parse_terms_term:
  assumes "parsed cd t" "ptm_ok t" "delimiter (head_or_NUL r)"
  shows "parse_terms cd d f1 (ptext n t @ r) (pexps t @ ex) =
    (let c = head_or_NUL r in
     if c = CHR '':'' then if f1 \<noteq> None then Inl (Fatal ''entangled pairs'') else parse_terms cd d (Some (pcell cd d t)) (skip_blanks (tl r)) ex
     else if c = CHR '')'' then Inr ([make_pair d f1 (pcell cd d t)], tl r, ex)
     else bind_res (parse_terms cd d None (skip_blanks (tl r)) ex) (\<lambda>(xs, r, ex). Inr (make_pair d f1 (pcell cd d t) # xs, r, ex)))"
proof -
  have "length (skip_blanks (tl r)) \<le> length (tl r)" by (rule length_skip)
  then have "length (skip_blanks (tl r)) < length (ptext n t @ r)"
    using ptext_head [OF assms(2), of n] by (cases "ptext n t") auto
  then show ?thesis
    using parsed_term [OF assms(1,3), of d n ex] assms(3)
    by (simp add: parse_terms.simps [of cd d f1 "ptext n t @ r"] Let_def del: length_tl)
qed

lemma make_pair_simps [simp]:
  "make_pair d None x = x" "make_pair d (Some (pcell cd d a)) (pcell cd d b) = pcell cd d (PPair a b)"
  by (simp_all add: make_pair_def)

lemma parse_args_arg:
  assumes "\<forall>u \<in> set (halves t). parsed cd u" "ptm_ok t" "c = CHR '')'' \<or> c = CHR '',''"
  shows "parse_args cd d None (ptext n t @ c # r) (pexps t @ ex) =
    (if c = CHR '')'' then Inr ([pcell cd d t], r, ex)
     else bind_res (parse_args cd d None r ex) (\<lambda>(xs, r, ex). Inr (pcell cd d t # xs, r, ex)))"
proof (cases t)
  case (PPair a b)
  then have "parsed cd a" "parsed cd b" "ptm_ok a" "ptm_ok b" using assms(1,2) by auto
  then show ?thesis
    using assms(3) parse_args_term [of cd a "CHR '':'' # ptext (n + pnum a) b @ c # r" d None n]
      parse_args_term [of cd b "c # r" d "Some (pcell cd d a)" "n + pnum a"] PPair
    by (auto simp: delimiter_def Let_def)
qed (use assms parse_args_term [of cd t "c # r" d None n] in \<open>auto simp: delimiter_def Let_def\<close>)

lemma parse_terms_arg:
  assumes "\<forall>u \<in> set (halves t). parsed cd u" "ptm_ok t" "c = CHR '')'' \<or> c = CHR '',''"
  shows "parse_terms cd d None (ptext n t @ c # r) (pexps t @ ex) =
    (if c = CHR '')'' then Inr ([pcell cd d t], r, ex)
     else bind_res (parse_terms cd d None (skip_blanks r) ex) (\<lambda>(xs, r, ex). Inr (pcell cd d t # xs, r, ex)))"
proof (cases t)
  case (PPair a b)
  then have "parsed cd a" "parsed cd b" "ptm_ok a" and b: "ptm_ok b" using assms(1,2) by auto
  moreover have "skip_blanks (ptext (n + pnum a) b @ c # r) = ptext (n + pnum a) b @ c # r"
    using ptext_head [OF b] by (simp add: skip_none)
  ultimately show ?thesis
    using assms(3) parse_terms_term [of cd a "CHR '':'' # ptext (n + pnum a) b @ c # r" d None n]
      parse_terms_term [of cd b "c # r" d "Some (pcell cd d a)" "n + pnum a"] PPair
    by (auto simp: delimiter_def Let_def)
qed (use assms parse_terms_term [of cd t "c # r" d None n] in \<open>auto simp: delimiter_def Let_def\<close>)

lemma ptexts_comma: "ptexts (Suc c) n ts = (if ts = [] then [] else '', '' @ ptexts 0 n ts)"
proof (induction ts arbitrary: c n)
  case (Cons t ts)
  show ?case using Cons.IH [of "Suc c" "n + pnum t"] Cons.IH [of 0 "n + pnum t"] by simp
qed simp

lemma parse_args_texts:
  assumes "\<forall>u \<in> set (concat (map halves ts)). parsed cd u" "list_all ptm_ok ts" "ts \<noteq> []" "b = [] \<or> b = '' ''"
  shows "parse_args cd d None (b @ ptexts 0 n ts @ CHR '')'' # r) (concat (map pexps ts) @ ex) = Inr (map (pcell cd d) ts, r, ex)"
proof -
  have "parse_args cd d None (b @ s) ex = parse_args cd d None s ex" if "\<not> blank_char (head_or_NUL s)" for s ex
    using assms(4) that skip_none [OF that] by (auto simp: parse_args.simps skip_blanks_def)
  moreover have "\<not> blank_char (head_or_NUL (ptexts 0 n ts @ CHR '')'' # r))"
    using assms(2,3) ptext_head by (cases ts) auto
  moreover have "parse_args cd d None (ptexts 0 n ts @ CHR '')'' # r) (concat (map pexps ts) @ ex) = Inr (map (pcell cd d) ts, r, ex)"
    using assms(1-3)
  proof (induction ts arbitrary: n)
    case (Cons t ts)
    show ?case
    proof (cases "ts = []")
      case True
      then show ?thesis using Cons.prems parse_args_arg [of t cd "CHR '')''" d n r ex] by simp
    next
      case False
      let ?s = "ptexts 0 (n + pnum t) ts @ CHR '')'' # r"
      have "\<not> blank_char (head_or_NUL ?s)" using False Cons.prems(2) ptext_head by (cases ts) auto
      then have "parse_args cd d None (CHR '' '' # ?s) e = parse_args cd d None ?s e" for e
        using skip_none [of ?s] by (simp add: parse_args.simps skip_blanks_def)
      moreover have "parse_args cd d None ?s (concat (map pexps ts) @ ex) = Inr (map (pcell cd d) ts, r, ex)"
        using Cons.IH Cons.prems False by simp
      ultimately show ?thesis
        using False Cons.prems parse_args_arg [of t cd "CHR '',''" d n "CHR '' '' # ?s" "concat (map pexps ts) @ ex"]
        by (simp add: ptexts_comma)
    qed
  qed simp
  ultimately show ?thesis by simp
qed

lemma parse_terms_texts:
  assumes "\<forall>u \<in> set (concat (map halves ts)). parsed cd u" "list_all ptm_ok ts" "ts \<noteq> []"
  shows "parse_terms cd d None (ptexts 0 n ts @ CHR '')'' # r) (concat (map pexps ts) @ ex) = Inr (map (pcell cd d) ts, r, ex)"
  using assms
proof (induction ts arbitrary: n)
  case (Cons t ts)
  show ?case
  proof (cases "ts = []")
    case True
    then show ?thesis using Cons.prems parse_terms_arg [of t cd "CHR '')''" d n r ex] by simp
  next
    case False
    let ?s = "ptexts 0 (n + pnum t) ts @ CHR '')'' # r"
    have "\<not> blank_char (head_or_NUL ?s)" using False Cons.prems(2) ptext_head by (cases ts) auto
    then have "skip_blanks (CHR '' '' # ?s) = ?s" using skip_none [of ?s] by (simp add: skip_blanks_def)
    moreover have "parse_terms cd d None ?s (concat (map pexps ts) @ ex) = Inr (map (pcell cd d) ts, r, ex)"
      using Cons.IH [of "n + pnum t"] Cons.prems False by simp
    ultimately show ?thesis
      using False Cons.prems parse_terms_arg [of t cd "CHR '',''" d n "CHR '' '' # ?s" "concat (map pexps ts) @ ex"]
      by (simp add: ptexts_comma)
  qed
qed simp

lemma parsed_call:
  assumes "is_name f" "\<forall>u \<in> set (concat (map halves ts)). parsed cd u" "list_all ptm_ok ts"
  shows "parsed cd (PCall f ts)"
  unfolding parsed_def
proof (intro allI impI)
  fix d n r ex assume r: "delimiter (head_or_NUL r)"
  let ?s = "ptexts 0 n ts @ CHR '')'' # r"
  note w = name_word [OF assms(1), of "CHR ''('' # ?s"]
  have "parse_args cd (d + 1) None ?s (concat (map pexps ts) @ ex) = Inr (map (pcell cd (d + 1)) ts, r, ex)"
  proof (cases "ts = []")
    case True
    then show ?thesis by (simp add: parse_args.simps skip_none)
  next
    case False
    then show ?thesis using parse_args_texts [OF assms(2,3), where b = "[]"] by simp
  qed
  then show "parse_term cd d (ptext n (PCall f ts) @ r) (pexps (PCall f ts) @ ex) = Inr (pcell cd d (PCall f ts), r, ex)"
    using w name_char_tests [of "hd f"]
    by (simp add: parse_term.simps [of _ _ "f @ _"] Let_def skip_none leaf_def)
qed

lemma halves_parsed: "ptm_ok t \<Longrightarrow> \<forall>u \<in> set (halves t). parsed cd u"
proof (induction t)
  case (PCall f ts)
  then show ?case using parsed_call [where cd = cd and f = f and ts = ts] by (auto simp: list_all_iff)
next
  case (PPair a b)
  then show ?case using halves_single [of a] halves_single [of b] by auto
qed (auto simp: parsed_int parsed_str parsed_bool parsed_lit parsed_code)

subsection \<open>Clauses\<close>

fun clause_ok :: "pclause \<Rightarrow> bool" where
  "clause_ok (PClause nm ts) \<longleftrightarrow> nm \<noteq> [] \<and> list_all name_char nm \<and> list_all ptm_ok ts"

fun cexps :: "pclause \<Rightarrow> xcell list list" where
  "cexps (PClause nm ts) = concat (map pexps ts)"

fun ctext :: "nat \<Rightarrow> pclause \<Rightarrow> string" where
  "ctext n (PClause nm ts) = nm @ (if ts = [] then [] else ''('' @ ptexts 0 n ts @ '')'')"

fun ctexts :: "nat \<Rightarrow> pclause list \<Rightarrow> string" where
  "ctexts n [] = []"
| "ctexts n (c # cs) = ctext n c @ (if cs = [] then [] else CHR '' '' # ctexts (n + length (cexps c)) cs)"

lemma ctexts_head: "list_all clause_ok cs \<Longrightarrow> \<not> blank_char (head_or_NUL (ctexts n cs))"
proof (cases cs)
  case (Cons c ds)
  assume "list_all clause_ok cs"
  moreover obtain nm ts where "c = PClause nm ts" by (cases c)
  ultimately show ?thesis using Cons list_all_hd [of name_char nm] name_char_tests(1) [of "hd nm"] by simp
qed simp

lemma ctexts_head_name: "list_all clause_ok cs \<Longrightarrow> head_or_NUL (ctexts n cs) \<noteq> CHR ''(''"
proof (cases cs)
  case (Cons c ds)
  assume "list_all clause_ok cs"
  moreover obtain nm ts where "c = PClause nm ts" by (cases c)
  ultimately show ?thesis using Cons list_all_hd [of name_char nm] name_char_tests(8) [of "hd nm"] by auto
qed simp

lemma parse_ctexts:
  assumes "list_all clause_ok cs" "b = [] \<or> b = '' ''"
  shows "parse_clauses d d (b @ ctexts n cs) (concat (map cexps cs) @ ex) = Inr (map (pclause_cell d) cs, ex)"
  using assms
proof (induction cs arbitrary: n b)
  case Nil
  then show ?case by (auto simp: parse_clauses.simps skip_blanks_def head_or_NUL_def)
next
  case (Cons c cs)
  obtain nm ts where c: "c = PClause nm ts" by (cases c)
  let ?r = "if cs = [] then [] else CHR '' '' # ctexts (n + length (cexps c)) cs"
  let ?e = "concat (map cexps cs) @ ex"
  let ?q = "(if ts = [] then [] else ''('' @ ptexts 0 n ts @ '')'') @ ?r"
  have nm: "nm \<noteq> []" "list_all name_char nm" "list_all ptm_ok ts" using Cons.prems c by auto
  note h = name_char_tests [OF list_all_hd [OF nm(2,1)]]
  have q: "\<not> name_char (head_or_NUL ?q)" by simp
  have A: "skip_blanks (b @ nm @ ?q) = nm @ ?q"
    using Cons.prems(2) h nm(1) skip_none [of "nm @ ?q"] by (auto simp: skip_blanks_def)
  have B: "clause_name (nm @ ?q) = (nm, ?q)"
    using span_head [OF nm(2) q] h nm(1) by (simp add: clause_name_def)
  have C: "\<not> (schar (head_or_NUL ?q) > 32 \<and> head_or_NUL ?q \<noteq> NUL \<and> head_or_NUL ?q \<noteq> CHR ''('')"
    by (simp add: schar_def)
  have "\<not> blank_char (head_or_NUL (ctexts (n + length (cexps c)) cs))" using Cons.prems(1) by (simp add: ctexts_head)
  then have skip_r: "skip_blanks ?r = ctexts (n + length (cexps c)) cs"
    using skip_none [of "ctexts (n + length (cexps c)) cs"] by (simp add: skip_blanks_def)
  let ?r1 = "if ts = [] then skip_blanks ?r else ?r"
  have D: "(if head_or_NUL (skip_blanks ?q) = CHR ''('' then parse_terms d (d + 1) None (tl (skip_blanks ?q)) (concat (map pexps ts) @ ?e)
      else Inr ([], skip_blanks ?q, concat (map pexps ts) @ ?e)) = Inr (map (pcell d (d + 1)) ts, ?r1, ?e)"
  proof (cases "ts = []")
    case True
    have "head_or_NUL (ctexts (n + length (cexps c)) cs) \<noteq> CHR ''(''"
      using Cons.prems(1) ctexts_head_name [of cs] by simp
    then show ?thesis using True skip_r by simp
  next
    case False
    have "\<forall>u \<in> set (concat (map halves ts)). parsed d u" using nm(3) halves_parsed by (auto simp: list_all_iff)
    then show ?thesis using parse_terms_texts [OF _ nm(3) False, of d "d + 1" n ?r ?e] False by (simp add: skip_none)
  qed
  have "length ?r1 \<le> length ?q" using length_skip [of ?r] by (cases "ts = []") (simp_all only: if_True if_False append_Nil length_append, simp_all)
  then have E: "length ?r1 < length (b @ nm @ ?q)" using nm(1) by (simp only: length_append length_greater_0_conv [symmetric])
  have F: "parse_clauses d d ?r1 ?e = Inr (map (pclause_cell d) cs, ex)"
    using Cons.IH [of "[]" "n + length (cexps c)"] Cons.IH [of "'' ''" "n + length (cexps c)"] Cons.prems(1) skip_r
    by (cases "cs = []") auto
  have H: "head_or_NUL (nm @ ?q) = hd nm" using nm(1) by simp
  have "parse_clauses d d (b @ nm @ ?q) (concat (map pexps ts) @ ?e) = Inr (pclause_cell d c # map (pclause_cell d) cs, ex)"
    unfolding parse_clauses.simps [of d d "b @ nm @ ?q"] Let_def A H
    using h by (simp only: B C D E F if_False if_True simp_thms prod.case bind_res_simps) (simp add: c Let_def leaf_def)
  moreover have "ctexts n (c # cs) = nm @ ?q" "concat (map cexps (c # cs)) @ ex = concat (map pexps ts) @ ?e"
    by (simp_all add: c)
  ultimately show ?case by (simp only: list.map)
qed

subsection \<open>What the printer makes of a directive\<close>

definition after :: "string \<Rightarrow> xcell list list \<Rightarrow> pr \<Rightarrow> pr" where
  "after s es b = b\<lparr>pbuf := pbuf b @ s, num_ex := num_ex b + length es, exlist := exlist b @ es\<rparr>"

lemma after_simps [simp]:
  "pbuf (after s es b) = pbuf b @ s" "num_ex (after s es b) = num_ex b + length es"
  "after t fs (after s es b) = after (s @ t) (es @ fs) b" "after [] [] b = b"
  by (simp_all add: after_def)

definition fits :: "pr \<Rightarrow> string \<Rightarrow> nat \<Rightarrow> bool" where
  "fits b s k \<longleftrightarrow> length (pbuf b) + length s < XEV_LINE_SIZE \<and> num_ex b + k \<le> 10 ^ 7"

lemma fits_part:
  "fits b (s @ t) (j + k) \<Longrightarrow> fits b s j" "fits b (s @ t) (length es + k) \<Longrightarrow> fits (after s es b) t k"
  by (auto simp: fits_def)

lemma put_fits [simp]: "fits b s 0 \<Longrightarrow> put s b = Inr (after s [] b)" "fits b [c] 0 \<Longrightarrow> putch c b = Inr (after [c] [] b)"
  by (simp_all add: put_def putch_def fits_def after_def)

lemma length_show_nat_less: "n < 10 ^ k \<Longrightarrow> 0 < k \<Longrightarrow> length (show_nat n) \<le> k"
proof (induction n arbitrary: k rule: less_induct)
  case (less n)
  show ?case
  proof (cases "n < 10")
    case False
    with less.prems obtain j where k: "k = Suc j" "0 < j" by (cases k; cases "k = 1") auto
    then have "n div 10 < 10 ^ j" using less.prems by (simp add: div_less_iff_less_mult mult.commute)
    then show ?thesis using less.IH [of "n div 10" j] False k by (simp add: show_nat.simps [of n])
  qed (use less.prems in \<open>simp add: show_nat.simps [of n]\<close>)
qed

definition sep :: "bool \<Rightarrow> nat \<Rightarrow> string" where
  "sep nocomma c = (if c \<noteq> 1 \<and> \<not> nocomma then '', '' else [])"

lemma comma_fits: "fits b (sep nocomma c) 0 \<Longrightarrow> comma nocomma c b = Inr (after (sep nocomma c) [] b)"
  by (auto simp: comma_def sep_def split: if_splits)

lemma put_attr_fits: "fits b (sep nocomma c @ s) 0 \<Longrightarrow> put_attr nocomma c (Some s) b = Inr (after (sep nocomma c @ s) [] b)"
  using fits_part(1) [of b "sep nocomma c" s 0 0] fits_part(2) [of b "sep nocomma c" s "[]" 0]
  by (simp add: put_attr_def comma_fits)

lemma put_code_fits: "fits b (''`'' @ show_nat (num_ex b) @ ''`'') 1 \<Longrightarrow> put_code e b = Inr (after (''`'' @ show_nat (num_ex b) @ ''`'') [e] b)"
  using length_show_nat_less [of "num_ex b" 7] by (auto simp: put_code_def get_num_ex_def fits_def put_def after_def)

lemma clause_text_cell:
  "clause_text nocomma c (x # xs) b =
     (if x_type x \<noteq> XNode then Inl (Fatal ''clause_text: unknown type'')
      else let nm = x_name x; value = attr_value ''value'' x; name = attr_value ''name'' x; cs = x_child x in
      if nm = ''xev_integer'' \<or> nm = ''xev_boolean''
      then bind_res (put_attr nocomma (c + 1) value b) (clause_text nocomma (c + 1) xs)
      else if nm = ''xev_string''
      then (case value of
          None \<Rightarrow> not_null ''value != NULL''
        | Some v \<Rightarrow> bind_res (comma nocomma (c + 1) b) (\<lambda>b. bind_res (strG2F v CHR 0x27) (\<lambda>t.
            bind_res (put t b) (clause_text nocomma (c + 1) xs))))
      else if nm = ''xev_literal''
      then bind_res (put_attr nocomma (c + 1) name b) (clause_text nocomma (c + 1) xs)
      else if nm = ''xev_pair''
      then bind_res (comma nocomma (c + 1) b) (\<lambda>b. case cs of
          [] \<Rightarrow> not_null ''x != NULL''
        | f1 # snd1 \<Rightarrow> bind_res (clause_text True 0 [f1] b) (\<lambda>b. bind_res (put '':'' b) (\<lambda>b.
            bind_res (clause_text True 0 snd1 b) (clause_text nocomma (c + 1) xs))))
      else if nm = ''xevparse_code_exp''
      then bind_res (comma nocomma (c + 1) b) (\<lambda>b. bind_res (put_code cs b) (clause_text nocomma (c + 1) xs))
      else if nm = ''xev_func_call''
      then bind_res (put_attr nocomma (c + 1) name b) (\<lambda>b. bind_res (putch CHR ''('' b) (\<lambda>b.
        bind_res (clause_text False 0 cs b) (\<lambda>b. bind_res (putch CHR '')'' b) (clause_text nocomma (c + 1) xs))))
      else clause_text nocomma c xs b)"
  by (cases x) (simp add: Let_def)

lemma cell_simps [simp]:
  "x_type (at_depth d nm) = XNode" "x_name (at_depth d nm) = nm" "x_child (at_depth d nm) = []" "x_attr (at_depth d nm) = []"
  "x_type (with_post d x) = x_type x" "x_name (with_post d x) = x_name x" "x_child (with_post d x) = x_child x"
  "attr_value a (with_post d x) = attr_value a x" "x_type (xml_append_child cs x) = x_type x"
  "attr_value a (xml_append_child cs x) = attr_value a x"
  "x_type (leaf d nm a v) = XNode" "x_name (leaf d nm a v) = nm" "x_child (leaf d nm a v) = []"
  "attr_value a (leaf d nm a v) = Some v"
  by (simp_all add: at_depth_def with_post_def leaf_def xml_add_attr_def xml_append_child_def xml_make_node_def xml_make_cell_def
      attr_value_def xml_reset_posttext_def set_child_def split: xcell.splits)

lemma clause_texts:
  assumes "\<And>t noc c b xs d. t \<in> set ts \<Longrightarrow> fits b (sep noc (c + 1) @ ptext (num_ex b) t) (pnum t) \<Longrightarrow>
      clause_text noc c (pcell cd d t # xs) b = clause_text noc (c + 1) xs (after (sep noc (c + 1) @ ptext (num_ex b) t) (pexps t) b)"
    and "fits b (ptexts c (num_ex b) ts) (length (concat (map pexps ts)))"
  shows "clause_text False c (map (pcell cd d) ts) b = Inr (after (ptexts c (num_ex b) ts) (concat (map pexps ts)) b)"
  using assms
proof (induction ts arbitrary: c b)
  case (Cons t ts)
  let ?s = "sep False (c + 1) @ ptext (num_ex b) t"
  have s: "ptexts c (num_ex b) (t # ts) = ?s @ ptexts (c + 1) (num_ex b + pnum t) ts" by (simp add: sep_def)
  have "fits b ?s (pnum t)" "fits (after ?s (pexps t) b) (ptexts (c + 1) (num_ex b + pnum t) ts) (length (concat (map pexps ts)))"
    using Cons.prems(2) unfolding s using fits_part(1) fits_part(2) [of b ?s _ "pexps t"] by fastforce+
  then show ?case using Cons.prems(1) Cons.IH [of "after ?s (pexps t) b" "c + 1"] unfolding s by simp
qed simp

lemma clause_text_term:
  assumes "ptm_ok t" "fits b (sep noc (c + 1) @ ptext (num_ex b) t) (pnum t)"
  shows "clause_text noc c (pcell cd d t # xs) b = clause_text noc (c + 1) xs (after (sep noc (c + 1) @ ptext (num_ex b) t) (pexps t) b)"
  using assms
proof (induction t arbitrary: noc c b xs d)
  case (PStr s)
  then show ?case
    using fits_part(1) [of b "sep noc (c + 1)" _ 0 0] fits_part(2) [of b "sep noc (c + 1)" _ "[]" 0]
    by (simp add: clause_text_cell comma_fits strG2F_lit)
next
  case (PCode e)
  then show ?case
    using fits_part(1) [of b "sep noc (c + 1)" _ 0 1] fits_part(2) [of b "sep noc (c + 1)" _ "[]" 1]
    by (simp add: clause_text_cell comma_fits put_code_fits)
next
  case (PCall f ts)
  let ?h = "sep noc (c + 1) @ f" and ?k = "length (concat (map pexps ts))"
  let ?t = "ptexts 0 (num_ex b) ts"
  have f: "fits b (?h @ ''('' @ ?t @ '')'') ?k" using PCall.prems(2) by simp
  have 1: "fits b ?h 0" "fits (after ?h [] b) ''('' 0" "fits (after (?h @ ''('') [] b) ?t ?k"
    "fits (after (?h @ ''('' @ ?t) (concat (map pexps ts)) b) '')'' 0"
    using f by (auto simp: fits_def)
  have "clause_text False 0 (map (pcell cd (d + 1)) ts) (after (?h @ ''('') [] b) =
      Inr (after ?t (concat (map pexps ts)) (after (?h @ ''('') [] b))"
    using clause_texts [of ts cd "after (?h @ ''('') [] b" 0 "d + 1"] PCall 1(3) by (auto simp: list_all_iff)
  then show ?case using 1 by (simp add: clause_text_cell put_attr_fits)
next
  case (PPair u v)
  let ?h = "sep noc (c + 1)" and ?u = "ptext (num_ex b) u" and ?v = "ptext (num_ex b + pnum u) v"
  have f: "fits b (?h @ ?u @ '':'' @ ?v) (pnum u + pnum v)" using PPair.prems(2) by simp
  have 1: "fits b ?h 0" "fits (after ?h [] b) ?u (pnum u)" "fits (after (?h @ ?u) (pexps u) b) '':'' 0"
    "fits (after (?h @ ?u @ '':'') (pexps u) b) ?v (pnum v)"
    using f by (auto simp: fits_def)
  have s: "sep True n = []" for n by (simp add: sep_def)
  show ?case
    using 1 PPair.prems(1) PPair.IH(1) [of "after ?h [] b" True 0 d "[]"] PPair.IH(2) [of "after (?h @ ?u @ '':'') (pexps u) b" True 0 d "[]"]
    by (simp add: clause_text_cell [of noc] comma_fits s)
qed (simp_all add: clause_text_cell put_attr_fits)

lemma unparse_ctexts:
  assumes "list_all clause_ok cs" "cs \<noteq> []"
    "fits b ((if pbuf b = [] then [] else '' '') @ ctexts (num_ex b) cs) (length (concat (map cexps cs)))"
  shows "unparse_clauses (map (pclause_cell d) cs) b =
    Inr (after ((if pbuf b = [] then [] else '' '') @ ctexts (num_ex b) cs) (concat (map cexps cs)) b)"
  using assms
proof (induction cs arbitrary: b)
  case (Cons c cs)
  obtain nm ts where c: "c = PClause nm ts" by (cases c)
  let ?n = "num_ex b + length (cexps c)" and ?t = "ptexts 0 (num_ex b) ts" and ?es = "concat (map pexps ts)"
  obtain p where p: "p = (if pbuf b = [] then [] else '' '')" by blast
  obtain r where r: "r = (if cs = [] then [] else CHR '' '' # ctexts ?n cs)" by blast
  have nm: "nm \<noteq> []" "list_all ptm_ok ts" using Cons.prems(1) c by auto
  have all: "fits b (p @ ctext (num_ex b) c @ r) (length ?es + length (concat (map cexps cs)))"
  proof -
    have "ctexts (num_ex b) (c # cs) = ctext (num_ex b) c @ r"
      "length (concat (map cexps (c # cs))) = length ?es + length (concat (map cexps cs))" by (simp_all add: c r)
    then show ?thesis using Cons.prems(3) by (simp only: p)
  qed
  let ?b1 = "after (p @ ctext (num_ex b) c) ?es b"
  have 1: "(if pbuf b \<noteq> [] then putch CHR '' '' b else Inr b) = Inr (after p [] b)"
    using all by (auto simp: fits_def p)
  have 2: "put nm (after p [] b) = Inr (after (p @ nm) [] b)"
    using all by (subst put_fits) (auto simp: fits_def c)
  have 3: "bind_res (putch CHR ''('' (after (p @ nm) [] b)) (\<lambda>b. bind_res (clause_text False 0 (map (pcell d (d + 1)) ts) b)
      (\<lambda>b. bind_res (putch CHR '')'' b) f)) = f ?b1" if "ts \<noteq> []" for f
  proof -
    let ?b2 = "after (p @ nm @ ''('') [] b"
    have "fits (after (p @ nm) [] b) ''('' 0" "fits ?b2 ?t (length ?es)" "fits (after ?t ?es ?b2) '')'' 0"
      using all that by (auto simp: fits_def c)
    then show ?thesis
      using clause_texts [of ts d ?b2 0 "d + 1", OF clause_text_term] nm(2) that by (simp add: c list_all_iff)
  qed
  have 4: "unparse_clauses (map (pclause_cell d) cs) ?b1 = Inr (after r (concat (map cexps cs)) ?b1)"
  proof (cases "cs = []")
    case False
    have "pbuf ?b1 \<noteq> []" using nm(1) by (simp add: c)
    then have "fits ?b1 ((if pbuf ?b1 = [] then [] else '' '') @ ctexts (num_ex ?b1) cs) (length (concat (map cexps cs)))"
      using all False by (auto simp: fits_def c r)
    then show ?thesis using Cons.IH [of ?b1] Cons.prems(1) False \<open>pbuf ?b1 \<noteq> []\<close> by (simp add: c r)
  qed (simp add: r)
  have "unparse_clauses (pclause_cell d c # map (pclause_cell d) cs) b = Inr (after r (concat (map cexps cs)) ?b1)"
    using 1 2 3 [of "unparse_clauses (map (pclause_cell d) cs)"] 4 by (cases "ts = []") (simp_all add: c Let_def)
  then show ?case by (simp add: c p r)
qed simp

lemma unparse_text:
  assumes "list_all clause_ok cs" "cs \<noteq> []"
    and "length (ctexts n cs) < XEV_LINE_SIZE" "n + length (concat (map cexps cs)) \<le> 10 ^ 7"
  shows "xev_unparse_pragma (map (pclause_cell d) cs) n ex =
      Inr (ctexts n cs, n + length (concat (map cexps cs)), ex @ concat (map cexps cs))"
proof -
  let ?b = "\<lparr>pbuf = [], num_ex = n, exlist = ex\<rparr>"
  have "unparse_clauses (map (pclause_cell d) cs) ?b = Inr (after (ctexts n cs) (concat (map cexps cs)) ?b)"
    using unparse_ctexts [OF assms(1,2), of ?b] assms(3,4) by (simp add: fits_def)
  then show ?thesis using assms(3) by (simp add: xev_unparse_pragma_def after_def putch_def)
qed

text \<open>C9: what the printer makes of a directive, the parser reads back, at whatever depth: the same clauses and terms,
  with the layout of the new place, and each piece of Fortran code in its place, although only a number is printed
  for it. The lists of code go in and out at the right ends.\<close>
theorem pragma_roundtrip:
  assumes "list_all clause_ok cs" "cs \<noteq> []"
    and "length (ctexts n cs) < XEV_LINE_SIZE" "n + length (concat (map cexps cs)) \<le> 10 ^ 7"
  shows "\<exists>t. xev_unparse_pragma (map (pclause_cell d) cs) n ex =
      Inr (t, n + length (concat (map cexps cs)), ex @ concat (map cexps cs)) \<and>
    (\<forall>d' ex'. xev_parse_pragma t d' (concat (map cexps cs) @ ex') = Inr (map (pclause_cell d') cs, ex'))"
  using unparse_text [OF assms, of d ex] parse_ctexts [OF assms(1), of "[]"] by (auto simp: xev_parse_pragma_def)

lemma pragma_roundtrip_witness:
  "let cs = [PClause ''tune'' [PPair (PLit ''n'') (PInt ''4''), PCode [xml_make_node ''SgVarRefExp'' None]], PClause ''begin'' []] in
   \<exists>t. xev_unparse_pragma (map (pclause_cell 2) cs) 0 [] = Inr (t, 1, [] @ [[xml_make_node ''SgVarRefExp'' None]]) \<and>
    (\<forall>d' ex'. xev_parse_pragma t d' ([[xml_make_node ''SgVarRefExp'' None]] @ ex') = Inr (map (pclause_cell d') cs, ex'))"
  unfolding Let_def
  using pragma_roundtrip [of "[PClause ''tune'' [PPair (PLit ''n'') (PInt ''4''), PCode [xml_make_node ''SgVarRefExp'' None]], PClause ''begin'' []]" 0 2 "[]"]
  by (simp add: name_char_def is_alnum_def between_def schar_def is_digit_def is_name_def is_integer_def XEV_LINE_SIZE_def show_nat.simps digit_def)

text \<open>
  Texts that are no directives of the printer: half a pair at the end of a call is dropped; a continuation mark in
  front of a blank is a clause without a name; a blank behind the opening parenthesis of a clause ends the process.
\<close>

lemma half_pair_dropped:
  assumes "parsed cd t" "ptm_ok t"
  shows "parse_args cd d None (ptext n t @ CHR '':'' # CHR '')'' # r) (pexps t @ ex) = Inr ([], r, ex)"
  using parse_args_term [OF assms, of "CHR '':'' # CHR '')'' # r" d None n ex]
  by (simp add: delimiter_def parse_args.simps [of cd d _ "CHR '')'' # r"] skip_none)

lemma mark_is_clause:
  "parse_clauses d d ''& '' ex = Inr ([leaf d ''xev_clause'' ''name'' []], ex)"
  by (simp add: parse_clauses.simps skip_blanks_def blank_char_def schar_def clause_name_def name_char_def is_alnum_def
      between_def is_digit_def leaf_def xml_append_child_def)

lemma blank_before_term_fatal:
  "parse_term cd d (CHR '' '' # r) ex = Inl (Fatal ''unknown pragma term'')"
  by (simp add: parse_term.simps quote_def is_digit_def Let_def)

subsection \<open>Progress\<close>

lemma head_not_NUL: "head_or_NUL t \<noteq> NUL \<Longrightarrow> t \<noteq> []"
  by auto

lemma length_after_word: "name_char (head_or_NUL t) \<Longrightarrow> length (skip_blanks (dropWhile name_char t)) < length t"
proof (cases t)
  case (Cons c u)
  assume "name_char (head_or_NUL t)"
  then have "skip_blanks (dropWhile name_char t) = skip_blanks (dropWhile name_char u)" using Cons by simp
  also have "length \<dots> \<le> length u" using length_skip length_dropWhile_le order_trans by blast
  finally show ?thesis using Cons by simp
qed simp

text \<open>What a term leaves of the text is shorter, so the tests for progress hold whenever they are made.\<close>

definition args_shorter :: "string \<Rightarrow> bool" where
  "args_shorter t \<longleftrightarrow> (\<forall>cd d f1 ex xs r ex'. parse_args cd d f1 t ex = Inr (xs, r, ex') \<longrightarrow> length r \<le> length t)"

lemma term_shorter_step:
  assumes "\<And>u. length u < length t \<Longrightarrow> args_shorter u" and eq: "parse_term cd d t ex = Inr (x, r, ex')"
  shows "length r < length t"
proof -
  let ?c = "head_or_NUL t" and ?t' = "skip_blanks (dropWhile name_char t)"
  consider "is_digit ?c \<or> ?c = CHR ''-''" | "quote ?c" | "?c = CHR ''`''" | "name_char ?c" "\<not> is_digit ?c"
    using eq by (auto simp: parse_term.simps [of cd d t] Let_def split: if_splits)
  then show ?thesis
  proof cases
    case 1
    then have "?c \<noteq> NUL" "?c \<noteq> CHR ''!''" by (auto simp: is_digit_def)
    then have "r = dropWhile is_digit (tl t)" "t \<noteq> []" using 1 eq by (auto simp: parse_term.simps [of cd d t] Let_def)
    then show ?thesis using length_dropWhile_le [of is_digit "tl t"] by (cases t) auto
  next
    case 2
    then have "?c \<noteq> NUL" "?c \<noteq> CHR ''!''" "\<not> is_digit ?c" "?c \<noteq> CHR ''-''" by (auto simp: quote_def is_digit_def)
    then show ?thesis
      using 2 eq head_not_NUL [of t]
      by (auto simp: parse_term.simps [of cd d t] Let_def bind_res_eq_Inr split: option.splits)
  next
    case 3
    then show ?thesis
      using eq head_not_NUL [of t]
      by (cases t) (auto simp: parse_term.simps [of cd d] Let_def parse_code_def quote_def not_null_def split: list.splits option.splits)
  next
    case 4
    note n = name_char_tests [OF 4(1)] length_after_word [OF 4(1)]
    have tl: "length (tl ?t') < length t" using n(12) by (cases ?t') auto
    have d: "length (dropWhile name_char t) < length t"
      using 4(1) length_dropWhile_le [of name_char "tl t"] by (cases t) (auto simp: less_Suc_eq_le)
    show ?thesis
    proof (cases "takeWhile name_char t = ''true'' \<or> takeWhile name_char t = ''false''")
      case True
      then show ?thesis using eq 4 n d by (auto simp: parse_term.simps [of cd d t] Let_def)
    next
      case False
      then show ?thesis
        using eq 4 n tl assms(1) [OF tl]
        by (fastforce simp: parse_term.simps [of cd d t] Let_def bind_res_eq_Inr args_shorter_def split: if_splits)
    qed
  qed
qed

lemma args_shorter: "args_shorter t"
proof (induction "length t" arbitrary: t rule: less_induct)
  case less
  let ?t = "skip_blanks t"
  have len: "length ?t \<le> length t" by (rule length_skip)
  then have "length ?t - 1 \<le> length t" by (rule le_trans [OF diff_le_self])
  note len = len this
  show ?case
    unfolding args_shorter_def
  proof (intro allI impI)
    fix cd d f1 ex xs r ex' assume eq: "parse_args cd d f1 t ex = Inr (xs, r, ex')"
    show "length r \<le> length t"
    proof (cases "head_or_NUL ?t = CHR '')''")
      case True
      then show ?thesis using eq len by (auto simp: parse_args.simps [of cd d f1 t] Let_def)
    next
      case False
      then obtain tx q e where p: "parse_term cd d ?t ex = Inr (tx, q, e)"
        using eq by (auto simp: parse_args.simps [of cd d f1 t] Let_def bind_res_eq_Inr)
      have "length q < length ?t" using term_shorter_step [OF less p] len by simp
      then have tl: "length (tl (skip_blanks q)) < length ?t" using le_less_trans [OF le_trans [OF diff_le_self length_skip [of q]]] by simp
      then have "args_shorter (tl (skip_blanks q))" by (rule less [OF less_le_trans [OF _ length_skip]])
      then show ?thesis
        using eq p False tl len
        by (fastforce simp: parse_args.simps [of cd d f1 t] Let_def args_shorter_def bind_res_eq_Inr split: if_splits)
    qed
  qed
qed

lemma parse_term_shorter: "parse_term cd d t ex = Inr (x, r, ex') \<Longrightarrow> length r < length t"
  using term_shorter_step args_shorter by blast

end
