(* ===== verification/PragmaTree.thy ===== *)
theory PragmaTree
  imports Pragma
begin

text \<open>
  Directives in the tree of a program: \<open>get_pragma_\<close> of \<open>tools/xevparse_postf.c\<close>, which replaces the text of a
  directive by its clauses, and \<open>restore_pragma\<close> and \<open>unparse_pragma\<close> of \<open>tools/xevunparse_pre_f.c\<close>, which go
  the other way.
\<close>

subsection \<open>One directive\<close>

text \<open>The line that is noted for error messages is left out.\<close>

definition get_pragma :: "nat \<Rightarrow> xcell list \<Rightarrow> xcell list list \<Rightarrow> (xcell \<times> xcell list list) res" where
  "get_pragma depth x ex =
     bind_res (xml_chk_struct x ''=SgPragmaDeclaration'') (\<lambda>b. if \<not> b then not_null ''=SgPragmaDeclaration'' else
     bind_res (xml_chk_struct x ''c=SgPragma'') (\<lambda>b. if \<not> b then not_null ''c=SgPragma'' else
     bind_res (xml_getstr x ''ca=pragma'') (\<lambda>t. case t of
         None \<Rightarrow> Inl (Undef ''null pointer'')
       | Some t \<Rightarrow>
           if \<not> name_char (head_or_NUL t) then Inl (Fatal ''unknown type of pragma 1'')
           else
             let r = with_post depth (at_depth depth ''xev_pragma'');
                 c = with_post (depth + 1) (at_depth (depth + 1) ''xev_clause_list'')
             in bind_res (xev_parse_pragma t (depth + 2) ex) (\<lambda>(p, ex).
                bind_res (xml_insert_child p c) (\<lambda>c. bind_res (xml_insert_child [c] r) (\<lambda>r. Inr (r, ex)))))))"

definition restore_pragma :: "xcell list \<Rightarrow> nat \<Rightarrow> xcell list list \<Rightarrow> (xcell \<times> nat \<times> xcell list list) res" where
  "restore_pragma x n ex =
     (let res = xml_make_node ''SgPragmaDeclaration'' (Some (xos_spaces 0));
          c = xml_make_node ''SgPragma'' (Some (xos_spaces 0))
      in bind_res (xml_get_child x) (\<lambda>l. bind_res (xml_get_child l) (\<lambda>p.
         bind_res (xev_unparse_pragma p n ex) (\<lambda>(s, n, ex).
           Inr (xml_append_child [xml_add_attr c ''pragma'' (Some s)] res, n, ex)))))"

text \<open>The cell of a directive at a depth.\<close>

definition directive_cell :: "nat \<Rightarrow> pclause list \<Rightarrow> xcell" where
  "directive_cell d cs = xml_append_child
     [xml_append_child (map (pclause_cell (d + 2)) cs) (with_post (d + 1) (at_depth (d + 1) ''xev_clause_list''))]
     (with_post d (at_depth d ''xev_pragma''))"

lemma attr_of_leaf [simp]: "attr_value a (xml_add_attr (xml_make_node nm p) a (Some v)) = Some v"
  by (simp add: attr_value_def xml_add_attr_def xml_make_node_def xml_make_cell_def)

lemma add_attr_fields [simp]: "x_name (xml_add_attr x a v) = x_name x" "x_child (xml_add_attr x a v) = x_child x"
  by (simp_all add: xml_add_attr_def split: xcell.splits)

lemma insert_child_append: "cs \<noteq> [] \<Longrightarrow> x_child x = [] \<Longrightarrow> xml_insert_child cs x = Inr (xml_append_child cs x)"
  by (simp add: xml_insert_child_def xml_append_child_def)

text \<open>C12: a directive goes from its clauses into the text of a \<open>SgPragma\<close> and back; at the new depth it has the
  layout that belongs there, and all else as before.\<close>
theorem directive_roundtrip:
  assumes "list_all clause_ok cs" "cs \<noteq> []"
    and "length (ctexts n cs) < XEV_LINE_SIZE" "n + length (concat (map cexps cs)) \<le> 10 ^ 7"
  shows "\<exists>x. restore_pragma (directive_cell d cs # xs) n ex = Inr (x, n + length (concat (map cexps cs)), ex @ concat (map cexps cs)) \<and>
    (\<forall>d' ys ex'. get_pragma d' (x # ys) (concat (map cexps cs) @ ex') = Inr (directive_cell d' cs, ex'))"
proof -
  obtain nm ts cs' where cs: "cs = PClause nm ts # cs'" using assms(2) by (cases cs; cases "hd cs") auto
  have nm: "nm \<noteq> []" "name_char (hd nm)" using assms(1) list_all_hd [of name_char nm] by (auto simp: cs)
  have head: "name_char (head_or_NUL (ctexts n cs))" using nm by (simp add: cs)
  have t: "xev_unparse_pragma (map (pclause_cell (d + 2)) cs) n ex =
      Inr (ctexts n cs, n + length (concat (map cexps cs)), ex @ concat (map cexps cs))"
    and p: "\<And>d' ex'. xev_parse_pragma (ctexts n cs) d' (concat (map cexps cs) @ ex') = Inr (map (pclause_cell d') cs, ex')"
    using unparse_text [OF assms] parse_ctexts [OF assms(1), of "[]"] by (simp_all add: xev_parse_pragma_def)
  let ?x = "xml_append_child [xml_add_attr (xml_make_node ''SgPragma'' (Some (xos_spaces 0))) ''pragma'' (Some (ctexts n cs))]
    (xml_make_node ''SgPragmaDeclaration'' (Some (xos_spaces 0)))"
  have "restore_pragma (directive_cell d cs # xs) n ex = Inr (?x, n + length (concat (map cexps cs)), ex @ concat (map cexps cs))"
    using t by (simp add: restore_pragma_def directive_cell_def xml_get_child_def)
  moreover have "get_pragma d' (?x # ys) (concat (map cexps cs) @ ex') = Inr (directive_cell d' cs, ex')" for d' ys ex'
    using head p assms(2)
    by (simp add: get_pragma_def cmp_str_def xml_getstr_def attr_of_leaf insert_child_append directive_cell_def Let_def)
  ultimately show ?thesis by blast
qed

subsection \<open>A program\<close>

text \<open>
  \<open>unparse_pragma\<close> looks at the first child and at the next sibling of each cell, and goes on below and behind
  what it has put in their place.
\<close>

lemma restore_weight:
  "restore_pragma (x # xs) n ex = Inr (y, n', ex') \<Longrightarrow> weigh (\<lambda>_. 0) y \<le> weigh (\<lambda>_. 0) x"
proof -
  assume r: "restore_pragma (x # xs) n ex = Inr (y, n', ex')"
  then obtain s where y: "y = xml_append_child [xml_add_attr (xml_make_node ''SgPragma'' (Some (xos_spaces 0))) ''pragma'' (Some s)]
      (xml_make_node ''SgPragmaDeclaration'' (Some (xos_spaces 0)))"
    by (auto simp: restore_pragma_def bind_res_eq_Inr)
  have "x_child x \<noteq> []" using r by (auto simp: restore_pragma_def xml_get_child_def not_null_def bind_res_eq_Inr)
  then have "2 \<le> weigh (\<lambda>_. 0) x" by (cases "x_child x") (auto simp: weigh_cell)
  moreover have "weigh (\<lambda>_. 0) y = 2"
    by (simp add: y weigh_cell xml_add_attr_def xml_make_node_def xml_make_cell_def)
  ultimately show ?thesis by simp
qed

definition restore_first :: "xcell list \<Rightarrow> nat \<Rightarrow> xcell list list \<Rightarrow> (xcell list \<times> nat \<times> xcell list list) res" where
  "restore_first xs n ex = (case xs of
     [] \<Rightarrow> Inr ([], n, ex)
   | x # ys \<Rightarrow>
       if x_name x = ''xev_pragma'' then bind_res (restore_pragma [x] n ex) (\<lambda>(x, n, ex). Inr (x # ys, n, ex))
       else Inr (xs, n, ex))"

lemma restore_first_weight:
  "restore_first xs n ex = Inr (ys, n', ex') \<Longrightarrow> weigh_all (\<lambda>_. 0) ys \<le> weigh_all (\<lambda>_. 0) xs"
  by (cases xs) (auto simp: restore_first_def bind_res_eq_Inr dest: restore_weight split: if_splits)

function unparse_pragma :: "xcell list \<Rightarrow> nat \<Rightarrow> xcell list list \<Rightarrow> (xcell list \<times> nat \<times> xcell list list) res" where
  "unparse_pragma [] n ex = Inr ([], n, ex)"
| "unparse_pragma (x # xs) n ex =
     bind_res (restore_first (x_child x) n ex) (\<lambda>(cs, n, ex). bind_res (unparse_pragma cs n ex) (\<lambda>(cs, n, ex).
     bind_res (restore_first xs n ex) (\<lambda>(xs, n, ex). bind_res (unparse_pragma xs n ex) (\<lambda>(xs, n, ex).
       Inr (set_child cs x # xs, n, ex)))))"
  by pat_completeness auto
termination
  by (relation "measure (\<lambda>(xs, n, ex). weigh_all (\<lambda>_. 0) xs)")
    (auto simp: weigh_cell dest!: restore_first_weight)

declare unparse_pragma.simps [simp del]

text \<open>
  What is left has no directive, but for the first cell of the tree, which nothing comes before.
\<close>

lemma restore_first_head:
  "restore_first xs n ex = Inr (ys, n', ex') \<Longrightarrow> ys \<noteq> [] \<Longrightarrow> x_name (hd ys) \<noteq> ''xev_pragma''"
  by (cases xs) (auto simp: restore_first_def bind_res_eq_Inr restore_pragma_def split: if_splits)

text \<open>C19: \<open>unparse_pragma\<close> leaves no directive behind: below the first cell of a tree and behind it there is none.\<close>
theorem unparse_leaves_no_directive:
  assumes "unparse_pragma (x # xs) n ex = Inr (y # ys, n', ex')"
  shows "list_all no_pragma (x_child y) \<and> list_all no_pragma ys"
proof -
  have "xs \<noteq> [] \<longrightarrow> zs \<noteq> [] \<and> x_name (hd zs) = x_name (hd xs) \<and> list_all no_pragma (x_child (hd zs)) \<and> list_all no_pragma (tl zs)"
    if "unparse_pragma xs n ex = Inr (zs, n', ex')" for xs n ex zs n' ex'
    using that
  proof (induction xs n ex arbitrary: zs n' ex' rule: unparse_pragma.induct)
    case (2 x xs n ex)
    obtain cs n1 e1 cs' n2 e2 ys n3 e3 ys' where
      1: "restore_first (x_child x) n ex = Inr (cs, n1, e1)" "unparse_pragma cs n1 e1 = Inr (cs', n2, e2)"
      "restore_first xs n2 e2 = Inr (ys, n3, e3)" "unparse_pragma ys n3 e3 = Inr (ys', n', ex')" "zs = set_child cs' x # ys'"
      using "2.prems" by (auto simp: unparse_pragma.simps bind_res_eq_Inr)
    have quiet: "list_all no_pragma vs'" if "restore_first us m e = Inr (vs, m', e')" "unparse_pragma vs m' e' = Inr (vs', k, f)"
      "vs \<noteq> [] \<longrightarrow> vs' \<noteq> [] \<and> x_name (hd vs') = x_name (hd vs) \<and> list_all no_pragma (x_child (hd vs')) \<and> list_all no_pragma (tl vs')"
      for us m e vs m' e' vs' k f
      using that restore_first_head [OF that(1)]
      by (cases vs; cases vs') (auto simp: unparse_pragma.simps no_pragma_iff [where x = "hd vs'"] intro: no_pragma_iff [THEN iffD2])
    have "list_all no_pragma cs'" by (rule quiet [OF 1(1,2)]) (rule "2.IH"(1) [OF 1(1) refl refl 1(2)])
    moreover have "list_all no_pragma ys'"
      by (rule quiet [OF 1(3,4)]) (rule "2.IH"(2) [OF 1(1) refl refl 1(2) refl refl 1(3) refl refl 1(4)])
    ultimately show ?case using 1(5) by simp
  qed (simp add: unparse_pragma.simps)
  from this [OF assms] show ?thesis by simp
qed

lemma directive_roundtrip_witness:
  "let cs = [PClause ''xev'' [], PClause ''unroll'' [PLit ''i'']] in
   \<exists>x. restore_pragma (directive_cell 3 cs # []) 0 [] = Inr (x, 0, []) \<and>
    (\<forall>d' ys ex'. get_pragma d' (x # ys) ([] @ ex') = Inr (directive_cell d' cs, ex'))"
  unfolding Let_def
  using directive_roundtrip [of "[PClause ''xev'' [], PClause ''unroll'' [PLit ''i'']]" 0 3 "[]" "[]"]
  by (simp add: name_char_def is_alnum_def between_def schar_def is_digit_def is_name_def XEV_LINE_SIZE_def)

lemma unparse_leaves_no_directive_witness:
  "\<exists>y n' ex'. unparse_pragma [xml_append_child [directive_cell 1 [PClause ''xev'' []]] (xml_make_node ''SgGlobal'' None)] 0 [] =
     Inr ([y], n', ex') \<and> list_all no_pragma (x_child y) \<and> list_all no_pragma []"
proof -
  let ?p = "directive_cell 1 [PClause ''xev'' []]" and ?g = "xml_make_node ''SgGlobal'' None"
  obtain x where x: "restore_pragma [?p] 0 [] = Inr (x, 0, [])"
    using directive_roundtrip [of "[PClause ''xev'' []]" 0 1 "[]" "[]"]
    by (auto simp: name_char_def is_alnum_def between_def schar_def is_digit_def XEV_LINE_SIZE_def)
  have n: "x_name ?p = ''xev_pragma''" by (simp add: directive_cell_def)
  obtain s where s: "x = xml_append_child [xml_add_attr (xml_make_node ''SgPragma'' (Some (xos_spaces 0))) ''pragma'' (Some s)]
      (xml_make_node ''SgPragmaDeclaration'' (Some (xos_spaces 0)))"
    using x by (auto simp: restore_pragma_def bind_res_eq_Inr)
  have "unparse_pragma [xml_append_child [?p] ?g] 0 [] =
      Inr ([set_child [set_child [xml_add_attr (xml_make_node ''SgPragma'' (Some (xos_spaces 0))) ''pragma'' (Some s)] x]
        (xml_append_child [?p] ?g)], 0, [])"
    using x n by (simp add: unparse_pragma.simps restore_first_def s) (simp add: set_child_same)
  then show ?thesis using unparse_leaves_no_directive by blast
qed

end
