(* ===== verification/Strobj.thy ===== *)
theory Strobj
  imports LangStr "HOL-Library.Word"
begin

text \<open>
  The string objects of the tools, \<open>tools/xevutil_strobj.c\<close>: a hash table with chains in which every
  string is stored once, so that the tools compare strings by comparing pointers.
\<close>

unbundle bit_operations_syntax

subsection \<open>The table\<close>

text \<open>
  \<open>strobjCell_t\<close> with its string and its link. The heap holds the cells in the order of their allocation, a
  pointer is an index into it. The table is empty as long as \<open>strobjTable\<close> is a null pointer.
\<close>

record strobjCell =
  cell_next :: "nat option"
  cell_s :: string

record strobjs =
  strobjTable :: "nat option list"
  cells :: "strobjCell list"

definition strobjHashSize :: nat where
  "strobjHashSize = 1024"

text \<open>The hash, with \<open>int\<close> at 32 bits; a \<open>char\<close> is signed.\<close>

fun hash_from :: "string \<Rightarrow> 32 word \<Rightarrow> 32 word \<Rightarrow> 32 word" where
  "hash_from [] res coef = res"
| "hash_from (c # s) res coef = hash_from s ((res + word_of_int (schar c) * coef) AND 1023) (coef + 2)"

definition strobjHash :: "string \<Rightarrow> nat" where
  "strobjHash s = unat (hash_from s 0 123)"

definition newStrobjCell :: "string \<Rightarrow> strobjs \<Rightarrow> nat \<times> strobjs" where
  "newStrobjCell s st = (length (cells st), st\<lparr>cells := cells st @ [\<lparr>cell_next = None, cell_s = s\<rparr>]\<rparr>)"

text \<open>The loop along a chain stops in front of the cell with the string, or at the last one.\<close>

partial_function (option) in_chain :: "strobjCell list \<Rightarrow> string \<Rightarrow> nat \<Rightarrow> nat option" where
  "in_chain h s p = (case cell_next (h ! p) of
     None \<Rightarrow> Some p
   | Some q \<Rightarrow> if cell_s (h ! q) = s then Some p else in_chain h s q)"

definition link_cell :: "nat \<Rightarrow> nat \<Rightarrow> strobjs \<Rightarrow> strobjs" where
  "link_cell p q st = st\<lparr>cells := (cells st)[p := (cells st ! p)\<lparr>cell_next := Some q\<rparr>]\<rparr>"

definition with_table :: "strobjs \<Rightarrow> strobjs" where
  "with_table st = (if strobjTable st = [] then st\<lparr>strobjTable := replicate strobjHashSize None\<rparr> else st)"

text \<open>\<open>get_strobj\<close>, on a string that is not a null pointer; \<open>None\<close> if it never returned.\<close>

definition get_strobj :: "string \<Rightarrow> strobjs \<Rightarrow> (nat \<times> strobjs) option" where
  "get_strobj s st0 =
     (let st = with_table st0; p = strobjHash s in
      case strobjTable st ! p of
        None \<Rightarrow> (case newStrobjCell s st of (cell, st) \<Rightarrow> Some (cell, st\<lparr>strobjTable := (strobjTable st)[p := Some cell]\<rparr>))
      | Some head \<Rightarrow>
          if cell_s (cells st ! head) = s then Some (head, st)
          else case in_chain (cells st) s head of
              None \<Rightarrow> None
            | Some cell \<Rightarrow>
                (case cell_next (cells st ! cell) of
                   None \<Rightarrow> (case newStrobjCell s st of (new, st) \<Rightarrow> Some (new, link_cell cell new st))
                 | Some found \<Rightarrow> Some (found, st)))"

definition no_strings :: strobjs where
  "no_strings = \<lparr>strobjTable = [], cells = []\<rparr>"

text \<open>
  \<open>int_strobj\<close>: the counting loop divides towards zero, so it runs on the absolute value; the buffer has two
  bytes more than it counts.
\<close>

fun count_digits :: "nat \<Rightarrow> nat \<Rightarrow> nat" where
  "count_digits nn c = (if nn = 0 then c else count_digits (nn div 10) (c + 1))"

declare count_digits.simps [simp del]

definition int_strobj :: "int \<Rightarrow> strobjs \<Rightarrow> (nat \<times> strobjs) option res" where
  "int_strobj n st =
     (if count_digits (nat \<bar>n\<bar>) 1 + 2 < length (show_int n) + 1 then Inl (Undef ''write past the end of the buffer'')
      else Inr (get_strobj (show_int n) st))"

text \<open>\<open>strobj_int\<close>: \<open>sscanf\<close> leaves a number outside \<open>int\<close> undefined.\<close>

definition strobj_int :: "string \<Rightarrow> int res" where
  "strobj_int s =
     (let (neg, u) = sign_of (dropWhile isspace s); ds = takeWhile is_digit u;
          v = (if neg then - int (digits_val ds) else int (digits_val ds))
      in if ds = [] then Inl (Fatal ''strobj_int failed'')
         else if int32 v then Inr v else Inl (Undef ''number out of range''))"

subsection \<open>Hashes\<close>

lemma hash_from_less: "unat r < 1024 \<Longrightarrow> unat (hash_from s r c) < 1024"
proof (induction s arbitrary: r c)
  case (Cons x s)
  have "unat (w AND 1023) < 1024" for w :: "32 word"
  proof -
    have "w AND 1023 \<le> 1023" by (rule word_and_le1)
    then show ?thesis by (simp add: word_le_nat_alt)
  qed
  then show ?case using Cons.IH by simp
qed simp

text \<open>The assertion of \<open>strobjHash\<close> never fails: the hash is an index into the table.\<close>

lemma strobjHash_less: "strobjHash s < strobjHashSize"
  by (simp add: strobjHash_def strobjHashSize_def hash_from_less)

subsection \<open>Chains\<close>

fun links :: "strobjCell list \<Rightarrow> nat option \<Rightarrow> nat list \<Rightarrow> bool" where
  "links h p [] \<longleftrightarrow> p = None"
| "links h p (a # as) \<longleftrightarrow> p = Some a \<and> a < length h \<and> links h (cell_next (h ! a)) as"

lemma links_None [simp]: "links h None as \<longleftrightarrow> as = []"
  by (cases as) auto

lemma links_off:
  "links h p as \<Longrightarrow> c \<notin> set as \<Longrightarrow> links ((h @ [x])[c := y]) p as"
  by (induction as arbitrary: p) (auto simp: nth_append)

lemma links_extend:
  assumes "links h p (as @ [c])" "distinct (as @ [c])" "cell_next y = Some (length h)" "cell_next x = None"
  shows "links ((h @ [x])[c := y]) p (as @ [c, length h])"
  using assms by (induction as arbitrary: p) (auto simp: nth_append nth_list_update)

lemma links_last: "links h p (as @ [c]) \<Longrightarrow> c < length h \<and> cell_next (h ! c) = None"
  by (induction as arbitrary: p) auto

lemma in_chain_returns:
  assumes "links h (Some a) (a # as)"
  shows "\<exists>c \<in> set (a # as). in_chain h s a = Some c \<and>
    ((\<exists>q \<in> set as. cell_next (h ! c) = Some q \<and> cell_s (h ! q) = s) \<or>
     (\<forall>q \<in> set as. cell_s (h ! q) \<noteq> s) \<and> cell_next (h ! c) = None \<and> c = last (a # as))"
  using assms
proof (induction as arbitrary: a)
  case Nil
  then show ?case by (simp add: in_chain.simps)
next
  case (Cons b as)
  show ?case
  proof (cases "cell_s (h ! b) = s")
    case True
    then show ?thesis using Cons.prems by (simp add: in_chain.simps [of h s a])
  next
    case False
    have "links h (Some b) (b # as)" using Cons.prems by simp
    from Cons.IH [OF this] show ?thesis
      using Cons.prems False by (simp add: in_chain.simps [of h s a])
  qed
qed

text \<open>The chain of a hash: the cells with it, in the order of their allocation.\<close>

definition bucket :: "strobjCell list \<Rightarrow> nat \<Rightarrow> nat list" where
  "bucket h p = filter (\<lambda>a. strobjHash (cell_s (h ! a)) = p) [0..<length h]"

definition table_ok :: "strobjs \<Rightarrow> bool" where
  "table_ok st \<longleftrightarrow> length (strobjTable st) = strobjHashSize \<and> distinct (map cell_s (cells st)) \<and>
     (\<forall>p < strobjHashSize. links (cells st) (strobjTable st ! p) (bucket (cells st) p))"

definition strobjs_ok :: "strobjs \<Rightarrow> bool" where
  "strobjs_ok st \<longleftrightarrow> table_ok st \<or> st = no_strings"

lemma no_strings_ok: "strobjs_ok no_strings"
  by (simp add: strobjs_ok_def)

lemma with_table_ok: "strobjs_ok st \<Longrightarrow> table_ok (with_table st)"
  by (auto simp: strobjs_ok_def table_ok_def with_table_def no_strings_def bucket_def strobjHashSize_def)

lemma with_table_cells [simp]: "cells (with_table st) = cells st"
  by (simp add: with_table_def)

lemma bucket_mem: "a \<in> set (bucket h p) \<longleftrightarrow> a < length h \<and> strobjHash (cell_s (h ! a)) = p"
  by (auto simp: bucket_def)

lemma bucket_snoc:
  "map cell_s h' = map cell_s h @ [s] \<Longrightarrow>
     bucket h' p = bucket h p @ (if strobjHash s = p then [length h] else [])"
proof -
  assume h': "map cell_s h' = map cell_s h @ [s]"
  then have l: "length h' = Suc (length h)" by (metis length_map length_append_singleton)
  have "cell_s (h' ! a) = (map cell_s h @ [s]) ! a" if "a < length h'" for a
    using h' that by (metis nth_map)
  then have "\<And>a. a < length h \<Longrightarrow> cell_s (h' ! a) = cell_s (h ! a)" "cell_s (h' ! length h) = s"
    using l by (auto simp: nth_append)
  then show ?thesis by (auto simp: bucket_def l intro!: filter_cong)
qed

subsection \<open>What the table stands for\<close>

text \<open>
  The strings in the order in which they came; \<open>get_strobj\<close> looks its string up or puts it at the end.
\<close>

abbreviation strings :: "strobjs \<Rightarrow> string list" where
  "strings st \<equiv> map cell_s (cells st)"

definition string_at :: "strobjs \<Rightarrow> nat \<Rightarrow> string option" where
  "string_at st p = (if p < length (strings st) then Some (strings st ! p) else None)"

lemma bucket_has:
  "s \<in> set (strings st) \<longleftrightarrow> (\<exists>a \<in> set (bucket (cells st) (strobjHash s)). cell_s (cells st ! a) = s)"
proof -
  have "s \<in> set (strings st) \<longleftrightarrow> (\<exists>a < length (cells st). cell_s (cells st ! a) = s)"
    by (auto simp only: in_set_conv_nth length_map nth_map)
  then show ?thesis by (auto simp: bucket_mem)
qed

lemma link_cell_strings [simp]:
  "map cell_s (cells (link_cell p q st)) = map cell_s (cells st)"
  by (simp add: link_cell_def map_update) (metis list_update_id map_update nth_map list_update_beyond not_le_imp_less)

lemma strobjTable_link_cell [simp]: "strobjTable (link_cell p q st) = strobjTable st"
  by (simp add: link_cell_def)

lemma table_ok_first:
  assumes "table_ok st" "strobjTable st ! strobjHash s = None"
  shows "table_ok (st\<lparr>cells := cells st @ [\<lparr>cell_next = None, cell_s = s\<rparr>],
    strobjTable := (strobjTable st)[strobjHash s := Some (length (cells st))]\<rparr>)" (is "table_ok ?st'")
    and "s \<notin> set (strings st)"
proof -
  have e: "bucket (cells st) (strobjHash s) = []"
    using assms strobjHash_less [of s] unfolding table_ok_def by force
  show new: "s \<notin> set (strings st)" unfolding bucket_has by (simp add: e)
  have "links (cells ?st') (strobjTable ?st' ! p) (bucket (cells ?st') p)" if "p < strobjHashSize" for p
  proof -
    have "links (cells st) (strobjTable st ! p) (bucket (cells st) p)" using assms(1) that by (simp add: table_ok_def)
    then have "links (cells ?st') (strobjTable st ! p) (bucket (cells st) p)"
      using links_off [of "cells st" _ _ "length (cells st)" _ "\<lparr>cell_next = None, cell_s = s\<rparr>"]
      by (simp add: bucket_mem)
    then show ?thesis
      using e assms(1) that by (auto simp: bucket_snoc [where s = s and h = "cells st"] table_ok_def)
  qed
  then show "table_ok ?st'" using assms(1) new by (simp add: table_ok_def)
qed

lemma table_ok_linked:
  assumes "table_ok st" "strobjTable st ! strobjHash s = Some a" "s \<notin> set (strings st)"
    "c = last (bucket (cells st) (strobjHash s))"
  shows "table_ok (link_cell c (length (cells st)) (st\<lparr>cells := cells st @ [\<lparr>cell_next = None, cell_s = s\<rparr>]\<rparr>))"
    (is "table_ok ?st'")
proof -
  let ?h = "cells st" and ?n = "\<lparr>cell_next = None, cell_s = s\<rparr>"
  have links: "links ?h (strobjTable st ! p) (bucket ?h p)" if "p < strobjHashSize" for p
    using assms(1) that by (simp add: table_ok_def)
  obtain as where as: "bucket ?h (strobjHash s) = as @ [c]"
    using links [OF strobjHash_less, of s] assms(2,4) by (metis append_butlast_last_id links.simps(1) option.distinct(1))
  have c: "c < length ?h" "strobjHash (cell_s (?h ! c)) = strobjHash s"
    using bucket_mem [of c ?h "strobjHash s"] as by auto
  have cells': "cells ?st' = (?h @ [?n])[c := (?h ! c)\<lparr>cell_next := Some (length ?h)\<rparr>]"
    using c by (simp add: link_cell_def nth_append)
  have strings': "map cell_s (cells ?st') = map cell_s ?h @ [s]" by simp
  have dist: "distinct (as @ [c])" using as unfolding bucket_def by (metis distinct_filter distinct_upt)
  note bucket' = bucket_snoc [OF strings', unfolded cells']
  have "links (cells ?st') (strobjTable st ! p) (bucket (cells ?st') p)" if p: "p < strobjHashSize" for p
  proof (cases "p = strobjHash s")
    case True
    then show ?thesis
      using links [OF p] as links_extend [of ?h "strobjTable st ! p" as c] dist by (simp add: bucket' cells')
  next
    case False
    then have "c \<notin> set (bucket ?h p)" using c by (simp add: bucket_mem)
    then show ?thesis
      using False links_off [OF links [OF p]] by (simp add: bucket' cells')
  qed
  then show ?thesis using assms(1,3) by (simp add: table_ok_def)
qed

text \<open>The refinement: the new list of strings and the place of the string in it.\<close>

definition intern :: "string \<Rightarrow> string list \<Rightarrow> nat \<times> string list" where
  "intern s xs = (if s \<in> set xs then (length (takeWhile (\<lambda>x. x \<noteq> s) xs), xs) else (length xs, xs @ [s]))"

lemma index_first:
  "s \<in> set xs \<Longrightarrow> length (takeWhile (\<lambda>x. x \<noteq> s) xs) < length xs \<and> xs ! length (takeWhile (\<lambda>x. x \<noteq> s) xs) = s"
  by (induction xs) auto

lemma intern_found:
  "distinct xs \<Longrightarrow> p < length xs \<Longrightarrow> xs ! p = s \<Longrightarrow> intern s xs = (p, xs)"
  using index_first [of s xs] by (auto simp: intern_def distinct_conv_nth)

lemma intern_at:
  "intern s xs = (p, ys) \<Longrightarrow> p < length ys \<and> ys ! p = s \<and> (\<forall>q < length xs. q < length ys \<and> ys ! q = xs ! q)"
  using index_first [of s xs] by (auto simp: intern_def nth_append split: if_splits)

lemma get_strobj_intern:
  assumes "strobjs_ok st"
  shows "\<exists>p st'. get_strobj s st = Some (p, st') \<and> strobjs_ok st' \<and> intern s (strings st) = (p, strings st')"
proof -
  let ?T = "with_table st"
  have ok: "table_ok ?T" using assms by (rule with_table_ok)
  then have links: "links (cells st) (strobjTable ?T ! strobjHash s) (bucket (cells st) (strobjHash s))"
    using strobjHash_less [of s] by (auto simp: table_ok_def)
  have found: ?thesis if "get_strobj s st = Some (p, ?T)" "p < length (cells st)" "cell_s (cells st ! p) = s" for p
    using ok that intern_found [of "strings st" p s] by (auto simp: strobjs_ok_def table_ok_def)
  show ?thesis
  proof (cases "strobjTable ?T ! strobjHash s")
    case None
    then show ?thesis
      using table_ok_first [OF ok None]
      by (simp add: get_strobj_def Let_def newStrobjCell_def strobjs_ok_def intern_def)
  next
    case (Some a)
    then obtain as where as: "bucket (cells st) (strobjHash s) = a # as"
      using links by (cases "bucket (cells st) (strobjHash s)") auto
    have below: "c < length (cells st)" if "c \<in> set (a # as)" for c
      using that as bucket_mem [of c "cells st" "strobjHash s"] by simp
    show ?thesis
    proof (cases "cell_s (cells st ! a) = s")
      case True
      then show ?thesis using found [of a] Some below [of a] by (simp add: get_strobj_def Let_def)
    next
      case False
      from in_chain_returns [of "cells st" a as s] links Some as
      obtain c where c: "c \<in> set (a # as)" "in_chain (cells st) s a = Some c"
        and cases: "(\<exists>q \<in> set as. cell_next (cells st ! c) = Some q \<and> cell_s (cells st ! q) = s) \<or>
          (\<forall>q \<in> set as. cell_s (cells st ! q) \<noteq> s) \<and> cell_next (cells st ! c) = None \<and> c = last (a # as)"
        by auto
      from cases show ?thesis
      proof (elim disjE bexE conjE)
        fix q assume "q \<in> set as" "cell_next (cells st ! c) = Some q" "cell_s (cells st ! q) = s"
        then show ?thesis using found [of q] Some False c below [of q] by (simp add: get_strobj_def Let_def)
      next
        assume new: "\<forall>q \<in> set as. cell_s (cells st ! q) \<noteq> s" and last: "cell_next (cells st ! c) = None" "c = last (a # as)"
        then have "s \<notin> set (strings st)" using False as by (auto simp only: bucket_has) auto
        then show ?thesis
          using table_ok_linked [OF ok Some, of c] Some False c last as
          by (simp add: get_strobj_def Let_def newStrobjCell_def strobjs_ok_def intern_def)
      qed
    qed
  qed
qed

subsection \<open>Pointers for strings\<close>

text \<open>
  What the tools rely on when they compare pointers: the contract of an interning table, and what follows
  from it for the pointers that a series of calls returns.
\<close>

locale interning =
  fixes get :: "string \<Rightarrow> 's \<Rightarrow> ('p \<times> 's) option"
    and string_of :: "'s \<Rightarrow> 'p \<Rightarrow> string option"
    and ok :: "'s \<Rightarrow> bool"
  assumes get_returns: "ok S \<Longrightarrow> \<exists>p S'. get s S = Some (p, S')"
    and get_ok: "ok S \<Longrightarrow> get s S = Some (p, S') \<Longrightarrow> ok S'"
    and get_string: "ok S \<Longrightarrow> get s S = Some (p, S') \<Longrightarrow> string_of S' p = Some s"
    and get_keeps: "ok S \<Longrightarrow> get s S = Some (p, S') \<Longrightarrow> string_of S q = Some t \<Longrightarrow> string_of S' q = Some t"
    and one_pointer: "ok S \<Longrightarrow> string_of S p = Some s \<Longrightarrow> string_of S q = Some s \<Longrightarrow> p = q"
begin

fun get_all :: "string list \<Rightarrow> 's \<Rightarrow> ('p list \<times> 's) option" where
  "get_all [] S = Some ([], S)"
| "get_all (s # ss) S = (case get s S of None \<Rightarrow> None
     | Some (p, S) \<Rightarrow> (case get_all ss S of None \<Rightarrow> None | Some (ps, S) \<Rightarrow> Some (p # ps, S)))"

lemma get_all_returns:
  assumes "ok S"
  shows "\<exists>ps S'. get_all ss S = Some (ps, S') \<and> ok S' \<and> map (string_of S') ps = map Some ss \<and>
    (\<forall>q t. string_of S q = Some t \<longrightarrow> string_of S' q = Some t)"
  using assms
proof (induction ss arbitrary: S)
  case (Cons s ss)
  obtain p S1 where 1: "get s S = Some (p, S1)" using get_returns [OF Cons.prems] by blast
  obtain ps S2 where 2: "get_all ss S1 = Some (ps, S2)" "ok S2" "map (string_of S2) ps = map Some ss"
    "\<forall>q t. string_of S1 q = Some t \<longrightarrow> string_of S2 q = Some t"
    using Cons.IH [OF get_ok [OF Cons.prems 1]] by blast
  show ?case using 1 2 get_string [OF Cons.prems 1] get_keeps [OF Cons.prems 1] by auto
qed simp

lemma pointers_agree:
  assumes "ok S" "get_all ss S = Some (ps, S')" "i < length ss" "j < length ss"
  shows "ps ! i = ps ! j \<longleftrightarrow> ss ! i = ss ! j"
proof -
  have ok: "ok S'" and ps: "map (string_of S') ps = map Some ss"
    using get_all_returns [OF assms(1), of ss] assms(2) by auto
  have l: "length ps = length ss" using ps by (metis length_map)
  have "string_of S' (ps ! k) = Some (ss ! k)" if "k < length ss" for k
    using ps that l by (metis nth_map)
  then show ?thesis using one_pointer [OF ok] assms(3,4) by (metis option.inject)
qed

end

interpretation strobj: interning get_strobj string_at strobjs_ok
proof unfold_locales
  fix st st' :: strobjs and s t p q
  assume ok: "strobjs_ok st"
  show "\<exists>p st'. get_strobj s st = Some (p, st')" using get_strobj_intern [OF ok, of s] by blast
  have xs: "distinct (strings st)" using ok by (auto simp: strobjs_ok_def table_ok_def no_strings_def)
  {
    assume g: "get_strobj s st = Some (p, st')"
    then have i: "intern s (strings st) = (p, strings st')" and "strobjs_ok st'"
      using get_strobj_intern [OF ok, of s] by auto
    then show "strobjs_ok st'" by simp
    show "string_at st' p = Some s"
      using intern_at [OF i] by (simp add: string_at_def)
    assume "string_at st q = Some t"
    then show "string_at st' q = Some t"
      using intern_at [OF i] by (auto simp: string_at_def split: if_splits)
  }
  assume "string_at st p = Some s" "string_at st q = Some s"
  then show "p = q" using xs by (auto simp: string_at_def distinct_conv_nth split: if_splits)
qed

text \<open>C10: \<open>get_strobj\<close> returns on every table that calls have built, and refines the search in a list of strings:
  its pointer is the place of the string in the order of first occurrence, and a string that is already there
  leaves the strings as they are.\<close>
theorem get_strobj_refines:
  assumes "strobjs_ok st"
  shows "\<exists>p st'. get_strobj s st = Some (p, st') \<and> strobjs_ok st' \<and> (p, map cell_s (cells st')) = intern s (map cell_s (cells st))"
  using get_strobj_intern [OF assms, of s] by auto

lemma get_strobj_refines_witness:
  "\<exists>p st'. get_strobj ''val'' no_strings = Some (p, st') \<and> strobjs_ok st' \<and> (p, map cell_s (cells st')) = intern ''val'' (map cell_s (cells no_strings))"
  by (rule get_strobj_refines [OF no_strings_ok])

text \<open>C11: after any series of calls the pointers stand for the strings they were asked for, and no two of them
  for the same string: comparing pointers, as all the tools do, is comparing strings.\<close>
theorem strobj_pointers:
  "\<exists>ps st. strobj.get_all ss no_strings = Some (ps, st) \<and> map (string_at st) ps = map Some ss \<and> inj_on (string_at st) (set ps)"
proof -
  obtain ps st where 1: "strobj.get_all ss no_strings = Some (ps, st)" "strobjs_ok st" "map (string_at st) ps = map Some ss"
    using strobj.get_all_returns [OF no_strings_ok, of ss] by blast
  have "p = q" if "p \<in> set ps" "q \<in> set ps" "string_at st p = string_at st q" for p q
  proof -
    have "string_at st p \<in> Some ` set ss" using that(1) 1(3) by (metis image_eqI list.set_map)
    then show ?thesis using strobj.one_pointer [OF 1(2)] that(3) by auto
  qed
  then show ?thesis using 1 by (auto simp: inj_on_def)
qed

subsection \<open>Numbers\<close>

lemma count_digits_0 [simp]: "count_digits 0 c = c"
  by (simp add: count_digits.simps)

lemma count_digits_step: "n \<noteq> 0 \<Longrightarrow> count_digits n c = count_digits (n div 10) (c + 1)"
  by (simp add: count_digits.simps [of n])

lemma count_digits_add: "count_digits n (c + d) = count_digits n c + d"
proof (induction n arbitrary: c rule: less_induct)
  case (less n)
  show ?case
  proof (cases "n = 0")
    case False
    then show ?thesis using less.IH [of "n div 10" "c + 1"] by (simp add: count_digits_step)
  qed simp
qed

lemma length_show_nat: "length (show_nat n) \<le> count_digits n 1"
proof (induction n rule: less_induct)
  case (less n)
  show ?case
  proof (cases "n < 10")
    case True
    then show ?thesis using count_digits_add [of n 0 1] by (simp add: show_nat.simps [of n])
  next
    case False
    then have "count_digits n 1 = count_digits (n div 10) 1 + 1"
      using count_digits_add [of "n div 10" 1 1] by (simp add: count_digits_step)
    then show ?thesis using False less.IH [of "n div 10"] by (simp add: show_nat.simps [of n])
  qed
qed

text \<open>the buffer of \<open>int_strobj\<close> has room for every number, and \<open>strobj_int\<close> reads the number back.\<close>
theorem int_strobj_roundtrip:
  assumes "int32 n" "strobjs_ok st"
  shows "\<exists>p st'. int_strobj n st = Inr (Some (p, st')) \<and> map_option strobj_int (string_at st' p) = Some (Inr n)"
proof -
  have fits: "\<not> count_digits (nat \<bar>n\<bar>) 1 + 2 < length (show_int n) + 1"
    using length_show_nat [of "nat \<bar>n\<bar>"] by (auto simp: show_int_def)
  have "strobj_int (show_int n) = Inr n"
    using assms(1) by (auto simp: strobj_int_def sign_of_show_int Let_def)
  then show ?thesis
    using get_strobj_intern [OF assms(2), of "show_int n"] strobj.get_string [OF assms(2)] fits
    by (fastforce simp: int_strobj_def)
qed

lemma int_strobj_roundtrip_witness:
  "\<exists>p st'. int_strobj (-12) no_strings = Inr (Some (p, st')) \<and> map_option strobj_int (string_at st' p) = Some (Inr (-12))"
  by (rule int_strobj_roundtrip [OF _ no_strings_ok]) (simp add: int32_def)

end
