(* ===== verification/Spec2Isabelle.thy ===== *)
theory Spec2Isabelle
  imports CodecProperties ScopeStack DeclProperties WriterSpec ToolChain PragmaTree Strobj Mangle Bits
begin

text \<open>
  XevXML converts between the AST of the ROSE compiler infrastructure and XML. This development models
  the conversion in both directions and proves what it keeps and what it loses.

  \<^bold>\<open>The program.\<close> The library under \<open>src/\<close> and \<open>include/\<close> has two visitors over one list of node
  classes, \<open>include/sgnode.hpp\<close>:

  \<^item> the writer \<open>XevSageVisitor\<close> (\<open>rose2xml.cpp\<close>) walks the Sage tree and prints, per class \<open>X\<close>, the
    attributes of \<open>attribSgX\<close> and the child elements of \<open>inodeSgX\<close> behind the traversal successors
  \<^item> the reader \<open>XevXmlVisitor\<close> (\<open>xml2rose.cpp\<close>) walks the DOM and builds, per class, a node in
    \<open>visitSgX\<close>, and then runs the checks common to located nodes, statements and expressions

  The per-class functions are in \<open>expr.cpp\<close>, \<open>value.cpp\<close>, \<open>stmt.cpp\<close>, \<open>type.cpp\<close>, \<open>supp.cpp\<close> and
  \<open>decl.cpp\<close>; entity coding and attribute access are in \<open>xmlutils.cpp\<close> and \<open>xmlutils.hpp\<close>, comments and
  directives in \<open>preproc.cpp\<close>. Separate C programs under \<open>tools/\<close> read the XML again, generate
  transformation rules from it and print it; they have a reader and a printer of their own.

  \<^bold>\<open>The theories.\<close>

  \<^item> \<open>Prelude\<close>: results (an error or a value, \<open>'a res\<close>), printing and scanning of numbers as the C++
    streams do, generic lemmas. A fatal macro is \<open>Fatal\<close>; reading an uninitialised variable or a null
    pointer is \<open>Undef\<close>
  \<^item> \<open>XmlEntity\<close>: \<open>REPLACE\<close>, \<open>XmlStr2Entity\<close>, \<open>XmlEntity2Str\<close>
  \<^item> \<open>XmlDom\<close>: the document as printed (\<open>xitem\<close>), as parsed (\<open>dom\<close>, by \<open>dom_of\<close>), and
    \<open>XmlGetAttributeValue\<close> on both strings and numbers
  \<^item> \<open>SageTree\<close>: the node classes of \<open>sgnode.hpp\<close> with their scalar fields, nodes with their slots, the
    casts \<open>isSgX\<close>, and \<open>rose\<close>, the record of what the program asks ROSE for
  \<^item> \<open>Codec\<close>: what the per-class functions share, attribute chunks and how they are looked up
  \<^item> \<open>Mangle\<close>: \<open>getMangledTypes\<close> of \<open>expr.cpp\<close>
  \<^item> \<open>ValueCodec\<close>, \<open>ExprCodec\<close>, \<open>IoStmt\<close>, \<open>StmtCodec\<close>, \<open>TypeCodec\<close>, \<open>SuppCodec\<close>: per class, the reader
    \<open>visitSgX\<close>, the writers \<open>attribSgX\<close> and \<open>inodeSgX\<close>, the shape of the nodes that come back, and one
    lemma \<open>read_...\<close> per group that they do; \<open>Bits\<close> packs modifier vectors into a number
  \<^item> \<open>Modifiers\<close>, \<open>DeclCodec\<close>: the same for declarations, whose modifiers one function writes and
    \<open>checkDeclStmt\<close> reads
  \<^item> \<open>ClassNames\<close>: the list of names and the dispatch on them
  \<^item> \<open>SageWriter\<close>, \<open>XmlReader\<close>: the two visitors, \<open>visit_sage\<close> and \<open>visit_xml\<close>
  \<^item> \<open>RoundTrip\<close>: the condition \<open>rt\<close> on trees, the normal form \<open>canon\<close>, and the composition
  \<^item> \<open>WriterSpec\<close>: the document that a tree stands for, without layout, which the writer refines
  \<^item> \<open>Samples\<close>: two concrete environments for the evaluation of examples
  \<^item> \<open>CodecProperties\<close>, \<open>DeclProperties\<close>, \<open>Dispatch\<close>, \<open>ScopeStack\<close>, \<open>Conversion\<close>: the properties of single
    classes, of the dispatch, of the builder's scope stack and of whole files
  \<^item> \<open>LangStr\<close>: \<open>tools/xevutil_langstr.c\<close>, the string literals of Fortran, C and XML
  \<^item> \<open>ToolXml\<close>: \<open>read_xml\<close> and \<open>fprint_xml\<close> of \<open>tools/xevutil_xml.c\<close>; \<open>ToolChain\<close> composes the library's
    writer with the tools' reader
  \<^item> \<open>Strobj\<close>: \<open>tools/xevutil_strobj.c\<close>, the table that gives each string one pointer
  \<^item> \<open>ToolTree\<close>: the operations of \<open>xevutil_xml.c\<close> on trees; \<open>ToolRestruct\<close>: the tools that move what follows
    a directive or a \<open>contains\<close> statement below it and back (\<open>xev_constr_line.c\<close>, \<open>xev_destr_line.c\<close>,
    \<open>xevparse_contplus.c\<close>, \<open>xevparse_contminus.c\<close>)
  \<^item> \<open>Pragma\<close>, \<open>PragmaTree\<close>: the text of a directive and its clauses (\<open>xevparse_x.c\<close>, \<open>xevunparse_x.c\<close>), and one
    directive in a tree (\<open>xevparse_postf.c\<close>, \<open>xevunparse_pre_f.c\<close>)

  \<^bold>\<open>State and parameters.\<close> ROSE, Xerces and Boost are third-party code. A Sage node is a class with its
  scalar fields, a header (file position, attached directives, parentheses, label) and two lists of slots,
  the traversal successors and those reached by accessors only. The state of \<open>SageBuilder\<close> is a type variable
  that \<open>visit_xml\<close> threads through; its operations are the function fields of \<open>rose\<close>, and where a
  property needs a law about them it is named: \<open>scope_discipline\<close> for the stack of scopes. The XML parser
  is \<open>dom_of\<close>, the document an XML 1.0 processor builds of what the writer printed.

  \<^bold>\<open>What is shown.\<close> Entity coding returns, is one pass over the text, and is undone by its inverse
  exactly when the text has no entity of its own. Per class, the reader undoes the writer on nodes of the
  right shape, and the losses that the code has are theorems too. Writing a whole file and reading
  it gives the normal form of the tree, which further conversions keep. The reader makes of an element a
  node of the class it is named after or ends the process, and leaves the scope stack as it found it.
  The tools' reader comes to an end on every file, reads back what the tools print, and sees in
  what the library writes the elements and attributes an XML processor sees. Two pointers of the string table
  are equal exactly when their strings are, whatever came before. A directive that is printed and parsed again is
  the same, with its Fortran code; what the restructuring tools move, their counterparts move back.

  \<^bold>\<open>Termination.\<close> The visitors recurse on the depth of the tree and on the DOM, so they need no fuel.
  The loop of \<open>REPLACE\<close> is a partial function that is shown to return; \<open>xml_refs\<close> and the scanners recurse
  on the rest of the text. The tools' reader has fuel, twice the length of the file and three: each call
  takes a character off the file or meets its end, and \<open>read_xml_returns\<close> shows that it is enough.

  \<^bold>\<open>Not modelled.\<close> Four classes of \<open>decl.cpp\<close> (\<open>SgEntryStatement\<close>, \<open>SgModuleStatement\<close>,
  \<open>SgProcedureHeaderStatement\<close>, \<open>SgProgramHeaderStatement\<close>), the result variable of a Fortran function
  and the Fortran pragma comments of \<open>preproc.cpp\<close>; an element of these classes is the error
  \<open>Undef\<close> in \<open>unknown_element\<close>. The XSLT driver, the unparser driver and the command line programs are input
  and output around Xalan and ROSE. Of the tools, the allocation and collection of cells, what the
  buffer of the reader held before (it shows behind the name of a closing tag that the file ends in), and
  the programs themselves. A C \<open>char\<close> is signed, as on the platforms the tools are built for.
\<close>

end
